theory Spec2Isabelle
  imports Complex_Main
begin

section \<open>Python values and built-ins used by Ann\_Graph\_Handler.py\<close>

text \<open>
  The exceptions that the evaluated code can raise. \<open>ValueError\<close> comes from
  \<open>int(...)\<close>, from tuple unpacking and from \<open>min\<close> of an empty iterable,
  \<open>IndexError\<close> from list indexing, \<open>KeyError\<close> from the dictionary
  \<open>vertex_map\<close>, \<open>TypeError\<close> from \<open>float(None)\<close>.
\<close>

datatype error = ValueError | IndexError | KeyError | TypeError

text \<open>
  A Python \<open>float\<close> is an IEEE 754 double. A finite double other than the negative
  zero is kept as the real number it stands for (\<open>Fin 0\<close> is \<open>0.0\<close>); the negative
  zero, the two infinities and NaN are values of their own.
\<close>

datatype pyfloat = Fin real | NZero | PInf | NInf | NaN

text \<open>The number of binary digits of a positive integer (0 for the others).\<close>

function bit_length :: "int \<Rightarrow> int" where
  "bit_length n = (if n \<le> 0 then 0 else 1 + bit_length (n div 2))"
  by pat_completeness auto
termination
  by (relation "measure nat") auto

declare bit_length.simps [simp del]

text \<open>For \<open>x > 0\<close>, the integer \<open>k\<close> with \<open>2 ^ k \<le> x < 2 ^ (k + 1)\<close>.\<close>

definition ilog2 :: "real \<Rightarrow> int" where
  "ilog2 x = (if 1 \<le> x then bit_length \<lfloor>x\<rfloor> - 1 else - bit_length (\<lceil>1 / x\<rceil> - 1))"

text \<open>The integer nearest to \<open>x \<ge> 0\<close>, the even one of the two when \<open>x\<close> is half way.\<close>

definition rne :: "real \<Rightarrow> int" where
  "rne x = (let f = \<lfloor>x\<rfloor>; d = x - of_int f
            in if d < 1 / 2 then f else if 1 / 2 < d then f + 1
               else if even f then f else f + 1)"

text \<open>
  Rounding to the nearest double, ties to even, of the number with magnitude \<open>x \<ge> 0\<close>
  and the given sign. A double is \<open>m * 2 ^ e\<close> with \<open>m < 2 ^ 53\<close> and
  \<open>-1074 \<le> e\<close>; what rounds to \<open>2 ^ 1024\<close> or more is an infinity, what rounds to
  nothing is a zero of the same sign.
\<close>

definition to_double :: "bool \<Rightarrow> real \<Rightarrow> pyfloat" where
  "to_double neg x =
     (if x = 0 then (if neg then NZero else Fin 0)
      else (let e = max (ilog2 x - 52) (- 1074);
                m = rne (x / 2 powi e);
                r = of_int m * 2 powi e
            in if 2 ^ 1024 \<le> r then (if neg then NInf else PInf)
               else if m = 0 then (if neg then NZero else Fin 0)
               else Fin (if neg then - r else r)))"

text \<open>The sign of a float that is not NaN, its magnitude when it is finite, and its value.\<close>

definition is_neg :: "pyfloat \<Rightarrow> bool" where
  "is_neg a = (case a of Fin r \<Rightarrow> r < 0 | NZero \<Rightarrow> True | NInf \<Rightarrow> True | _ \<Rightarrow> False)"

definition magnitude :: "pyfloat \<Rightarrow> real option" where
  "magnitude a = (case a of Fin r \<Rightarrow> Some \<bar>r\<bar> | NZero \<Rightarrow> Some 0 | _ \<Rightarrow> None)"

definition fin_val :: "pyfloat \<Rightarrow> real option" where
  "fin_val a = (case a of Fin r \<Rightarrow> Some r | NZero \<Rightarrow> Some 0 | _ \<Rightarrow> None)"

text \<open>
  Multiplication of floats (\<open>*\<close> and \<open>*=\<close> in the source): the exact product of
  two finite doubles, rounded; an infinity times zero is NaN.
\<close>

definition fmul :: "pyfloat \<Rightarrow> pyfloat \<Rightarrow> pyfloat" where
  "fmul a b =
     (if a = NaN \<or> b = NaN then NaN
      else case (magnitude a, magnitude b) of
             (Some x, Some y) \<Rightarrow> to_double (is_neg a \<noteq> is_neg b) (x * y)
           | (Some x, None) \<Rightarrow>
               if x = 0 then NaN else if is_neg a \<noteq> is_neg b then NInf else PInf
           | (None, Some y) \<Rightarrow>
               if y = 0 then NaN else if is_neg a \<noteq> is_neg b then NInf else PInf
           | (None, None) \<Rightarrow> if is_neg a \<noteq> is_neg b then NInf else PInf)"

text \<open>
  The comparison \<open>a < b\<close> of floats, which \<open>min\<close> uses; false whenever NaN is
  involved, and the two zeros are equal.
\<close>

definition flt :: "pyfloat \<Rightarrow> pyfloat \<Rightarrow> bool" where
  "flt a b =
     (if a = NaN \<or> b = NaN then False
      else case (fin_val a, fin_val b) of
             (Some x, Some y) \<Rightarrow> x < y
           | (Some x, None) \<Rightarrow> b = PInf
           | (None, Some y) \<Rightarrow> a = NInf
           | (None, None) \<Rightarrow> a = NInf \<and> b = PInf)"

text \<open>
  The built-in \<open>min\<close> over a non-empty iterable keeps the first item and replaces it
  by a later item only when that item compares smaller; on an empty iterable it raises
  \<open>ValueError\<close>.
\<close>

fun py_min :: "pyfloat list \<Rightarrow> error + pyfloat" where
  "py_min [] = Inl ValueError"
| "py_min (x # xs) = Inr (foldl (\<lambda>m item. if flt item m then item else m) x xs)"

subsection \<open>Strings\<close>

text \<open>
  Strings are ASCII. For the string methods \<open>split\<close> and \<open>strip\<close> the whitespace
  characters are space, tab, line feed, vertical tab, form feed, carriage return and the
  four separators \<open>0x1C\<close> to \<open>0x1F\<close>. The conversions \<open>int\<close> and \<open>float\<close> skip
  only the first six of them around an ASCII string.
\<close>

definition is_space :: "char \<Rightarrow> bool" where
  "is_space c = (c \<in> set [CHR '' '', CHR 0x09, CHR 0x0A, CHR 0x0B, CHR 0x0C, CHR 0x0D,
                            CHR 0x1C, CHR 0x1D, CHR 0x1E, CHR 0x1F])"

definition is_cspace :: "char \<Rightarrow> bool" where
  "is_cspace c = (c \<in> set [CHR '' '', CHR 0x09, CHR 0x0A, CHR 0x0B, CHR 0x0C, CHR 0x0D])"

definition is_digit :: "char \<Rightarrow> bool" where
  "is_digit c = (c \<in> set ''0123456789'')"

definition digit_val :: "char \<Rightarrow> nat" where
  "digit_val c = of_char c - 48"

text \<open>\<open>s.strip()\<close>: whitespace removed at both ends.\<close>

definition strip :: "string \<Rightarrow> string" where
  "strip s = rev (dropWhile is_space (rev (dropWhile is_space s)))"

text \<open>The whitespace that \<open>int\<close> and \<open>float\<close> skip at both ends of their argument.\<close>

definition strip_c :: "string \<Rightarrow> string" where
  "strip_c s = rev (dropWhile is_cspace (rev (dropWhile is_cspace s)))"

text \<open>
  \<open>s.split()\<close> without arguments: the maximal runs of non-whitespace characters, in
  order. The first argument is the token read so far.
\<close>

fun split_acc :: "string \<Rightarrow> string \<Rightarrow> string list" where
  "split_acc cur [] = (if cur = [] then [] else [cur])"
| "split_acc cur (c # cs) =
     (if is_space c then (if cur = [] then split_acc [] cs else cur # split_acc [] cs)
      else split_acc (cur @ [c]) cs)"

definition split :: "string \<Rightarrow> string list" where
  "split s = split_acc [] s"

text \<open>
  Underscores in numeric literals: each underscore must stand between two digits. The
  function returns the text without its underscores, or \<open>None\<close> when one is misplaced.
  The first argument is the previous character.
\<close>

fun drop_underscores :: "char option \<Rightarrow> string \<Rightarrow> string option" where
  "drop_underscores prev [] = (if prev = Some CHR ''_'' then None else Some [])"
| "drop_underscores prev (c # cs) =
     (if c = CHR ''_'' then
        (case prev of
           None \<Rightarrow> None
         | Some p \<Rightarrow> if is_digit p then drop_underscores (Some c) cs else None)
      else if prev = Some CHR ''_'' \<and> \<not> is_digit c then None
      else map_option ((#) c) (drop_underscores (Some c) cs))"

text \<open>The value of a string of decimal digits.\<close>

definition digits_val :: "string \<Rightarrow> nat" where
  "digits_val ds = foldl (\<lambda>n c. 10 * n + digit_val c) 0 ds"

text \<open>An optional sign: the sign read (\<open>True\<close> for minus) and the rest of the text.\<close>

fun take_sign :: "string \<Rightarrow> bool \<times> string" where
  "take_sign [] = (False, [])"
| "take_sign (c # cs) =
     (if c = CHR ''-'' then (True, cs) else if c = CHR ''+'' then (False, cs)
      else (False, c # cs))"

text \<open>
  \<open>int(s)\<close> for a string in base 10: surrounding whitespace, an optional sign, then
  digits with single underscores between them. \<open>None\<close> stands for \<open>ValueError\<close>.
  (The limit on the number of digits of recent Python versions is not modelled.)
\<close>

definition py_int :: "string \<Rightarrow> int option" where
  "py_int s =
     (let (neg, body) = take_sign (strip_c s) in
      case drop_underscores None body of
        None \<Rightarrow> None
      | Some ds \<Rightarrow>
          if ds \<noteq> [] \<and> list_all is_digit ds
          then Some (if neg then - int (digits_val ds) else int (digits_val ds))
          else None)"

text \<open>Lower case of an ASCII letter, for the case-insensitive words \<open>inf\<close> and \<open>nan\<close>.\<close>

definition lower :: "char \<Rightarrow> char" where
  "lower c = (if of_char c \<ge> (65::nat) \<and> of_char c \<le> (90::nat)
              then char_of (of_char c + (32::nat)) else c)"

text \<open>
  The decimal part of a float literal: digits, an optional point with digits (at least
  one digit on either side of the point), and an optional exponent \<open>e\<close> or \<open>E\<close>
  with an optional sign and at least one digit.
\<close>

definition scale10 :: "nat \<Rightarrow> int \<Rightarrow> real" where
  "scale10 m e = (if 0 \<le> e then real m * 10 ^ nat e else real m / 10 ^ nat (- e))"

definition parse_exponent :: "string \<Rightarrow> int option" where
  "parse_exponent s =
     (case s of
        [] \<Rightarrow> Some 0
      | c # cs \<Rightarrow>
          if c = CHR ''e'' \<or> c = CHR ''E'' then
            (let (neg, ds) = take_sign cs in
             if ds \<noteq> [] \<and> list_all is_digit ds
             then Some (if neg then - int (digits_val ds) else int (digits_val ds))
             else None)
          else None)"

definition parse_decimal :: "string \<Rightarrow> real option" where
  "parse_decimal s =
     (let ip = takeWhile is_digit s; r1 = dropWhile is_digit s;
          (fp, r2) = (case r1 of
                        c # cs \<Rightarrow> if c = CHR ''.''
                                  then (takeWhile is_digit cs, dropWhile is_digit cs)
                                  else ([], r1)
                      | [] \<Rightarrow> ([], r1))
      in if ip = [] \<and> fp = [] then None
         else case parse_exponent r2 of
                None \<Rightarrow> None
              | Some e \<Rightarrow> Some (scale10 (digits_val (ip @ fp)) (e - int (length fp))))"

text \<open>
  \<open>float(s)\<close> for a string: underscores between digits are removed, then
  surrounding whitespace; what remains is an optional sign and then \<open>inf\<close>,
  \<open>infinity\<close> or \<open>nan\<close> in any case, or a decimal literal, whose value is rounded
  to the nearest double. \<open>None\<close> stands for \<open>ValueError\<close>.
\<close>

definition py_float :: "string \<Rightarrow> pyfloat option" where
  "py_float s =
     (case drop_underscores None s of
        None \<Rightarrow> None
      | Some t \<Rightarrow>
          (let (neg, body) = take_sign (strip_c t); w = map lower body in
           if w = ''inf'' \<or> w = ''infinity'' then Some (if neg then NInf else PInf)
           else if w = ''nan'' then Some NaN
           else map_option (to_double neg) (parse_decimal body)))"

section \<open>The graph model\<close>

text \<open>
  The classes \<open>Vertex\<close>, \<open>Edge\<close> and \<open>AnnotatedGraph\<close>. The graph owns the
  lists of vertices and edges. A reference to a \<open>Vertex\<close> or \<open>Edge\<close> object held
  elsewhere (in \<open>in_edges\<close>, \<open>out_edges\<close> and in the dictionary \<open>vertex_map\<close>) is
  the position of that object in the graph's list, so that a write to an attribute is
  seen through every reference, as it is in Python.
\<close>

record vertex =
  v_id :: int
  v_attr :: "pyfloat option"
  v_rule :: "string option"
  in_edges :: "nat list"
  out_edges :: "nat list"

record edge =
  e_id :: int
  source :: int
  target :: int
  e_attr :: "pyfloat option"
  e_rule :: "string option"

record graph =
  vertices :: "vertex list"
  edges :: "edge list"
  vertex_map :: "int \<rightharpoonup> nat"

text \<open>The constructors \<open>Vertex(id)\<close>, \<open>Edge(id, source, target)\<close>, \<open>AnnotatedGraph()\<close>.\<close>

definition Vertex :: "int \<Rightarrow> vertex" where
  "Vertex i = \<lparr>v_id = i, v_attr = None, v_rule = None, in_edges = [], out_edges = []\<rparr>"

definition Edge :: "int \<Rightarrow> int \<Rightarrow> int \<Rightarrow> edge" where
  "Edge i s t = \<lparr>e_id = i, source = s, target = t, e_attr = None, e_rule = None\<rparr>"

definition AnnotatedGraph :: graph where
  "AnnotatedGraph = \<lparr>vertices = [], edges = [], vertex_map = Map.empty\<rparr>"

definition add_vertex :: "graph \<Rightarrow> vertex \<Rightarrow> graph" where
  "add_vertex g v =
     g\<lparr>vertices := vertices g @ [v],
       vertex_map := (vertex_map g)(v_id v \<mapsto> length (vertices g))\<rparr>"

definition add_out_edge :: "graph \<Rightarrow> nat \<Rightarrow> nat \<Rightarrow> graph" where
  "add_out_edge g p k =
     g\<lparr>vertices := (vertices g)[p := (vertices g ! p)\<lparr>out_edges := out_edges (vertices g ! p) @ [k]\<rparr>]\<rparr>"

definition add_in_edge :: "graph \<Rightarrow> nat \<Rightarrow> nat \<Rightarrow> graph" where
  "add_in_edge g p k =
     g\<lparr>vertices := (vertices g)[p := (vertices g ! p)\<lparr>in_edges := in_edges (vertices g ! p) @ [k]\<rparr>]\<rparr>"

definition add_edge :: "graph \<Rightarrow> edge \<Rightarrow> graph" where
  "add_edge g e =
     (let k = length (edges g);
          g1 = g\<lparr>edges := edges g @ [e]\<rparr>;
          g2 = (case vertex_map g1 (source e) of None \<Rightarrow> g1 | Some p \<Rightarrow> add_out_edge g1 p k)
      in case vertex_map g2 (target e) of None \<Rightarrow> g2 | Some p \<Rightarrow> add_in_edge g2 p k)"

text \<open>\<open>get_vertex\<close>: the dictionary lookup \<open>vertex_map[id]\<close> raises \<open>KeyError\<close> on a
  missing key.\<close>

definition get_vertex :: "graph \<Rightarrow> int \<Rightarrow> error + nat" where
  "get_vertex g i = (case vertex_map g i of None \<Rightarrow> Inl KeyError | Some p \<Rightarrow> Inr p)"

text \<open>
  List indexing \<open>xs[k]\<close> on a list of length \<open>n\<close>: a negative index counts from the
  end, an index outside \<open>-n .. n-1\<close> raises \<open>IndexError\<close>. The result is the position
  read.
\<close>

definition list_index :: "nat \<Rightarrow> int \<Rightarrow> error + nat" where
  "list_index n k =
     (let j = (if k < 0 then int n + k else k)
      in if 0 \<le> j \<and> j < int n then Inr (nat j) else Inl IndexError)"

section \<open>The agent function\<close>

text \<open>
  What \<open>_parse_rule\<close> returns: a float, a single token, or a pair of the first token
  and the second token as an integer less one.
\<close>

datatype parsed = PFloat pyfloat | PStr string | PTuple string int

definition parse_rule :: "string option \<Rightarrow> error + parsed" where
  "parse_rule r =
     (case r of
        None \<Rightarrow> Inl TypeError
      | Some s \<Rightarrow>
          (case py_float s of
             Some x \<Rightarrow> Inr (PFloat x)
           | None \<Rightarrow>
               (let parts = split s in
                if length parts = 1 then Inr (PStr (parts ! 0))
                else (case parts of
                        [] \<Rightarrow> Inl IndexError
                      | p0 # rest \<Rightarrow>
                          (case py_int (rest ! 0) of
                             None \<Rightarrow> Inl ValueError
                           | Some n \<Rightarrow> Inr (PTuple p0 (n - 1)))))))"

text \<open>The assignments \<open>vertex.attr = x\<close> and \<open>edge.attr = x\<close>.\<close>

definition set_vattr :: "graph \<Rightarrow> nat \<Rightarrow> pyfloat \<Rightarrow> graph" where
  "set_vattr g i x = g\<lparr>vertices := (vertices g)[i := (vertices g ! i)\<lparr>v_attr := Some x\<rparr>]\<rparr>"

definition set_eattr :: "graph \<Rightarrow> nat \<Rightarrow> pyfloat \<Rightarrow> graph" where
  "set_eattr g j x = g\<lparr>edges := (edges g)[j := (edges g ! j)\<lparr>e_attr := Some x\<rparr>]\<rparr>"

text \<open>\<open>all(e.attr is not None for e in es)\<close> and the attributes read from \<open>es\<close>.\<close>

definition all_set :: "graph \<Rightarrow> nat list \<Rightarrow> bool" where
  "all_set g es = list_all (\<lambda>q. e_attr (edges g ! q) \<noteq> None) es"

definition attrs_of :: "graph \<Rightarrow> nat list \<Rightarrow> pyfloat list" where
  "attrs_of g es = map (\<lambda>q. the (e_attr (edges g ! q))) es"

text \<open>
  \<open>_compute_vertex_attr\<close> for the vertex at position \<open>i\<close>. An exception leaves the
  graph as it was: every branch raises before it assigns.
\<close>

definition compute_vertex_attr :: "graph \<Rightarrow> nat \<Rightarrow> error + graph" where
  "compute_vertex_attr g i =
     (case parse_rule (v_rule (vertices g ! i)) of
        Inl e \<Rightarrow> Inl e
      | Inr (PFloat x) \<Rightarrow> Inr (set_vattr g i x)
      | Inr (PTuple t k) \<Rightarrow>
          if t = ''v'' then
            (case get_vertex g k of
               Inl e \<Rightarrow> Inl e
             | Inr p \<Rightarrow> (case v_attr (vertices g ! p) of
                           None \<Rightarrow> Inr g
                         | Some x \<Rightarrow> Inr (set_vattr g i x)))
          else if t = ''e'' then
            (case list_index (length (edges g)) k of
               Inl e \<Rightarrow> Inl e
             | Inr q \<Rightarrow> (case e_attr (edges g ! q) of
                           None \<Rightarrow> Inr g
                         | Some x \<Rightarrow> Inr (set_vattr g i x)))
          else Inr g
      | Inr (PStr w) \<Rightarrow>
          if w = ''min'' then
            (if all_set g (in_edges (vertices g ! i)) then
               (case py_min (attrs_of g (in_edges (vertices g ! i))) of
                  Inl e \<Rightarrow> Inl e
                | Inr m \<Rightarrow> Inr (set_vattr g i m))
             else Inr g)
          else Inr g)"

text \<open>\<open>_compute_edge_attr\<close> for the edge at position \<open>j\<close>.\<close>

definition compute_edge_attr :: "graph \<Rightarrow> nat \<Rightarrow> error + graph" where
  "compute_edge_attr g j =
     (case parse_rule (e_rule (edges g ! j)) of
        Inl e \<Rightarrow> Inl e
      | Inr (PFloat x) \<Rightarrow> Inr (set_eattr g j x)
      | Inr (PTuple t k) \<Rightarrow>
          if t = ''v'' then
            (case get_vertex g k of
               Inl e \<Rightarrow> Inl e
             | Inr p \<Rightarrow> (case v_attr (vertices g ! p) of
                           None \<Rightarrow> Inr g
                         | Some x \<Rightarrow> Inr (set_eattr g j x)))
          else if t = ''e'' then
            (case list_index (length (edges g)) k of
               Inl e \<Rightarrow> Inl e
             | Inr q \<Rightarrow> (case e_attr (edges g ! q) of
                           None \<Rightarrow> Inr g
                         | Some x \<Rightarrow> Inr (set_eattr g j x)))
          else Inr g
      | Inr (PStr w) \<Rightarrow>
          if w = ''*'' then
            (case get_vertex g (source (edges g ! j)) of
               Inl e \<Rightarrow> Inl e
             | Inr p \<Rightarrow>
                 (case v_attr (vertices g ! p) of
                    None \<Rightarrow> Inr g
                  | Some a \<Rightarrow>
                      if all_set g (in_edges (vertices g ! p)) then
                        (let product = foldl fmul (Fin 1) (attrs_of g (in_edges (vertices g ! p)))
                         in Inr (set_eattr g j (fmul a product)))
                      else Inr g))
          else Inr g)"

text \<open>
  The two \<open>for\<close> loops of \<open>execute\<close>, over the positions still to visit. The flag is
  the variable \<open>changed\<close>. An exception ends the loop; the graph it leaves behind is
  returned with it, since the graph is mutated in place.
\<close>

fun vertices_pass :: "nat list \<Rightarrow> graph \<Rightarrow> bool \<Rightarrow> error \<times> graph + graph \<times> bool" where
  "vertices_pass [] g changed = Inr (g, changed)"
| "vertices_pass (i # rest) g changed =
     (if v_attr (vertices g ! i) = None then
        (let prev = v_attr (vertices g ! i) in
         case compute_vertex_attr g i of
           Inl e \<Rightarrow> Inl (e, g)
         | Inr g' \<Rightarrow>
             vertices_pass rest g' (if v_attr (vertices g' ! i) \<noteq> prev then True else changed))
      else vertices_pass rest g changed)"

fun edges_pass :: "nat list \<Rightarrow> graph \<Rightarrow> bool \<Rightarrow> error \<times> graph + graph \<times> bool" where
  "edges_pass [] g changed = Inr (g, changed)"
| "edges_pass (j # rest) g changed =
     (if e_attr (edges g ! j) = None then
        (let prev = e_attr (edges g ! j) in
         case compute_edge_attr g j of
           Inl e \<Rightarrow> Inl (e, g)
         | Inr g' \<Rightarrow>
             edges_pass rest g' (if e_attr (edges g' ! j) \<noteq> prev then True else changed))
      else edges_pass rest g changed)"

text \<open>One iteration of the \<open>while\<close> loop: \<open>changed = False\<close>, the pass over the
  vertices, then the pass over the edges.\<close>

definition execute_round :: "graph \<Rightarrow> error \<times> graph + graph \<times> bool" where
  "execute_round g =
     (case vertices_pass [0..<length (vertices g)] g False of
        Inl x \<Rightarrow> Inl x
      | Inr (g1, c1) \<Rightarrow> edges_pass [0..<length (edges g1)] g1 c1)"

text \<open>The number of attributes still unset; it bounds the rounds that can follow.\<close>

definition unset_count :: "graph \<Rightarrow> nat" where
  "unset_count g =
     length (filter (\<lambda>v. v_attr v = None) (vertices g)) +
     length (filter (\<lambda>e. e_attr e = None) (edges g))"

section \<open>Every round that changes something sets an attribute\<close>

lemma length_filter_update:
  "i < length xs \<Longrightarrow> P (xs ! i) \<Longrightarrow> \<not> P y \<Longrightarrow>
   Suc (length (filter P (xs[i := y]))) = length (filter P xs)"
proof (induction xs arbitrary: i)
  case Nil
  then show ?case by simp
next
  case (Cons a xs)
  then show ?case by (cases i) auto
qed

lemma compute_vertex_attr_cases:
  assumes "compute_vertex_attr g i = Inr g'"
  shows "g' = g \<or> (\<exists>x. g' = set_vattr g i x)"
  using assms unfolding compute_vertex_attr_def
  by (auto split: sum.splits parsed.splits if_splits option.splits)

lemma compute_edge_attr_cases:
  assumes "compute_edge_attr g j = Inr g'"
  shows "g' = g \<or> (\<exists>x. g' = set_eattr g j x)"
  using assms unfolding compute_edge_attr_def
  by (auto split: sum.splits parsed.splits if_splits option.splits simp: Let_def)

lemma set_vattr_out_of_range: "length (vertices g) \<le> i \<Longrightarrow> set_vattr g i x = g"
  by (cases g) (simp add: set_vattr_def list_update_beyond)

lemma set_eattr_out_of_range: "length (edges g) \<le> j \<Longrightarrow> set_eattr g j x = g"
  by (cases g) (simp add: set_eattr_def list_update_beyond)

lemma set_vattr_read:
  "i < length (vertices g) \<Longrightarrow> v_attr (vertices (set_vattr g i x) ! i) = Some x"
  by (simp add: set_vattr_def)

lemma set_eattr_read:
  "j < length (edges g) \<Longrightarrow> e_attr (edges (set_eattr g j x) ! j) = Some x"
  by (simp add: set_eattr_def)

lemma unset_count_set_vattr:
  "i < length (vertices g) \<Longrightarrow> v_attr (vertices g ! i) = None \<Longrightarrow>
   Suc (unset_count (set_vattr g i x)) = unset_count g"
  using length_filter_update [of i "vertices g" "\<lambda>v. v_attr v = None" "(vertices g ! i)\<lparr>v_attr := Some x\<rparr>"]
  by (simp add: unset_count_def set_vattr_def)

lemma unset_count_set_eattr:
  "j < length (edges g) \<Longrightarrow> e_attr (edges g ! j) = None \<Longrightarrow>
   Suc (unset_count (set_eattr g j x)) = unset_count g"
  using length_filter_update [of j "edges g" "\<lambda>e. e_attr e = None" "(edges g ! j)\<lparr>e_attr := Some x\<rparr>"]
  by (simp add: unset_count_def set_eattr_def)

text \<open>One guarded step of the vertex loop.\<close>

lemma vertex_step_effect:
  assumes "compute_vertex_attr g i = Inr g'" and "v_attr (vertices g ! i) = None"
  shows "(v_attr (vertices g' ! i) = None \<and> g' = g) \<or>
         (v_attr (vertices g' ! i) \<noteq> None \<and> Suc (unset_count g') = unset_count g)"
proof -
  from compute_vertex_attr_cases [OF assms(1)]
  consider "g' = g" | x where "g' = set_vattr g i x" by blast
  then show ?thesis
  proof cases
    case 1
    with assms(2) show ?thesis by simp
  next
    case 2
    show ?thesis
    proof (cases "i < length (vertices g)")
      case True
      with 2 assms(2) show ?thesis
        by (simp add: set_vattr_read unset_count_set_vattr)
    next
      case False
      with 2 have "g' = g" by (simp add: set_vattr_out_of_range)
      with assms(2) show ?thesis by simp
    qed
  qed
qed

lemma edge_step_effect:
  assumes "compute_edge_attr g j = Inr g'" and "e_attr (edges g ! j) = None"
  shows "(e_attr (edges g' ! j) = None \<and> g' = g) \<or>
         (e_attr (edges g' ! j) \<noteq> None \<and> Suc (unset_count g') = unset_count g)"
proof -
  from compute_edge_attr_cases [OF assms(1)]
  consider "g' = g" | x where "g' = set_eattr g j x" by blast
  then show ?thesis
  proof cases
    case 1
    with assms(2) show ?thesis by simp
  next
    case 2
    show ?thesis
    proof (cases "j < length (edges g)")
      case True
      with 2 assms(2) show ?thesis
        by (simp add: set_eattr_read unset_count_set_eattr)
    next
      case False
      with 2 have "g' = g" by (simp add: set_eattr_out_of_range)
      with assms(2) show ?thesis by simp
    qed
  qed
qed

lemma vertices_pass_effect:
  "vertices_pass is g c = Inr (g', c') \<Longrightarrow>
   (c' \<longrightarrow> c \<or> unset_count g' < unset_count g) \<and> (\<not> c' \<longrightarrow> \<not> c \<and> g' = g) \<and>
   unset_count g' \<le> unset_count g"
proof (induction "is" arbitrary: g c)
  case Nil
  then show ?case by auto
next
  case (Cons i rest)
  show ?case
  proof (cases "v_attr (vertices g ! i) = None")
    case False
    with Cons.prems have "vertices_pass rest g c = Inr (g', c')" by simp
    from Cons.IH [OF this] show ?thesis .
  next
    case True
    with Cons.prems obtain g1 where
      c1: "compute_vertex_attr g i = Inr g1" and
      r: "vertices_pass rest g1 (if v_attr (vertices g1 ! i) \<noteq> None then True else c) = Inr (g', c')"
      by (auto split: sum.splits)
    from vertex_step_effect [OF c1 True] Cons.IH [OF r] show ?thesis
      by (auto split: if_splits)
  qed
qed

lemma edges_pass_effect:
  "edges_pass js g c = Inr (g', c') \<Longrightarrow>
   (c' \<longrightarrow> c \<or> unset_count g' < unset_count g) \<and> (\<not> c' \<longrightarrow> \<not> c \<and> g' = g) \<and>
   unset_count g' \<le> unset_count g"
proof (induction js arbitrary: g c)
  case Nil
  then show ?case by auto
next
  case (Cons j rest)
  show ?case
  proof (cases "e_attr (edges g ! j) = None")
    case False
    with Cons.prems have "edges_pass rest g c = Inr (g', c')" by simp
    from Cons.IH [OF this] show ?thesis .
  next
    case True
    with Cons.prems obtain g1 where
      c1: "compute_edge_attr g j = Inr g1" and
      r: "edges_pass rest g1 (if e_attr (edges g1 ! j) \<noteq> None then True else c) = Inr (g', c')"
      by (auto split: sum.splits)
    from edge_step_effect [OF c1 True] Cons.IH [OF r] show ?thesis
      by (auto split: if_splits)
  qed
qed

lemma execute_round_changed:
  assumes "execute_round g = Inr (g', True)"
  shows "unset_count g' < unset_count g"
proof -
  from assms obtain g1 c1 where
    v: "vertices_pass [0..<length (vertices g)] g False = Inr (g1, c1)" and
    e: "edges_pass [0..<length (edges g1)] g1 c1 = Inr (g', True)"
    by (auto simp: execute_round_def split: sum.splits)
  from vertices_pass_effect [OF v] edges_pass_effect [OF e] show ?thesis
    by (cases c1) auto
qed

lemma execute_round_unchanged:
  assumes "execute_round g = Inr (g', False)"
  shows "g' = g"
proof -
  from assms obtain g1 c1 where
    v: "vertices_pass [0..<length (vertices g)] g False = Inr (g1, c1)" and
    e: "edges_pass [0..<length (edges g1)] g1 c1 = Inr (g', False)"
    by (auto simp: execute_round_def split: sum.splits)
  from vertices_pass_effect [OF v] edges_pass_effect [OF e] show ?thesis
    by auto
qed

text \<open>
  \<open>execute\<close>: the \<open>while changed\<close> loop. It is a total function, because a round
  that reports a change leaves fewer attributes unset.
\<close>

function execute :: "graph \<Rightarrow> error \<times> graph + graph" where
  "execute g =
     (case execute_round g of
        Inl x \<Rightarrow> Inl x
      | Inr (g', changed) \<Rightarrow> if changed then execute g' else Inr g')"
  by pat_completeness auto
termination
  by (relation "measure unset_count") (auto dest: execute_round_changed)

text \<open>
  The same loop with a counter of the rounds it runs (the counter is not in the source;
  it serves to state how long the loop runs).
\<close>

function execute_rounds :: "graph \<Rightarrow> error \<times> graph + graph \<times> nat" where
  "execute_rounds g =
     (case execute_round g of
        Inl x \<Rightarrow> Inl x
      | Inr (g', changed) \<Rightarrow>
          if changed then map_sum id (\<lambda>(h, n). (h, Suc n)) (execute_rounds g')
          else Inr (g', 1))"
  by pat_completeness auto
termination
  by (relation "measure unset_count") (auto dest: execute_round_changed)

declare execute.simps [simp del] execute_rounds.simps [simp del]

lemma execute_rounds_execute: "map_sum id fst (execute_rounds g) = execute g"
proof (induction g rule: execute.induct)
  case (1 g)
  show ?case
  proof (cases "execute_round g")
    case (Inl x)
    then show ?thesis by (simp add: execute.simps [of g] execute_rounds.simps [of g])
  next
    case (Inr p)
    obtain g' c where p: "p = (g', c)" by (cases p)
    show ?thesis
    proof (cases c)
      case True
      from "1.IH" [OF Inr p [symmetric] True] Inr p True show ?thesis
        by (cases "execute_rounds g'")
           (auto simp: execute.simps [of g] execute_rounds.simps [of g])
    next
      case False
      with Inr p show ?thesis by (simp add: execute.simps [of g] execute_rounds.simps [of g])
    qed
  qed
qed

section \<open>Reading the input, writing the output\<close>

text \<open>
  The input file is the list of its lines. \<open>f.readline()\<close> returns the next line and
  the lines that remain; at the end of the file it returns the empty string.
\<close>

definition readline :: "string list \<Rightarrow> string \<times> string list" where
  "readline ls = (case ls of [] \<Rightarrow> ([], []) | l # rest \<Rightarrow> (l, rest))"

text \<open>
  \<open>a, b = map(int, line.split())\<close>: every failure is a \<open>ValueError\<close>, be it a token
  that is not an integer or a number of tokens other than two.
\<close>

definition read_int_pair :: "string \<Rightarrow> error + int \<times> int" where
  "read_int_pair l =
     (case map py_int (split l) of
        [Some a, Some b] \<Rightarrow> Inr (a, b)
      | _ \<Rightarrow> Inl ValueError)"

text \<open>The loop \<open>for i in range(nv): graph.add_vertex(Vertex(i))\<close>.\<close>

definition add_vertices :: "graph \<Rightarrow> nat list \<Rightarrow> graph" where
  "add_vertices g ks = foldl (\<lambda>h i. add_vertex h (Vertex (int i))) g ks"

text \<open>The loop that reads the edges: each line gives the two endpoints, counted from 1.\<close>

fun read_edges :: "nat list \<Rightarrow> graph \<Rightarrow> string list \<Rightarrow> error + graph \<times> string list" where
  "read_edges [] g ls = Inr (g, ls)"
| "read_edges (i # rest) g ls =
     (case read_int_pair (fst (readline ls)) of
        Inl e \<Rightarrow> Inl e
      | Inr (src, tgt) \<Rightarrow>
          read_edges rest (add_edge g (Edge (int i) (src - 1) (tgt - 1))) (snd (readline ls)))"

text \<open>The assignments \<open>graph.vertices[i].rule = rule\<close> and \<open>graph.edges[i].rule = rule\<close>.\<close>

definition set_vrule :: "graph \<Rightarrow> nat \<Rightarrow> string \<Rightarrow> graph" where
  "set_vrule g i r = g\<lparr>vertices := (vertices g)[i := (vertices g ! i)\<lparr>v_rule := Some r\<rparr>]\<rparr>"

definition set_erule :: "graph \<Rightarrow> nat \<Rightarrow> string \<Rightarrow> graph" where
  "set_erule g j r = g\<lparr>edges := (edges g)[j := (edges g ! j)\<lparr>e_rule := Some r\<rparr>]\<rparr>"

fun read_vertex_rules :: "nat list \<Rightarrow> graph \<Rightarrow> string list \<Rightarrow> graph \<times> string list" where
  "read_vertex_rules [] g ls = (g, ls)"
| "read_vertex_rules (i # rest) g ls =
     read_vertex_rules rest (set_vrule g i (strip (fst (readline ls)))) (snd (readline ls))"

fun read_edge_rules :: "nat list \<Rightarrow> graph \<Rightarrow> string list \<Rightarrow> graph \<times> string list" where
  "read_edge_rules [] g ls = (g, ls)"
| "read_edge_rules (j # rest) g ls =
     read_edge_rules rest (set_erule g j (strip (fst (readline ls)))) (snd (readline ls))"

text \<open>
  \<open>read_input_file\<close>, on the lines of the file. The rules are stored as the stripped
  text of their lines; nothing here looks into them.
\<close>

definition read_input_file :: "string list \<Rightarrow> error + graph" where
  "read_input_file ls =
     (case read_int_pair (fst (readline ls)) of
        Inl e \<Rightarrow> Inl e
      | Inr (nv, ne) \<Rightarrow>
          (let r1 = snd (readline (snd (readline ls)));
               g1 = add_vertices AnnotatedGraph [0..<nat nv]
           in case read_edges [0..<nat ne] g1 r1 of
                Inl e \<Rightarrow> Inl e
              | Inr (g2, r2) \<Rightarrow>
                  (let r3 = snd (readline r2);
                       (g3, r4) = read_vertex_rules [0..<nat nv] g2 r3;
                       (g4, r5) = read_edge_rules [0..<nat ne] g3 r4
                   in Inr g4)))"

text \<open>
  \<open>write_output_file\<close>: one line for each vertex, then one for each edge. The lines
  are kept as the attribute values written; an unset attribute is written as the text
  \<open>None\<close>.
\<close>

definition write_output_file :: "graph \<Rightarrow> pyfloat option list" where
  "write_output_file g = map v_attr (vertices g) @ map e_attr (edges g)"

text \<open>
  \<open>main\<close>, from the lines of the input file to the lines of the output file. An
  exception in the reader or in \<open>execute\<close> ends the program before anything is written.
\<close>

definition main :: "string list \<Rightarrow> error + pyfloat option list" where
  "main ls =
     (case read_input_file ls of
        Inl e \<Rightarrow> Inl e
      | Inr g \<Rightarrow>
          (case execute g of
             Inl (e, h) \<Rightarrow> Inl e
           | Inr g' \<Rightarrow> Inr (write_output_file g')))"

section \<open>How long the loop runs\<close>

lemma unset_count_le: "unset_count g \<le> length (vertices g) + length (edges g)"
  unfolding unset_count_def
  by (intro add_mono length_filter_le)

lemma execute_fixpoint: "execute g = Inr g' \<Longrightarrow> execute_round g' = Inr (g', False)"
proof (induction g rule: execute.induct)
  case (1 g)
  from "1.prems" obtain h c where r: "execute_round g = Inr (h, c)"
    by (auto simp: execute.simps [of g] split: sum.splits)
  show ?case
  proof (cases c)
    case True
    with r "1.prems" have "execute h = Inr g'" by (simp add: execute.simps [of g])
    from "1.IH" [OF r refl True this] show ?thesis .
  next
    case False
    with r "1.prems" have "h = g'" by (simp add: execute.simps [of g])
    moreover from r False have "h = g" by (simp add: execute_round_unchanged)
    ultimately show ?thesis using r False by simp
  qed
qed

lemma execute_rounds_bound:
  "execute_rounds g = Inr (g', n) \<Longrightarrow> 1 \<le> n \<and> n + unset_count g' \<le> Suc (unset_count g)"
proof (induction g arbitrary: n rule: execute_rounds.induct)
  case (1 g)
  from "1.prems" obtain h c where r: "execute_round g = Inr (h, c)"
    by (auto simp: execute_rounds.simps [of g] split: sum.splits)
  show ?case
  proof (cases c)
    case True
    with r "1.prems" obtain m where
      m: "execute_rounds h = Inr (g', m)" and n: "n = Suc m"
      by (cases "execute_rounds h") (auto simp: execute_rounds.simps [of g])
    from "1.IH" [OF r refl True m] execute_round_changed [of g h] r True n
    show ?thesis by simp
  next
    case False
    with r "1.prems" have "h = g'" "n = 1" by (simp_all add: execute_rounds.simps [of g])
    moreover from r False have "h = g" by (simp add: execute_round_unchanged)
    ultimately show ?thesis by simp
  qed
qed

lemma execute_rounds_fixpoint:
  "execute_round g = Inr (g, False) \<Longrightarrow> execute_rounds g = Inr (g, 1)"
  by (simp add: execute_rounds.simps [of g])

lemma execute_at_fixpoint:
  "execute_round g = Inr (g, False) \<Longrightarrow> execute g = Inr g"
  by (simp add: execute.simps [of g])

lemma execute_rounds_result:
  "execute_rounds g = Inr (g', n) \<Longrightarrow> execute g = Inr g'"
  using execute_rounds_execute [of g] by simp

section \<open>Scenarios\<close>

text \<open>The definitions unfolded to run the model on a concrete input.\<close>

lemmas str_defs = split_def strip_def strip_c_def is_space_def is_cspace_def is_digit_def
  digit_val_def digits_val_def
  py_int_def py_float_def parse_decimal_def parse_exponent_def scale10_def lower_def

lemmas float_defs = to_double_def ilog2_def rne_def bit_length.simps Let_def power_int_minus
  fmul_def is_neg_def magnitude_def

lemmas load_defs = read_input_file_def read_int_pair_def readline_def add_vertices_def
  add_vertex_def add_edge_def add_in_edge_def add_out_edge_def Vertex_def Edge_def
  AnnotatedGraph_def set_vrule_def set_erule_def

lemmas run_defs = execute_round_def compute_vertex_attr_def compute_edge_attr_def
  get_vertex_def list_index_def set_vattr_def set_eattr_def all_set_def attrs_of_def

lemma parse_rule_5: "parse_rule (Some ''5'') = Inr (PFloat (Fin 5))"
  by (simp add: parse_rule_def str_defs float_defs)

lemma parse_rule_10: "parse_rule (Some ''10'') = Inr (PFloat (Fin 10))"
  by (simp add: parse_rule_def str_defs float_defs)

lemma parse_rule_v1: "parse_rule (Some ''v 1'') = Inr (PTuple ''v'' 0)"
  by (simp add: parse_rule_def str_defs)

lemma parse_rule_v2: "parse_rule (Some ''v 2'') = Inr (PTuple ''v'' 1)"
  by (simp add: parse_rule_def str_defs)

lemma parse_rule_min: "parse_rule (Some ''min'') = Inr (PStr ''min'')"
  by (simp add: parse_rule_def str_defs)

text \<open>One vertex with the constant rule \<open>5\<close>, no edge.\<close>

definition single_constant :: graph where
  "single_constant =
     \<lparr>vertices = [\<lparr>v_id = 0, v_attr = None, v_rule = Some ''5'', in_edges = [], out_edges = []\<rparr>],
      edges = [], vertex_map = [0 \<mapsto> 0]\<rparr>"

definition single_constant_final :: graph where
  "single_constant_final =
     \<lparr>vertices = [\<lparr>v_id = 0, v_attr = Some (Fin 5), v_rule = Some ''5'', in_edges = [], out_edges = []\<rparr>],
      edges = [], vertex_map = [0 \<mapsto> 0]\<rparr>"

lemma single_constant_loaded:
  "read_input_file [''1 0'', '''', '''', ''5''] = Inr single_constant"
  by (simp add: load_defs str_defs single_constant_def)

lemma single_constant_round1:
  "execute_round single_constant = Inr (single_constant_final, True)"
  by (simp add: single_constant_def single_constant_final_def run_defs parse_rule_5)

lemma single_constant_round2:
  "execute_round single_constant_final = Inr (single_constant_final, False)"
  by (simp add: single_constant_final_def run_defs)

lemma single_constant_rounds:
  "execute_rounds single_constant = Inr (single_constant_final, 2)"
  by (simp add: execute_rounds.simps [of single_constant]
      execute_rounds.simps [of single_constant_final] single_constant_round1 single_constant_round2)

text \<open>Scenario D: two vertices whose rules \<open>v 2\<close> and \<open>v 1\<close> copy from each other.\<close>

definition scenario_D :: graph where
  "scenario_D =
     \<lparr>vertices = [\<lparr>v_id = 0, v_attr = None, v_rule = Some ''v 2'', in_edges = [], out_edges = []\<rparr>,
                  \<lparr>v_id = 1, v_attr = None, v_rule = Some ''v 1'', in_edges = [], out_edges = []\<rparr>],
      edges = [], vertex_map = [0 \<mapsto> 0, 1 \<mapsto> 1]\<rparr>"

lemma scenario_D_loaded:
  "read_input_file [''2 0'', '''', '''', ''v 2'', ''v 1''] = Inr scenario_D"
  by (simp add: load_defs str_defs scenario_D_def upt_rec)

lemma scenario_D_round: "execute_round scenario_D = Inr (scenario_D, False)"
  by (simp add: scenario_D_def run_defs parse_rule_v1 parse_rule_v2 upt_rec)

text \<open>Scenario A: two vertices with rules \<open>5\<close> and \<open>v 1\<close>, an edge from the first to
  the second with rule \<open>10\<close>.\<close>

definition scenario_A :: graph where
  "scenario_A =
     \<lparr>vertices = [\<lparr>v_id = 0, v_attr = None, v_rule = Some ''5'', in_edges = [], out_edges = [0]\<rparr>,
                  \<lparr>v_id = 1, v_attr = None, v_rule = Some ''v 1'', in_edges = [0], out_edges = []\<rparr>],
      edges = [\<lparr>e_id = 0, source = 0, target = 1, e_attr = None, e_rule = Some ''10''\<rparr>],
      vertex_map = [0 \<mapsto> 0, 1 \<mapsto> 1]\<rparr>"

definition scenario_A_final :: graph where
  "scenario_A_final =
     \<lparr>vertices = [\<lparr>v_id = 0, v_attr = Some (Fin 5), v_rule = Some ''5'', in_edges = [], out_edges = [0]\<rparr>,
                  \<lparr>v_id = 1, v_attr = Some (Fin 5), v_rule = Some ''v 1'', in_edges = [0], out_edges = []\<rparr>],
      edges = [\<lparr>e_id = 0, source = 0, target = 1, e_attr = Some (Fin 10), e_rule = Some ''10''\<rparr>],
      vertex_map = [0 \<mapsto> 0, 1 \<mapsto> 1]\<rparr>"

lemma scenario_A_loaded:
  "read_input_file [''2 1'', '''', ''1 2'', '''', ''5'', ''v 1'', ''10''] = Inr scenario_A"
  by (simp add: load_defs str_defs scenario_A_def upt_rec)

lemma scenario_A_round1: "execute_round scenario_A = Inr (scenario_A_final, True)"
  by (simp add: scenario_A_def scenario_A_final_def run_defs parse_rule_5 parse_rule_10
      parse_rule_v1 upt_rec)

lemma scenario_A_round2: "execute_round scenario_A_final = Inr (scenario_A_final, False)"
  by (simp add: scenario_A_final_def run_defs upt_rec)

lemma scenario_A_execute: "execute scenario_A = Inr scenario_A_final"
  by (simp add: execute.simps [of scenario_A] execute.simps [of scenario_A_final]
      scenario_A_round1 scenario_A_round2)

section \<open>Claims about the loop\<close>

text \<open>
  C9 (idempotence). When \<open>execute\<close> has returned, the graph it leaves is stable: a
  further round makes no assignment and leaves the graph as it is, so running
  \<open>execute\<close> again ends after a single round without writing any attribute.
\<close>

theorem execute_idempotent:
  assumes "execute g = Inr g'"
  shows "execute_round g' = Inr (g', False) \<and> execute_rounds g' = Inr (g', 1) \<and>
         execute g' = Inr g'"
  using execute_fixpoint [OF assms]
  by (simp add: execute_rounds_fixpoint execute_at_fixpoint)

theorem execute_idempotent_witness:
  "execute scenario_A = Inr scenario_A_final \<and>
   execute_round scenario_A_final = Inr (scenario_A_final, False) \<and>
   execute_rounds scenario_A_final = Inr (scenario_A_final, 1) \<and>
   execute scenario_A_final = Inr scenario_A_final"
  using execute_idempotent [OF scenario_A_execute] scenario_A_execute by simp

text \<open>
  C8 (bounded termination), as the code has it. \<open>execute\<close> is a total function. A round
  that reports a change leaves strictly fewer attributes unset, and no more than
  \<open>NV + NE\<close> are unset. So when no rule raises, at most \<open>NV + NE\<close> rounds make an
  assignment and the loop ends with the first round that makes none, after at most
  \<open>NV + NE + 1\<close> rounds in all; each round before the last has set at least one of the
  attributes that the final graph has set.
\<close>

theorem execute_rounds_bounded:
  "(execute_round g = Inr (g1, True) \<longrightarrow> unset_count g1 < unset_count g) \<and>
   unset_count g \<le> length (vertices g) + length (edges g) \<and>
   (execute_rounds g = Inr (g', n) \<longrightarrow>
      1 \<le> n \<and> n + unset_count g' \<le> unset_count g + 1 \<and>
      n \<le> length (vertices g) + length (edges g) + 1 \<and>
      execute_round g' = Inr (g', False))"
proof (intro conjI impI)
  assume "execute_round g = Inr (g1, True)"
  then show "unset_count g1 < unset_count g" by (rule execute_round_changed)
next
  show "unset_count g \<le> length (vertices g) + length (edges g)" by (rule unset_count_le)
next
  assume r: "execute_rounds g = Inr (g', n)"
  from execute_rounds_bound [OF r] show "1 \<le> n" by simp
  from execute_rounds_bound [OF r] show "n + unset_count g' \<le> unset_count g + 1" by simp
  from execute_rounds_bound [OF r] unset_count_le [of g]
  show "n \<le> length (vertices g) + length (edges g) + 1" by simp
  from execute_fixpoint [OF execute_rounds_result [OF r]]
  show "execute_round g' = Inr (g', False)" .
qed

theorem execute_rounds_bounded_witness:
  "execute_round single_constant = Inr (single_constant_final, True) \<and>
   unset_count single_constant_final < unset_count single_constant \<and>
   execute_rounds single_constant = Inr (single_constant_final, 2) \<and>
   (2::nat) \<le> length (vertices single_constant) + length (edges single_constant) + 1 \<and>
   execute_round single_constant_final = Inr (single_constant_final, False)"
  using execute_rounds_bounded [of single_constant single_constant_final single_constant_final 2]
    single_constant_round1 single_constant_rounds
  by simp

theorem converges_in_N_rounds_counterexample:
  "read_input_file [''1 0'', '''', '''', ''5''] = Inr single_constant \<and>
   length (vertices single_constant) + length (edges single_constant) = 1 \<and>
   execute_round single_constant = Inr (single_constant_final, True) \<and>
   execute_rounds single_constant = Inr (single_constant_final, 2)"
  by (simp add: single_constant_loaded single_constant_round1 single_constant_rounds)
     (simp add: single_constant_def)

section \<open>The minimum over no incoming edge\<close>

text \<open>One vertex with rule \<open>min\<close> and no incoming edge.\<close>

definition lonely_min :: graph where
  "lonely_min =
     \<lparr>vertices = [\<lparr>v_id = 0, v_attr = None, v_rule = Some ''min'', in_edges = [], out_edges = []\<rparr>],
      edges = [], vertex_map = [0 \<mapsto> 0]\<rparr>"

lemma lonely_min_loaded:
  "read_input_file [''1 0'', '''', '''', ''min''] = Inr lonely_min"
  by (simp add: load_defs str_defs lonely_min_def)

lemma lonely_min_round: "execute_round lonely_min = Inl (ValueError, lonely_min)"
  by (simp add: lonely_min_def run_defs parse_rule_min)

text \<open>
  C3 (minimum over no incoming edge). For a vertex with rule \<open>min\<close> and no incoming
  edge, \<open>all\<close> holds of the empty list and \<open>min\<close> is called on an empty sequence: the
  \<open>ValueError\<close> it raises ends \<open>execute\<close> in the first round, and no output is written.
\<close>

theorem min_without_incoming_raises:
  "read_input_file [''1 0'', '''', '''', ''min''] = Inr lonely_min \<and>
   in_edges (vertices lonely_min ! 0) = [] \<and>
   compute_vertex_attr lonely_min 0 = Inl ValueError \<and>
   execute lonely_min = Inl (ValueError, lonely_min) \<and>
   main [''1 0'', '''', '''', ''min''] = Inl ValueError"
proof -
  have c: "compute_vertex_attr lonely_min 0 = Inl ValueError"
    by (simp add: lonely_min_def run_defs parse_rule_min)
  have e: "execute lonely_min = Inl (ValueError, lonely_min)"
    by (simp add: execute.simps [of lonely_min] lonely_min_round)
  have "in_edges (vertices lonely_min ! 0) = []" by (simp add: lonely_min_def)
  with c e show ?thesis by (simp add: main_def lonely_min_loaded)
qed

section \<open>The loop has no round bound\<close>

lemma execute_round_raises: "execute_round g = Inl x \<Longrightarrow> execute g = Inl x"
  by (simp add: execute.simps [of g])

lemma execute_continues:
  "execute_round g = Inr (g1, True) \<Longrightarrow>
   execute g = execute g1 \<and>
   execute_rounds g = map_sum id (\<lambda>(h, n). (h, Suc n)) (execute_rounds g1)"
  by (simp add: execute.simps [of g] execute_rounds.simps [of g])

lemma parse_rule_v3: "parse_rule (Some ''v 3'') = Inr (PTuple ''v'' 2)"
  by (simp add: parse_rule_def str_defs)

text \<open>
  Three vertices and no edge: the first copies from the second, the second from the
  third, and the third is the constant 5. The graphs after each of the first three
  rounds follow.
\<close>

definition chain3 :: graph where
  "chain3 =
     \<lparr>vertices = [\<lparr>v_id = 0, v_attr = None, v_rule = Some ''v 2'', in_edges = [], out_edges = []\<rparr>,
                  \<lparr>v_id = 1, v_attr = None, v_rule = Some ''v 3'', in_edges = [], out_edges = []\<rparr>,
                  \<lparr>v_id = 2, v_attr = None, v_rule = Some ''5'', in_edges = [], out_edges = []\<rparr>],
      edges = [], vertex_map = [0 \<mapsto> 0, 1 \<mapsto> 1, 2 \<mapsto> 2]\<rparr>"

definition chain3_round1 :: graph where
  "chain3_round1 =
     \<lparr>vertices = [\<lparr>v_id = 0, v_attr = None, v_rule = Some ''v 2'', in_edges = [], out_edges = []\<rparr>,
                  \<lparr>v_id = 1, v_attr = None, v_rule = Some ''v 3'', in_edges = [], out_edges = []\<rparr>,
                  \<lparr>v_id = 2, v_attr = Some (Fin 5), v_rule = Some ''5'', in_edges = [], out_edges = []\<rparr>],
      edges = [], vertex_map = [0 \<mapsto> 0, 1 \<mapsto> 1, 2 \<mapsto> 2]\<rparr>"

definition chain3_round2 :: graph where
  "chain3_round2 =
     \<lparr>vertices = [\<lparr>v_id = 0, v_attr = None, v_rule = Some ''v 2'', in_edges = [], out_edges = []\<rparr>,
                  \<lparr>v_id = 1, v_attr = Some (Fin 5), v_rule = Some ''v 3'', in_edges = [], out_edges = []\<rparr>,
                  \<lparr>v_id = 2, v_attr = Some (Fin 5), v_rule = Some ''5'', in_edges = [], out_edges = []\<rparr>],
      edges = [], vertex_map = [0 \<mapsto> 0, 1 \<mapsto> 1, 2 \<mapsto> 2]\<rparr>"

definition chain3_final :: graph where
  "chain3_final =
     \<lparr>vertices = [\<lparr>v_id = 0, v_attr = Some (Fin 5), v_rule = Some ''v 2'', in_edges = [], out_edges = []\<rparr>,
                  \<lparr>v_id = 1, v_attr = Some (Fin 5), v_rule = Some ''v 3'', in_edges = [], out_edges = []\<rparr>,
                  \<lparr>v_id = 2, v_attr = Some (Fin 5), v_rule = Some ''5'', in_edges = [], out_edges = []\<rparr>],
      edges = [], vertex_map = [0 \<mapsto> 0, 1 \<mapsto> 1, 2 \<mapsto> 2]\<rparr>"

lemma chain3_loaded:
  "read_input_file [''3 0'', '''', '''', ''v 2'', ''v 3'', ''5''] = Inr chain3"
  by (simp add: load_defs str_defs chain3_def upt_rec numeral_2_eq_2)

lemma chain3_rounds:
  "execute_round chain3 = Inr (chain3_round1, True)"
  "execute_round chain3_round1 = Inr (chain3_round2, True)"
  "execute_round chain3_round2 = Inr (chain3_final, True)"
  "execute_round chain3_final = Inr (chain3_final, False)"
  by (simp_all add: chain3_def chain3_round1_def chain3_round2_def chain3_final_def run_defs
      parse_rule_5 parse_rule_v2 parse_rule_v3 upt_rec)

lemma chain3_execute_rounds: "execute_rounds chain3 = Inr (chain3_final, 4)"
  by (simp add: execute_rounds.simps [of chain3] execute_rounds.simps [of chain3_round1]
      execute_rounds.simps [of chain3_round2] execute_rounds.simps [of chain3_final]
      chain3_rounds)

text \<open>
  C2 (round bound and NonConvergence), as the code has it. The loop has no round bound
  and reports nothing. After a round that makes an assignment it goes on with the graph
  that round has left, however many rounds have gone before; a round that makes no new
  assignment changes nothing and ends the loop, and \<open>execute\<close> then returns the graph
  normally, with whatever is still unset; a round that raises ends the loop with its
  exception. So the graph that \<open>execute\<close> returns is one on which a further round
  makes no assignment. The loop never runs more than \<open>NV + NE + 1\<close> rounds all the
  same, and when it runs that many, nothing is left unset.
\<close>

theorem execute_stops_at_no_change:
  "(execute_round g = Inl x \<longrightarrow> execute g = Inl x) \<and>
   (execute_round g = Inr (g1, True) \<longrightarrow>
      execute g = execute g1 \<and>
      execute_rounds g = map_sum id (\<lambda>(h, n). (h, Suc n)) (execute_rounds g1)) \<and>
   (execute_round g = Inr (g1, False) \<longrightarrow>
      g1 = g \<and> execute_rounds g = Inr (g, 1) \<and> execute g = Inr g) \<and>
   (execute g = Inr g' \<longrightarrow> execute_round g' = Inr (g', False)) \<and>
   (execute_rounds g = Inr (g', n) \<longrightarrow>
      n \<le> length (vertices g) + length (edges g) + 1 \<and>
      (n = length (vertices g) + length (edges g) + 1 \<longrightarrow> unset_count g' = 0))"
proof (intro conjI impI)
  assume "execute_round g = Inl x"
  then show "execute g = Inl x" by (rule execute_round_raises)
next
  assume r: "execute_round g = Inr (g1, True)"
  from execute_continues [OF r]
  show "execute g = execute g1"
    "execute_rounds g = map_sum id (\<lambda>(h, n). (h, Suc n)) (execute_rounds g1)"
    by simp_all
next
  assume r: "execute_round g = Inr (g1, False)"
  then show e: "g1 = g" by (rule execute_round_unchanged)
  from r e show "execute_rounds g = Inr (g, 1)" "execute g = Inr g"
    by (simp_all add: execute_rounds_fixpoint execute_at_fixpoint)
next
  assume "execute g = Inr g'"
  then show "execute_round g' = Inr (g', False)" by (rule execute_fixpoint)
next
  assume r: "execute_rounds g = Inr (g', n)"
  from execute_rounds_bound [OF r] unset_count_le [of g]
  show "n \<le> length (vertices g) + length (edges g) + 1" by simp
  assume "n = length (vertices g) + length (edges g) + 1"
  with execute_rounds_bound [OF r] unset_count_le [of g]
  show "unset_count g' = 0" by simp
qed

theorem execute_stops_at_no_change_witness:
  "execute_round lonely_min = Inl (ValueError, lonely_min) \<and>
   execute lonely_min = Inl (ValueError, lonely_min) \<and>
   execute_round chain3 = Inr (chain3_round1, True) \<and>
   execute chain3 = execute chain3_round1 \<and>
   execute_rounds chain3 = Inr (chain3_final, 4) \<and>
   execute chain3 = Inr chain3_final \<and>
   execute_round chain3_final = Inr (chain3_final, False) \<and>
   (4::nat) = length (vertices chain3) + length (edges chain3) + 1 \<and>
   unset_count chain3_final = 0 \<and>
   execute_round scenario_D = Inr (scenario_D, False) \<and>
   execute_rounds scenario_D = Inr (scenario_D, 1) \<and>
   execute scenario_D = Inr scenario_D \<and>
   unset_count scenario_D = 2"
proof -
  have n: "(4::nat) = length (vertices chain3) + length (edges chain3) + 1"
    by (simp add: chain3_def)
  have u: "unset_count scenario_D = 2"
    by (simp add: unset_count_def scenario_D_def)
  have x: "execute chain3 = Inr chain3_final"
    using execute_rounds_result [OF chain3_execute_rounds] .
  from execute_stops_at_no_change
    [of lonely_min "(ValueError, lonely_min)" lonely_min lonely_min 1] lonely_min_round
  have a: "execute lonely_min = Inl (ValueError, lonely_min)" by simp
  from execute_stops_at_no_change
    [of chain3 "(ValueError, chain3)" chain3_round1 chain3_final 4]
    chain3_rounds(1) chain3_execute_rounds x n
  have b: "execute chain3 = execute chain3_round1 \<and>
           execute_round chain3_final = Inr (chain3_final, False) \<and>
           unset_count chain3_final = 0"
    by simp
  from execute_stops_at_no_change
    [of scenario_D "(ValueError, scenario_D)" scenario_D scenario_D 1] scenario_D_round
  have d: "execute_rounds scenario_D = Inr (scenario_D, 1) \<and> execute scenario_D = Inr scenario_D"
    by simp
  from a b d n u x lonely_min_round chain3_rounds(1) chain3_execute_rounds scenario_D_round
  show ?thesis by simp
qed

theorem nonconvergence_counterexample:
  "read_input_file [''2 0'', '''', '''', ''v 2'', ''v 1''] = Inr scenario_D \<and>
   execute_rounds scenario_D = Inr (scenario_D, 1) \<and>
   execute scenario_D = Inr scenario_D \<and>
   main [''2 0'', '''', '''', ''v 2'', ''v 1''] = Inr [None, None]"
proof -
  have e: "execute scenario_D = Inr scenario_D"
    by (simp add: execute_at_fixpoint scenario_D_round)
  have "write_output_file scenario_D = [None, None]"
    by (simp add: write_output_file_def scenario_D_def)
  with e show ?thesis
    by (simp add: main_def scenario_D_loaded execute_rounds_fixpoint scenario_D_round)
qed

section \<open>What evaluation keeps\<close>

text \<open>
  \<open>vertex_kept v v'\<close>: \<open>v'\<close> is \<open>v\<close> but for its attribute, and an attribute that
  was set in \<open>v\<close> has the same value in \<open>v'\<close>. Likewise for edges, and for graphs
  position by position.
\<close>

definition vertex_kept :: "vertex \<Rightarrow> vertex \<Rightarrow> bool" where
  "vertex_kept v v' = (v' = v\<lparr>v_attr := v_attr v'\<rparr> \<and> (v_attr v \<noteq> None \<longrightarrow> v_attr v' = v_attr v))"

definition edge_kept :: "edge \<Rightarrow> edge \<Rightarrow> bool" where
  "edge_kept e e' = (e' = e\<lparr>e_attr := e_attr e'\<rparr> \<and> (e_attr e \<noteq> None \<longrightarrow> e_attr e' = e_attr e))"

definition attrs_kept :: "graph \<Rightarrow> graph \<Rightarrow> bool" where
  "attrs_kept g g' =
     (vertex_map g' = vertex_map g \<and>
      list_all2 vertex_kept (vertices g) (vertices g') \<and>
      list_all2 edge_kept (edges g) (edges g'))"

text \<open>The graph that a pass, a round or the whole loop leaves behind, also when it raises.\<close>

definition state_after :: "error \<times> graph + graph \<times> bool \<Rightarrow> graph" where
  "state_after r = (case r of Inl (e, h) \<Rightarrow> h | Inr (h, c) \<Rightarrow> h)"

definition final_graph :: "error \<times> graph + graph \<Rightarrow> graph" where
  "final_graph r = (case r of Inl (e, h) \<Rightarrow> h | Inr h \<Rightarrow> h)"

lemma vertex_kept_refl: "vertex_kept v v"
  by (simp add: vertex_kept_def)

lemma edge_kept_refl: "edge_kept e e"
  by (simp add: edge_kept_def)

lemma vertex_kept_trans: "vertex_kept a b \<Longrightarrow> vertex_kept b c \<Longrightarrow> vertex_kept a c"
  unfolding vertex_kept_def
  by (cases a; cases b; cases c) auto

lemma edge_kept_trans: "edge_kept a b \<Longrightarrow> edge_kept b c \<Longrightarrow> edge_kept a c"
  unfolding edge_kept_def
  by (cases a; cases b; cases c) auto

lemma attrs_kept_refl: "attrs_kept g g"
  by (simp add: attrs_kept_def list_all2_refl vertex_kept_refl edge_kept_refl)

lemma attrs_kept_trans: "attrs_kept a b \<Longrightarrow> attrs_kept b c \<Longrightarrow> attrs_kept a c"
  unfolding attrs_kept_def
  by (auto elim: list_all2_trans [rotated] intro: vertex_kept_trans edge_kept_trans)

lemma attrs_kept_set_vattr:
  assumes "i < length (vertices g) \<longrightarrow> v_attr (vertices g ! i) = None"
  shows "attrs_kept g (set_vattr g i x)"
proof -
  have "vertex_kept (vertices g ! k) ((vertices g)[i := (vertices g ! i)\<lparr>v_attr := Some x\<rparr>] ! k)"
    if "k < length (vertices g)" for k
    using that assms by (cases "k = i") (simp_all add: vertex_kept_def)
  then show ?thesis
    by (simp add: attrs_kept_def set_vattr_def list_all2_conv_all_nth edge_kept_refl)
qed

lemma attrs_kept_set_eattr:
  assumes "j < length (edges g) \<longrightarrow> e_attr (edges g ! j) = None"
  shows "attrs_kept g (set_eattr g j x)"
proof -
  have "edge_kept (edges g ! k) ((edges g)[j := (edges g ! j)\<lparr>e_attr := Some x\<rparr>] ! k)"
    if "k < length (edges g)" for k
    using that assms by (cases "k = j") (simp_all add: edge_kept_def)
  then show ?thesis
    by (simp add: attrs_kept_def set_eattr_def list_all2_conv_all_nth vertex_kept_refl)
qed

lemma compute_vertex_attr_kept:
  assumes "compute_vertex_attr g i = Inr g'" and "v_attr (vertices g ! i) = None"
  shows "attrs_kept g g'"
  using compute_vertex_attr_cases [OF assms(1)] assms(2)
  by (auto simp: attrs_kept_refl attrs_kept_set_vattr)

lemma compute_edge_attr_kept:
  assumes "compute_edge_attr g j = Inr g'" and "e_attr (edges g ! j) = None"
  shows "attrs_kept g g'"
  using compute_edge_attr_cases [OF assms(1)] assms(2)
  by (auto simp: attrs_kept_refl attrs_kept_set_eattr)

lemma vertices_pass_kept: "attrs_kept g (state_after (vertices_pass is g c))"
proof (induction "is" arbitrary: g c)
  case Nil
  show ?case by (simp add: state_after_def attrs_kept_refl)
next
  case (Cons i rest)
  show ?case
  proof (cases "v_attr (vertices g ! i) = None")
    case False
    then have "vertices_pass (i # rest) g c = vertices_pass rest g c" by auto
    with Cons.IH [of g c] show ?thesis by simp
  next
    case True
    show ?thesis
    proof (cases "compute_vertex_attr g i")
      case (Inl e)
      with True show ?thesis by (simp add: state_after_def attrs_kept_refl)
    next
      case (Inr g1)
      from compute_vertex_attr_kept [OF Inr True]
        Cons.IH [of g1 "if v_attr (vertices g1 ! i) \<noteq> None then True else c"]
      have "attrs_kept g (state_after (vertices_pass rest g1
              (if v_attr (vertices g1 ! i) \<noteq> None then True else c)))"
        by (rule attrs_kept_trans)
      with True Inr show ?thesis by simp
    qed
  qed
qed

lemma edges_pass_kept: "attrs_kept g (state_after (edges_pass js g c))"
proof (induction js arbitrary: g c)
  case Nil
  show ?case by (simp add: state_after_def attrs_kept_refl)
next
  case (Cons j rest)
  show ?case
  proof (cases "e_attr (edges g ! j) = None")
    case False
    then have "edges_pass (j # rest) g c = edges_pass rest g c" by auto
    with Cons.IH [of g c] show ?thesis by simp
  next
    case True
    show ?thesis
    proof (cases "compute_edge_attr g j")
      case (Inl e)
      with True show ?thesis by (simp add: state_after_def attrs_kept_refl)
    next
      case (Inr g1)
      from compute_edge_attr_kept [OF Inr True]
        Cons.IH [of g1 "if e_attr (edges g1 ! j) \<noteq> None then True else c"]
      have "attrs_kept g (state_after (edges_pass rest g1
              (if e_attr (edges g1 ! j) \<noteq> None then True else c)))"
        by (rule attrs_kept_trans)
      with True Inr show ?thesis by simp
    qed
  qed
qed

lemma execute_round_kept: "attrs_kept g (state_after (execute_round g))"
proof (cases "vertices_pass [0..<length (vertices g)] g False")
  case (Inl x)
  with vertices_pass_kept [of g "[0..<length (vertices g)]" False]
  show ?thesis by (simp add: execute_round_def)
next
  case (Inr p)
  obtain g1 c1 where p: "p = (g1, c1)" by (cases p)
  from vertices_pass_kept [of g "[0..<length (vertices g)]" False] Inr p
  have "attrs_kept g g1" by (simp add: state_after_def)
  from this edges_pass_kept [of g1 "[0..<length (edges g1)]" c1]
  have "attrs_kept g (state_after (edges_pass [0..<length (edges g1)] g1 c1))"
    by (rule attrs_kept_trans)
  with Inr p show ?thesis by (simp add: execute_round_def)
qed

lemma execute_kept: "attrs_kept g (final_graph (execute g))"
proof (induction g rule: execute.induct)
  case (1 g)
  show ?case
  proof (cases "execute_round g")
    case (Inl x)
    with execute_round_kept [of g] show ?thesis
      by (cases x) (simp add: execute.simps [of g] state_after_def final_graph_def)
  next
    case (Inr p)
    obtain h c where p: "p = (h, c)" by (cases p)
    from execute_round_kept [of g] Inr p have k: "attrs_kept g h"
      by (simp add: state_after_def)
    show ?thesis
    proof (cases c)
      case True
      from k "1.IH" [OF Inr p [symmetric] True]
      have "attrs_kept g (final_graph (execute h))" by (rule attrs_kept_trans)
      with Inr p True show ?thesis by (simp add: execute.simps [of g])
    next
      case False
      with Inr p k show ?thesis by (simp add: execute.simps [of g] final_graph_def)
    qed
  qed
qed

lemma attrs_kept_vertex:
  assumes "attrs_kept g h" and "k < length (vertices g)"
  shows "vertices h ! k = (vertices g ! k)\<lparr>v_attr := v_attr (vertices h ! k)\<rparr>"
    and "v_attr (vertices g ! k) = Some x \<Longrightarrow> v_attr (vertices h ! k) = Some x"
  using assms by (auto simp: attrs_kept_def list_all2_conv_all_nth vertex_kept_def)

lemma attrs_kept_edge:
  assumes "attrs_kept g h" and "k < length (edges g)"
  shows "edges h ! k = (edges g ! k)\<lparr>e_attr := e_attr (edges h ! k)\<rparr>"
    and "e_attr (edges g ! k) = Some x \<Longrightarrow> e_attr (edges h ! k) = Some x"
  using assms by (auto simp: attrs_kept_def list_all2_conv_all_nth edge_kept_def)

lemma attrs_kept_length:
  assumes "attrs_kept g h"
  shows "length (vertices h) = length (vertices g)" and "length (edges h) = length (edges g)"
    and "vertex_map h = vertex_map g"
  using assms by (auto simp: attrs_kept_def dest: list_all2_lengthD)

text \<open>
  A graph in which the first vertex already has the attribute 7 while its rule is the
  constant 5, and the second vertex copies from the first.
\<close>

definition preset_vertex :: graph where
  "preset_vertex =
     \<lparr>vertices = [\<lparr>v_id = 0, v_attr = Some (Fin 7), v_rule = Some ''5'', in_edges = [], out_edges = []\<rparr>,
                  \<lparr>v_id = 1, v_attr = None, v_rule = Some ''v 1'', in_edges = [], out_edges = []\<rparr>],
      edges = [], vertex_map = [0 \<mapsto> 0, 1 \<mapsto> 1]\<rparr>"

definition preset_vertex_final :: graph where
  "preset_vertex_final =
     \<lparr>vertices = [\<lparr>v_id = 0, v_attr = Some (Fin 7), v_rule = Some ''5'', in_edges = [], out_edges = []\<rparr>,
                  \<lparr>v_id = 1, v_attr = Some (Fin 7), v_rule = Some ''v 1'', in_edges = [], out_edges = []\<rparr>],
      edges = [], vertex_map = [0 \<mapsto> 0, 1 \<mapsto> 1]\<rparr>"

lemma preset_vertex_round1: "execute_round preset_vertex = Inr (preset_vertex_final, True)"
  by (simp add: preset_vertex_def preset_vertex_final_def run_defs parse_rule_v1 upt_rec)

lemma preset_vertex_round2:
  "execute_round preset_vertex_final = Inr (preset_vertex_final, False)"
  by (simp add: preset_vertex_final_def run_defs upt_rec)

lemma preset_vertex_execute: "execute preset_vertex = Inr preset_vertex_final"
  by (simp add: execute.simps [of preset_vertex] execute.simps [of preset_vertex_final]
      preset_vertex_round1 preset_vertex_round2)

text \<open>
  C5 (write-once). Let \<open>h\<close> be the graph left by any part of the evaluation of \<open>g\<close>: a
  pass over any vertices or edges, a round, or the whole loop, whether it returns or
  raises. Then \<open>h\<close> is \<open>g\<close> but for attributes, and every attribute that is set in
  \<open>g\<close> has the same value in \<open>h\<close>.
\<close>

theorem attr_write_once:
  assumes "h = state_after (vertices_pass is g c) \<or> h = state_after (edges_pass js g c) \<or>
           h = state_after (execute_round g) \<or> h = final_graph (execute g)"
  shows "attrs_kept g h \<and>
         (\<forall>k x. k < length (vertices g) \<and> v_attr (vertices g ! k) = Some x
                \<longrightarrow> v_attr (vertices h ! k) = Some x) \<and>
         (\<forall>k x. k < length (edges g) \<and> e_attr (edges g ! k) = Some x
                \<longrightarrow> e_attr (edges h ! k) = Some x)"
proof -
  from assms have k: "attrs_kept g h"
    using vertices_pass_kept [of g "is" c] edges_pass_kept [of g js c]
      execute_round_kept [of g] execute_kept [of g]
    by auto
  from attrs_kept_vertex(2) [OF k] attrs_kept_edge(2) [OF k] k show ?thesis by blast
qed

theorem attr_write_once_witness:
  "v_attr (vertices preset_vertex ! 0) = Some (Fin 7) \<and>
   parse_rule (v_rule (vertices preset_vertex ! 0)) = Inr (PFloat (Fin 5)) \<and>
   execute preset_vertex = Inr preset_vertex_final \<and>
   attrs_kept preset_vertex preset_vertex_final \<and>
   v_attr (vertices preset_vertex_final ! 0) = Some (Fin 7)"
proof -
  have a: "v_attr (vertices preset_vertex ! 0) = Some (Fin 7)"
    and r: "parse_rule (v_rule (vertices preset_vertex ! 0)) = Inr (PFloat (Fin 5))"
    and n: "0 < length (vertices preset_vertex)"
    by (simp_all add: preset_vertex_def parse_rule_5)
  have "preset_vertex_final = final_graph (execute preset_vertex)"
    by (simp add: preset_vertex_execute final_graph_def)
  from attr_write_once [of preset_vertex_final "[]" preset_vertex False "[]"] this
  have "attrs_kept preset_vertex preset_vertex_final \<and>
        (\<forall>k x. k < length (vertices preset_vertex) \<and>
               v_attr (vertices preset_vertex ! k) = Some x
               \<longrightarrow> v_attr (vertices preset_vertex_final ! k) = Some x)"
    by blast
  with a n r preset_vertex_execute show ?thesis by blast
qed

section \<open>The order within a round\<close>

lemma vertices_pass_append:
  "vertices_pass (xs @ ys) g c =
     (case vertices_pass xs g c of Inl x \<Rightarrow> Inl x | Inr (g1, c1) \<Rightarrow> vertices_pass ys g1 c1)"
  by (induction xs arbitrary: g c) (auto split: sum.splits)

lemma edges_pass_append:
  "edges_pass (xs @ ys) g c =
     (case edges_pass xs g c of Inl x \<Rightarrow> Inl x | Inr (g1, c1) \<Rightarrow> edges_pass ys g1 c1)"
  by (induction xs arbitrary: g c) (auto split: sum.splits)

lemma upt_split: "j < n \<Longrightarrow> [0..<n] = [0..<j] @ j # [Suc j..<n]"
  using upt_add_eq_append [of 0 j "n - j"] by (simp add: upt_conv_Cons)

lemma compute_vertex_attr_frame:
  assumes "compute_vertex_attr g i = Inr g'"
  shows "edges g' = edges g" and "vertex_map g' = vertex_map g"
    and "length (vertices g') = length (vertices g)"
    and "k \<noteq> i \<Longrightarrow> vertices g' ! k = vertices g ! k"
  using compute_vertex_attr_cases [OF assms] by (auto simp: set_vattr_def)

lemma compute_edge_attr_frame:
  assumes "compute_edge_attr g j = Inr g'"
  shows "vertices g' = vertices g" and "vertex_map g' = vertex_map g"
    and "length (edges g') = length (edges g)"
    and "k \<noteq> j \<Longrightarrow> edges g' ! k = edges g ! k"
  using compute_edge_attr_cases [OF assms] by (auto simp: set_eattr_def)

lemma vertices_pass_frame:
  "vertices_pass is g c = Inr (g', c') \<Longrightarrow>
   edges g' = edges g \<and> vertex_map g' = vertex_map g \<and>
   length (vertices g') = length (vertices g) \<and>
   (\<forall>k. k \<notin> set is \<longrightarrow> vertices g' ! k = vertices g ! k)"
proof (induction "is" arbitrary: g c)
  case Nil
  then show ?case by simp
next
  case (Cons i rest)
  show ?case
  proof (cases "v_attr (vertices g ! i) = None")
    case False
    with Cons.prems have "vertices_pass rest g c = Inr (g', c')" by auto
    from Cons.IH [OF this] show ?thesis by simp
  next
    case True
    with Cons.prems obtain g1 where
      c1: "compute_vertex_attr g i = Inr g1" and
      r: "vertices_pass rest g1 (if v_attr (vertices g1 ! i) \<noteq> None then True else c) = Inr (g', c')"
      by (auto split: sum.splits)
    from Cons.IH [OF r] compute_vertex_attr_frame [OF c1] show ?thesis by simp
  qed
qed

lemma edges_pass_frame:
  "edges_pass js g c = Inr (g', c') \<Longrightarrow>
   vertices g' = vertices g \<and> vertex_map g' = vertex_map g \<and>
   length (edges g') = length (edges g) \<and>
   (\<forall>k. k \<notin> set js \<longrightarrow> edges g' ! k = edges g ! k)"
proof (induction js arbitrary: g c)
  case Nil
  then show ?case by simp
next
  case (Cons j rest)
  show ?case
  proof (cases "e_attr (edges g ! j) = None")
    case False
    with Cons.prems have "edges_pass rest g c = Inr (g', c')" by auto
    from Cons.IH [OF this] show ?thesis by simp
  next
    case True
    with Cons.prems obtain g1 where
      c1: "compute_edge_attr g j = Inr g1" and
      r: "edges_pass rest g1 (if e_attr (edges g1 ! j) \<noteq> None then True else c) = Inr (g', c')"
      by (auto split: sum.splits)
    from Cons.IH [OF r] compute_edge_attr_frame [OF c1] show ?thesis by simp
  qed
qed

lemma vertices_pass_keeps_set:
  assumes "vertices_pass is g c = Inr (g', c')" and "k < length (vertices g)"
    and "v_attr (vertices g ! k) = Some x"
  shows "v_attr (vertices g' ! k) = Some x"
proof -
  from vertices_pass_kept [of g "is" c] assms(1) have "attrs_kept g g'"
    by (simp add: state_after_def)
  from attrs_kept_vertex(2) [OF this assms(2,3)] show ?thesis .
qed

lemma edges_pass_keeps_set:
  assumes "edges_pass js g c = Inr (g', c')" and "k < length (edges g)"
    and "e_attr (edges g ! k) = Some x"
  shows "e_attr (edges g' ! k) = Some x"
proof -
  from edges_pass_kept [of g js c] assms(1) have "attrs_kept g g'"
    by (simp add: state_after_def)
  from attrs_kept_edge(2) [OF this assms(2,3)] show ?thesis .
qed

lemma compute_vertex_attr_constant:
  "parse_rule (v_rule (vertices g ! i)) = Inr (PFloat x) \<Longrightarrow>
   compute_vertex_attr g i = Inr (set_vattr g i x)"
  by (simp add: compute_vertex_attr_def)

lemma compute_edge_attr_constant:
  "parse_rule (e_rule (edges g ! j)) = Inr (PFloat x) \<Longrightarrow>
   compute_edge_attr g j = Inr (set_eattr g j x)"
  by (simp add: compute_edge_attr_def)

lemma compute_vertex_attr_copy_vertex:
  "parse_rule (v_rule (vertices g ! j)) = Inr (PTuple ''v'' k) \<Longrightarrow> vertex_map g k = Some p \<Longrightarrow>
   compute_vertex_attr g j =
     Inr (case v_attr (vertices g ! p) of None \<Rightarrow> g | Some x \<Rightarrow> set_vattr g j x)"
  by (simp add: compute_vertex_attr_def get_vertex_def split: option.splits)

lemma compute_vertex_attr_copy_edge:
  "parse_rule (v_rule (vertices g ! j)) = Inr (PTuple ''e'' k) \<Longrightarrow>
   list_index (length (edges g)) k = Inr q \<Longrightarrow>
   compute_vertex_attr g j =
     Inr (case e_attr (edges g ! q) of None \<Rightarrow> g | Some x \<Rightarrow> set_vattr g j x)"
  by (simp add: compute_vertex_attr_def split: option.splits)

text \<open>A vertex with a constant rule is set by the pass that visits it.\<close>

lemma vertices_pass_constant:
  "vertices_pass is g c = Inr (g', c') \<Longrightarrow> i \<in> set is \<Longrightarrow> i < length (vertices g) \<Longrightarrow>
   v_attr (vertices g ! i) = None \<Longrightarrow>
   parse_rule (v_rule (vertices g ! i)) = Inr (PFloat x) \<Longrightarrow>
   v_attr (vertices g' ! i) = Some x"
proof (induction "is" arbitrary: g c)
  case Nil
  then show ?case by simp
next
  case (Cons h rest)
  show ?case
  proof (cases "h = i")
    case True
    with Cons.prems compute_vertex_attr_constant [of g i x]
    have r: "vertices_pass rest (set_vattr g i x)
               (if v_attr (vertices (set_vattr g i x) ! i) \<noteq> None then True else c) = Inr (g', c')"
      by simp
    from Cons.prems have "v_attr (vertices (set_vattr g i x) ! i) = Some x"
      by (simp add: set_vattr_read)
    moreover from Cons.prems have "i < length (vertices (set_vattr g i x))"
      by (simp add: set_vattr_def)
    ultimately show ?thesis using vertices_pass_keeps_set [OF r] by simp
  next
    case False
    with Cons.prems have i: "i \<in> set rest" by simp
    show ?thesis
    proof (cases "v_attr (vertices g ! h) = None")
      case False
      with Cons.prems have "vertices_pass rest g c = Inr (g', c')" by auto
      from Cons.IH [OF this i Cons.prems(3,4,5)] show ?thesis .
    next
      case True
      with Cons.prems obtain g1 where
        c1: "compute_vertex_attr g h = Inr g1" and
        r: "vertices_pass rest g1 (if v_attr (vertices g1 ! h) \<noteq> None then True else c) = Inr (g', c')"
        by (auto split: sum.splits)
      from compute_vertex_attr_frame [OF c1] \<open>h \<noteq> i\<close>
      have "vertices g1 ! i = vertices g ! i" "length (vertices g1) = length (vertices g)"
        by simp_all
      with Cons.IH [OF r i] Cons.prems(3,4,5) show ?thesis by simp
    qed
  qed
qed

lemma edges_pass_constant:
  "edges_pass js g c = Inr (g', c') \<Longrightarrow> j \<in> set js \<Longrightarrow> j < length (edges g) \<Longrightarrow>
   e_attr (edges g ! j) = None \<Longrightarrow>
   parse_rule (e_rule (edges g ! j)) = Inr (PFloat x) \<Longrightarrow>
   e_attr (edges g' ! j) = Some x"
proof (induction js arbitrary: g c)
  case Nil
  then show ?case by simp
next
  case (Cons h rest)
  show ?case
  proof (cases "h = j")
    case True
    with Cons.prems compute_edge_attr_constant [of g j x]
    have r: "edges_pass rest (set_eattr g j x)
               (if e_attr (edges (set_eattr g j x) ! j) \<noteq> None then True else c) = Inr (g', c')"
      by simp
    from Cons.prems have "e_attr (edges (set_eattr g j x) ! j) = Some x"
      by (simp add: set_eattr_read)
    moreover from Cons.prems have "j < length (edges (set_eattr g j x))"
      by (simp add: set_eattr_def)
    ultimately show ?thesis using edges_pass_keeps_set [OF r] by simp
  next
    case False
    with Cons.prems have j: "j \<in> set rest" by simp
    show ?thesis
    proof (cases "e_attr (edges g ! h) = None")
      case False
      with Cons.prems have "edges_pass rest g c = Inr (g', c')" by auto
      from Cons.IH [OF this j Cons.prems(3,4,5)] show ?thesis .
    next
      case True
      with Cons.prems obtain g1 where
        c1: "compute_edge_attr g h = Inr g1" and
        r: "edges_pass rest g1 (if e_attr (edges g1 ! h) \<noteq> None then True else c) = Inr (g', c')"
        by (auto split: sum.splits)
      from compute_edge_attr_frame [OF c1] \<open>h \<noteq> j\<close>
      have "edges g1 ! j = edges g ! j" "length (edges g1) = length (edges g)"
        by simp_all
      with Cons.IH [OF r j] Cons.prems(3,4,5) show ?thesis by simp
    qed
  qed
qed

text \<open>The step of the vertex pass at a vertex that copies from a vertex.\<close>

lemma vertices_pass_copy_set:
  assumes "vertices_pass (j # rest) g c = Inr (g', c')" and "j < length (vertices g)"
    and "v_attr (vertices g ! j) = None"
    and "parse_rule (v_rule (vertices g ! j)) = Inr (PTuple ''v'' k)"
    and "vertex_map g k = Some p" and "v_attr (vertices g ! p) = Some x"
  shows "v_attr (vertices g' ! j) = Some x"
proof -
  from compute_vertex_attr_copy_vertex [OF assms(4,5)] assms(6)
  have "compute_vertex_attr g j = Inr (set_vattr g j x)" by simp
  with assms(1,3)
  have r: "vertices_pass rest (set_vattr g j x)
             (if v_attr (vertices (set_vattr g j x) ! j) \<noteq> None then True else c) = Inr (g', c')"
    by simp
  from assms(2) have "v_attr (vertices (set_vattr g j x) ! j) = Some x"
    "j < length (vertices (set_vattr g j x))"
    by (simp_all add: set_vattr_read) (simp add: set_vattr_def)
  with vertices_pass_keeps_set [OF r] show ?thesis by simp
qed

lemma vertices_pass_copy_unset:
  assumes "vertices_pass (j # rest) g c = Inr (g', c')" and "j \<notin> set rest"
    and "v_attr (vertices g ! j) = None"
    and "parse_rule (v_rule (vertices g ! j)) = Inr (PTuple ''v'' k)"
    and "vertex_map g k = Some p" and "v_attr (vertices g ! p) = None"
  shows "v_attr (vertices g' ! j) = None"
proof -
  from compute_vertex_attr_copy_vertex [OF assms(4,5)] assms(6)
  have "compute_vertex_attr g j = Inr g" by simp
  with assms(1,3) have "vertices_pass rest g c = Inr (g', c')" by simp
  from vertices_pass_frame [OF this] assms(2,3) show ?thesis by simp
qed

lemma vertices_pass_copy_edge_unset:
  assumes "vertices_pass (m # rest) g c = Inr (g', c')" and "m \<notin> set rest"
    and "v_attr (vertices g ! m) = None"
    and "parse_rule (v_rule (vertices g ! m)) = Inr (PTuple ''e'' k)"
    and "list_index (length (edges g)) k = Inr q" and "e_attr (edges g ! q) = None"
  shows "v_attr (vertices g' ! m) = None"
proof -
  from compute_vertex_attr_copy_edge [OF assms(4,5)] assms(6)
  have "compute_vertex_attr g m = Inr g" by simp
  with assms(1,3) have "vertices_pass rest g c = Inr (g', c')" by simp
  from vertices_pass_frame [OF this] assms(2,3) show ?thesis by simp
qed

lemma vertices_pass_split:
  assumes "vertices_pass [0..<n] g c = Inr (g1, c1)" and "j < n"
  obtains ga ca where "vertices_pass [0..<j] g c = Inr (ga, ca)"
    and "vertices_pass (j # [Suc j..<n]) ga ca = Inr (g1, c1)"
proof -
  from assms(1) upt_split [OF assms(2)]
  have "vertices_pass ([0..<j] @ j # [Suc j..<n]) g c = Inr (g1, c1)" by simp
  then show ?thesis
    by (auto simp: vertices_pass_append split: sum.splits intro: that)
qed

lemma execute_round_parts:
  assumes "execute_round g = Inr (g', c)"
  obtains g1 c1 where "vertices_pass [0..<length (vertices g)] g False = Inr (g1, c1)"
    and "edges_pass [0..<length (edges g)] g1 c1 = Inr (g', c)"
    and "edges g1 = edges g" and "vertex_map g1 = vertex_map g"
    and "vertices g' = vertices g1"
proof -
  from assms obtain g1 c1 where
    v: "vertices_pass [0..<length (vertices g)] g False = Inr (g1, c1)" and
    e: "edges_pass [0..<length (edges g1)] g1 c1 = Inr (g', c)"
    by (auto simp: execute_round_def split: sum.splits)
  from vertices_pass_frame [OF v] edges_pass_frame [OF e] v e show ?thesis
    by (auto intro: that)
qed

text \<open>A vertex with a constant rule is set in the round that finds it unset.\<close>

lemma round_sets_constant_vertex:
  assumes "execute_round g = Inr (g', c)" and "i < length (vertices g)"
    and "v_attr (vertices g ! i) = None"
    and "parse_rule (v_rule (vertices g ! i)) = Inr (PFloat x)"
  shows "v_attr (vertices g' ! i) = Some x"
proof -
  from assms(1) obtain g1 c1 where
    v: "vertices_pass [0..<length (vertices g)] g False = Inr (g1, c1)" and
    s: "vertices g' = vertices g1"
    by (rule execute_round_parts)
  from vertices_pass_constant [OF v _ assms(2,3,4)] assms(2) s show ?thesis by simp
qed

lemma round_sets_constant_edge:
  assumes "execute_round g = Inr (g', c)" and "q < length (edges g)"
    and "e_attr (edges g ! q) = None"
    and "parse_rule (e_rule (edges g ! q)) = Inr (PFloat y)"
  shows "e_attr (edges g' ! q) = Some y"
proof -
  from assms(1) obtain g1 c1 where
    e: "edges_pass [0..<length (edges g)] g1 c1 = Inr (g', c)" and
    s: "edges g1 = edges g"
    by (rule execute_round_parts)
  from edges_pass_constant [OF e, of q y] assms(2,3,4) s show ?thesis by simp
qed

text \<open>
  A vertex that copies from a vertex with a constant rule, both unset: it receives the
  value in the same round when it comes after that vertex, and stays unset in this round
  when it comes before.
\<close>

lemma round_copy_vertex:
  assumes "execute_round g = Inr (g', c)"
    and "i < length (vertices g)" and "j < length (vertices g)"
    and "v_attr (vertices g ! i) = None"
    and "parse_rule (v_rule (vertices g ! i)) = Inr (PFloat x)"
    and "v_attr (vertices g ! j) = None"
    and "parse_rule (v_rule (vertices g ! j)) = Inr (PTuple ''v'' k)"
    and "vertex_map g k = Some i"
  shows "v_attr (vertices g' ! j) = (if i < j then Some x else None)"
proof -
  from assms(5,7) have ne: "i \<noteq> j" by auto
  from assms(1) obtain g1 c1 where
    v: "vertices_pass [0..<length (vertices g)] g False = Inr (g1, c1)" and
    s: "vertices g' = vertices g1"
    by (rule execute_round_parts)
  from v assms(3) obtain ga ca where
    pa: "vertices_pass [0..<j] g False = Inr (ga, ca)" and
    pb: "vertices_pass (j # [Suc j..<length (vertices g)]) ga ca = Inr (g1, c1)"
    by (rule vertices_pass_split)
  from vertices_pass_frame [OF pa]
  have fr: "vertex_map ga = vertex_map g" "length (vertices ga) = length (vertices g)"
    "vertices ga ! j = vertices g ! j"
    by simp_all
  show ?thesis
  proof (cases "i < j")
    case True
    with vertices_pass_constant [OF pa _ assms(2,4,5)]
    have "v_attr (vertices ga ! i) = Some x" by simp
    with vertices_pass_copy_set [OF pb, of k i x] fr assms(3,6,7,8) True s
    show ?thesis by simp
  next
    case False
    with ne have "i \<notin> set [0..<j]" by simp
    with vertices_pass_frame [OF pa] assms(4)
    have "v_attr (vertices ga ! i) = None" by simp
    with vertices_pass_copy_unset [OF pb, of k i] fr assms(6,7,8) False s
    show ?thesis by simp
  qed
qed

text \<open>
  A vertex that copies from an edge that is unset when the round begins stays unset in
  this round, whatever the edge pass does: the vertices come first.
\<close>

lemma round_copy_edge_late:
  assumes "execute_round g = Inr (g', c)" and "m < length (vertices g)"
    and "v_attr (vertices g ! m) = None"
    and "parse_rule (v_rule (vertices g ! m)) = Inr (PTuple ''e'' k)"
    and "list_index (length (edges g)) k = Inr q"
    and "e_attr (edges g ! q) = None"
  shows "v_attr (vertices g' ! m) = None"
proof -
  from assms(1) obtain g1 c1 where
    v: "vertices_pass [0..<length (vertices g)] g False = Inr (g1, c1)" and
    s: "vertices g' = vertices g1"
    by (rule execute_round_parts)
  from v assms(2) obtain ga ca where
    pa: "vertices_pass [0..<m] g False = Inr (ga, ca)" and
    pb: "vertices_pass (m # [Suc m..<length (vertices g)]) ga ca = Inr (g1, c1)"
    by (rule vertices_pass_split)
  from vertices_pass_frame [OF pa]
  have "edges ga = edges g" "vertices ga ! m = vertices g ! m" by simp_all
  with vertices_pass_copy_edge_unset [OF pb, of k q] assms(3,4,5,6) s
  show ?thesis by simp
qed

lemma compute_edge_attr_copy_vertex:
  "parse_rule (e_rule (edges g ! j)) = Inr (PTuple ''v'' k) \<Longrightarrow> vertex_map g k = Some p \<Longrightarrow>
   compute_edge_attr g j =
     Inr (case v_attr (vertices g ! p) of None \<Rightarrow> g | Some x \<Rightarrow> set_eattr g j x)"
  by (simp add: compute_edge_attr_def get_vertex_def split: option.splits)

lemma compute_edge_attr_copy_edge:
  "parse_rule (e_rule (edges g ! j)) = Inr (PTuple ''e'' k) \<Longrightarrow>
   list_index (length (edges g)) k = Inr q \<Longrightarrow>
   compute_edge_attr g j =
     Inr (case e_attr (edges g ! q) of None \<Rightarrow> g | Some x \<Rightarrow> set_eattr g j x)"
  by (simp add: compute_edge_attr_def split: option.splits)

lemma edges_pass_split:
  assumes "edges_pass [0..<n] g c = Inr (g1, c1)" and "j < n"
  obtains ga ca where "edges_pass [0..<j] g c = Inr (ga, ca)"
    and "edges_pass (j # [Suc j..<n]) ga ca = Inr (g1, c1)"
proof -
  from assms(1) upt_split [OF assms(2)]
  have "edges_pass ([0..<j] @ j # [Suc j..<n]) g c = Inr (g1, c1)" by simp
  then show ?thesis
    by (auto simp: edges_pass_append split: sum.splits intro: that)
qed

text \<open>The step of the edge pass at an edge that copies from an edge or from a vertex.\<close>

lemma edges_pass_copy_set:
  assumes "edges_pass (j # rest) g c = Inr (g', c')" and "j < length (edges g)"
    and "e_attr (edges g ! j) = None"
    and "parse_rule (e_rule (edges g ! j)) = Inr (PTuple ''e'' k)"
    and "list_index (length (edges g)) k = Inr q" and "e_attr (edges g ! q) = Some y"
  shows "e_attr (edges g' ! j) = Some y"
proof -
  from compute_edge_attr_copy_edge [OF assms(4,5)] assms(6)
  have "compute_edge_attr g j = Inr (set_eattr g j y)" by simp
  with assms(1,3)
  have r: "edges_pass rest (set_eattr g j y)
             (if e_attr (edges (set_eattr g j y) ! j) \<noteq> None then True else c) = Inr (g', c')"
    by simp
  from assms(2) have "e_attr (edges (set_eattr g j y) ! j) = Some y"
    "j < length (edges (set_eattr g j y))"
    by (simp_all add: set_eattr_read) (simp add: set_eattr_def)
  with edges_pass_keeps_set [OF r] show ?thesis by simp
qed

lemma edges_pass_copy_unset:
  assumes "edges_pass (j # rest) g c = Inr (g', c')" and "j \<notin> set rest"
    and "e_attr (edges g ! j) = None"
    and "parse_rule (e_rule (edges g ! j)) = Inr (PTuple ''e'' k)"
    and "list_index (length (edges g)) k = Inr q" and "e_attr (edges g ! q) = None"
  shows "e_attr (edges g' ! j) = None"
proof -
  from compute_edge_attr_copy_edge [OF assms(4,5)] assms(6)
  have "compute_edge_attr g j = Inr g" by simp
  with assms(1,3) have "edges_pass rest g c = Inr (g', c')" by simp
  from edges_pass_frame [OF this] assms(2,3) show ?thesis by simp
qed

lemma edges_pass_copy_vertex_set:
  assumes "edges_pass (j # rest) g c = Inr (g', c')" and "j < length (edges g)"
    and "e_attr (edges g ! j) = None"
    and "parse_rule (e_rule (edges g ! j)) = Inr (PTuple ''v'' k)"
    and "vertex_map g k = Some p" and "v_attr (vertices g ! p) = Some x"
  shows "e_attr (edges g' ! j) = Some x"
proof -
  from compute_edge_attr_copy_vertex [OF assms(4,5)] assms(6)
  have "compute_edge_attr g j = Inr (set_eattr g j x)" by simp
  with assms(1,3)
  have r: "edges_pass rest (set_eattr g j x)
             (if e_attr (edges (set_eattr g j x) ! j) \<noteq> None then True else c) = Inr (g', c')"
    by simp
  from assms(2) have "e_attr (edges (set_eattr g j x) ! j) = Some x"
    "j < length (edges (set_eattr g j x))"
    by (simp_all add: set_eattr_read) (simp add: set_eattr_def)
  with edges_pass_keeps_set [OF r] show ?thesis by simp
qed

text \<open>
  An edge that copies from an edge with a constant rule, both unset: it receives the
  value in the same round when it comes after that edge, and stays unset in this round
  when it comes before.
\<close>

lemma round_copy_edge:
  assumes "execute_round g = Inr (g', c)"
    and "q < length (edges g)" and "r < length (edges g)"
    and "e_attr (edges g ! q) = None"
    and "parse_rule (e_rule (edges g ! q)) = Inr (PFloat y)"
    and "e_attr (edges g ! r) = None"
    and "parse_rule (e_rule (edges g ! r)) = Inr (PTuple ''e'' n)"
    and "list_index (length (edges g)) n = Inr q"
  shows "e_attr (edges g' ! r) = (if q < r then Some y else None)"
proof -
  from assms(5,7) have ne: "q \<noteq> r" by auto
  from assms(1) obtain g1 c1 where
    e: "edges_pass [0..<length (edges g)] g1 c1 = Inr (g', c)" and
    s: "edges g1 = edges g"
    by (rule execute_round_parts)
  from e assms(3) obtain ga ca where
    pa: "edges_pass [0..<r] g1 c1 = Inr (ga, ca)" and
    pb: "edges_pass (r # [Suc r..<length (edges g)]) ga ca = Inr (g', c)"
    by (rule edges_pass_split)
  from edges_pass_frame [OF pa] s
  have fr: "length (edges ga) = length (edges g)" "edges ga ! r = edges g ! r"
    by simp_all
  show ?thesis
  proof (cases "q < r")
    case True
    with edges_pass_constant [OF pa, of q y] assms(2,4,5) s
    have "e_attr (edges ga ! q) = Some y" by simp
    with edges_pass_copy_set [OF pb, of n q y] fr assms(3,6,7,8) True
    show ?thesis by simp
  next
    case False
    with ne have "q \<notin> set [0..<r]" by simp
    with edges_pass_frame [OF pa] assms(4) s
    have "e_attr (edges ga ! q) = None" by simp
    with edges_pass_copy_unset [OF pb, of n q] fr assms(6,7,8) False
    show ?thesis by simp
  qed
qed

text \<open>
  An edge that copies from a vertex with a constant rule, both unset, receives the value
  in the same round: the vertices come first.
\<close>

lemma round_edge_copies_vertex:
  assumes "execute_round g = Inr (g', c)"
    and "i < length (vertices g)" and "s < length (edges g)"
    and "v_attr (vertices g ! i) = None"
    and "parse_rule (v_rule (vertices g ! i)) = Inr (PFloat x)"
    and "e_attr (edges g ! s) = None"
    and "parse_rule (e_rule (edges g ! s)) = Inr (PTuple ''v'' k)"
    and "vertex_map g k = Some i"
  shows "e_attr (edges g' ! s) = Some x"
proof -
  from assms(1) obtain g1 c1 where
    v: "vertices_pass [0..<length (vertices g)] g False = Inr (g1, c1)" and
    e: "edges_pass [0..<length (edges g)] g1 c1 = Inr (g', c)" and
    fr1: "edges g1 = edges g" "vertex_map g1 = vertex_map g"
    by (rule execute_round_parts)
  from vertices_pass_constant [OF v _ assms(2,4,5)] assms(2)
  have x: "v_attr (vertices g1 ! i) = Some x" by simp
  from e assms(3) obtain ga ca where
    pa: "edges_pass [0..<s] g1 c1 = Inr (ga, ca)" and
    pb: "edges_pass (s # [Suc s..<length (edges g)]) ga ca = Inr (g', c)"
    by (rule edges_pass_split)
  from edges_pass_frame [OF pa] fr1 x
  have "length (edges ga) = length (edges g)" "edges ga ! s = edges g ! s"
    "vertex_map ga = vertex_map g" "v_attr (vertices ga ! i) = Some x"
    by simp_all
  with edges_pass_copy_vertex_set [OF pb, of k i x] assms(3,6,7,8)
  show ?thesis by simp
qed

lemma parse_rule_e2: "parse_rule (Some ''e 2'') = Inr (PTuple ''e'' 1)"
  by (simp add: parse_rule_def str_defs)

text \<open>
  Four vertices and four edges from the first vertex to the second. The first and the
  third vertex copy from the second, which is the constant 5; the fourth copies from the
  second edge, which is the constant 10. The first and the third edge copy from the
  second edge, the fourth edge copies from the second vertex.
\<close>

definition order_example :: graph where
  "order_example =
     \<lparr>vertices = [\<lparr>v_id = 0, v_attr = None, v_rule = Some ''v 2'',
                   in_edges = [], out_edges = [0, 1, 2, 3]\<rparr>,
                  \<lparr>v_id = 1, v_attr = None, v_rule = Some ''5'',
                   in_edges = [0, 1, 2, 3], out_edges = []\<rparr>,
                  \<lparr>v_id = 2, v_attr = None, v_rule = Some ''v 2'', in_edges = [], out_edges = []\<rparr>,
                  \<lparr>v_id = 3, v_attr = None, v_rule = Some ''e 2'', in_edges = [], out_edges = []\<rparr>],
      edges = [\<lparr>e_id = 0, source = 0, target = 1, e_attr = None, e_rule = Some ''e 2''\<rparr>,
               \<lparr>e_id = 1, source = 0, target = 1, e_attr = None, e_rule = Some ''10''\<rparr>,
               \<lparr>e_id = 2, source = 0, target = 1, e_attr = None, e_rule = Some ''e 2''\<rparr>,
               \<lparr>e_id = 3, source = 0, target = 1, e_attr = None, e_rule = Some ''v 2''\<rparr>],
      vertex_map = [0 \<mapsto> 0, 1 \<mapsto> 1, 2 \<mapsto> 2, 3 \<mapsto> 3]\<rparr>"

definition order_example_round1 :: graph where
  "order_example_round1 =
     \<lparr>vertices = [\<lparr>v_id = 0, v_attr = None, v_rule = Some ''v 2'',
                   in_edges = [], out_edges = [0, 1, 2, 3]\<rparr>,
                  \<lparr>v_id = 1, v_attr = Some (Fin 5), v_rule = Some ''5'',
                   in_edges = [0, 1, 2, 3], out_edges = []\<rparr>,
                  \<lparr>v_id = 2, v_attr = Some (Fin 5), v_rule = Some ''v 2'', in_edges = [], out_edges = []\<rparr>,
                  \<lparr>v_id = 3, v_attr = None, v_rule = Some ''e 2'', in_edges = [], out_edges = []\<rparr>],
      edges = [\<lparr>e_id = 0, source = 0, target = 1, e_attr = None, e_rule = Some ''e 2''\<rparr>,
               \<lparr>e_id = 1, source = 0, target = 1, e_attr = Some (Fin 10), e_rule = Some ''10''\<rparr>,
               \<lparr>e_id = 2, source = 0, target = 1, e_attr = Some (Fin 10), e_rule = Some ''e 2''\<rparr>,
               \<lparr>e_id = 3, source = 0, target = 1, e_attr = Some (Fin 5), e_rule = Some ''v 2''\<rparr>],
      vertex_map = [0 \<mapsto> 0, 1 \<mapsto> 1, 2 \<mapsto> 2, 3 \<mapsto> 3]\<rparr>"

lemma order_example_loaded:
  "read_input_file [''4 4'', '''', ''1 2'', ''1 2'', ''1 2'', ''1 2'', '''',
                    ''v 2'', ''5'', ''v 2'', ''e 2'', ''e 2'', ''10'', ''e 2'', ''v 2'']
     = Inr order_example"
  by (simp add: load_defs str_defs order_example_def upt_rec numeral_2_eq_2 numeral_3_eq_3)

lemma order_example_round:
  "execute_round order_example = Inr (order_example_round1, True)"
  by (simp add: order_example_def order_example_round1_def run_defs parse_rule_5 parse_rule_10
      parse_rule_v2 parse_rule_e2 upt_rec)

lemma scenario_A_main:
  "main [''2 1'', '''', ''1 2'', '''', ''5'', ''v 1'', ''10'']
     = Inr [Some (Fin 5), Some (Fin 5), Some (Fin 10)]"
  by (simp add: main_def scenario_A_loaded scenario_A_execute write_output_file_def
      scenario_A_final_def)

text \<open>
  C7 (evaluation order and same-pass visibility). In a round that returns: an unset
  vertex \<open>i\<close> with a constant rule is set; an unset vertex \<open>j\<close> that copies from
  vertex \<open>i\<close> receives that value in the same round when \<open>i < j\<close> and is still unset
  after the round when \<open>j < i\<close>; an unset edge that copies from vertex \<open>i\<close> receives
  the value in the same round. An unset edge \<open>q\<close> with a constant rule is set; an unset
  edge \<open>r\<close> that copies from edge \<open>q\<close> receives that value in the same round when
  \<open>q < r\<close> and is still unset after the round when \<open>r < q\<close>; an unset vertex that
  copies from an edge \<open>q\<close> that is unset when the round begins is still unset after
  the round. So the vertices come before the edges, each group is visited in ascending
  order, and every rule reads the state that the entities before it have left. On
  scenario A the program writes 5.0, 5.0 and 10.0.
\<close>

theorem evaluation_order:
  "(execute_round g = Inr (g', c) \<and> i < length (vertices g) \<and>
    v_attr (vertices g ! i) = None \<and> parse_rule (v_rule (vertices g ! i)) = Inr (PFloat x)
    \<longrightarrow> v_attr (vertices g' ! i) = Some x \<and>
        (j < length (vertices g) \<and> v_attr (vertices g ! j) = None \<and>
         parse_rule (v_rule (vertices g ! j)) = Inr (PTuple ''v'' k) \<and> vertex_map g k = Some i
         \<longrightarrow> v_attr (vertices g' ! j) = (if i < j then Some x else None)) \<and>
        (s < length (edges g) \<and> e_attr (edges g ! s) = None \<and>
         parse_rule (e_rule (edges g ! s)) = Inr (PTuple ''v'' k') \<and> vertex_map g k' = Some i
         \<longrightarrow> e_attr (edges g' ! s) = Some x)) \<and>
   (execute_round g = Inr (g', c) \<and> q < length (edges g) \<and> e_attr (edges g ! q) = None
    \<longrightarrow> (parse_rule (e_rule (edges g ! q)) = Inr (PFloat y) \<longrightarrow> e_attr (edges g' ! q) = Some y) \<and>
        (m < length (vertices g) \<and> v_attr (vertices g ! m) = None \<and>
         parse_rule (v_rule (vertices g ! m)) = Inr (PTuple ''e'' n) \<and>
         list_index (length (edges g)) n = Inr q
         \<longrightarrow> v_attr (vertices g' ! m) = None) \<and>
        (parse_rule (e_rule (edges g ! q)) = Inr (PFloat y) \<and>
         r < length (edges g) \<and> e_attr (edges g ! r) = None \<and>
         parse_rule (e_rule (edges g ! r)) = Inr (PTuple ''e'' n') \<and>
         list_index (length (edges g)) n' = Inr q
         \<longrightarrow> e_attr (edges g' ! r) = (if q < r then Some y else None))) \<and>
   main [''2 1'', '''', ''1 2'', '''', ''5'', ''v 1'', ''10'']
     = Inr [Some (Fin 5), Some (Fin 5), Some (Fin 10)]"
proof -
  have a: "execute_round g = Inr (g', c) \<and> i < length (vertices g) \<and>
    v_attr (vertices g ! i) = None \<and> parse_rule (v_rule (vertices g ! i)) = Inr (PFloat x)
    \<longrightarrow> v_attr (vertices g' ! i) = Some x \<and>
        (j < length (vertices g) \<and> v_attr (vertices g ! j) = None \<and>
         parse_rule (v_rule (vertices g ! j)) = Inr (PTuple ''v'' k) \<and> vertex_map g k = Some i
         \<longrightarrow> v_attr (vertices g' ! j) = (if i < j then Some x else None)) \<and>
        (s < length (edges g) \<and> e_attr (edges g ! s) = None \<and>
         parse_rule (e_rule (edges g ! s)) = Inr (PTuple ''v'' k') \<and> vertex_map g k' = Some i
         \<longrightarrow> e_attr (edges g' ! s) = Some x)"
    using round_sets_constant_vertex [of g g' c i x] round_copy_vertex [of g g' c i j x k]
      round_edge_copies_vertex [of g g' c i s x k']
    by blast
  have b: "execute_round g = Inr (g', c) \<and> q < length (edges g) \<and> e_attr (edges g ! q) = None
    \<longrightarrow> (parse_rule (e_rule (edges g ! q)) = Inr (PFloat y) \<longrightarrow> e_attr (edges g' ! q) = Some y) \<and>
        (m < length (vertices g) \<and> v_attr (vertices g ! m) = None \<and>
         parse_rule (v_rule (vertices g ! m)) = Inr (PTuple ''e'' n) \<and>
         list_index (length (edges g)) n = Inr q
         \<longrightarrow> v_attr (vertices g' ! m) = None) \<and>
        (parse_rule (e_rule (edges g ! q)) = Inr (PFloat y) \<and>
         r < length (edges g) \<and> e_attr (edges g ! r) = None \<and>
         parse_rule (e_rule (edges g ! r)) = Inr (PTuple ''e'' n') \<and>
         list_index (length (edges g)) n' = Inr q
         \<longrightarrow> e_attr (edges g' ! r) = (if q < r then Some y else None))"
    using round_sets_constant_edge [of g g' c q y] round_copy_edge_late [of g g' c m n q]
      round_copy_edge [of g g' c q r y n']
    by blast
  show ?thesis by (intro conjI a b scenario_A_main)
qed

theorem evaluation_order_witness:
  "read_input_file [''4 4'', '''', ''1 2'', ''1 2'', ''1 2'', ''1 2'', '''',
                    ''v 2'', ''5'', ''v 2'', ''e 2'', ''e 2'', ''10'', ''e 2'', ''v 2'']
     = Inr order_example \<and>
   execute_round order_example = Inr (order_example_round1, True) \<and>
   map v_attr (vertices order_example) = [None, None, None, None] \<and>
   map e_attr (edges order_example) = [None, None, None, None] \<and>
   v_attr (vertices order_example_round1 ! 1) = Some (Fin 5) \<and>
   v_attr (vertices order_example_round1 ! 2) = Some (Fin 5) \<and>
   v_attr (vertices order_example_round1 ! 0) = None \<and>
   e_attr (edges order_example_round1 ! 3) = Some (Fin 5) \<and>
   e_attr (edges order_example_round1 ! 1) = Some (Fin 10) \<and>
   e_attr (edges order_example_round1 ! 2) = Some (Fin 10) \<and>
   e_attr (edges order_example_round1 ! 0) = None \<and>
   v_attr (vertices order_example_round1 ! 3) = None"
proof -
  have g: "map v_attr (vertices order_example) = [None, None, None, None]"
    "map e_attr (edges order_example) = [None, None, None, None]"
    by (simp_all add: order_example_def)
  have h: "length (vertices order_example) = 4" "length (edges order_example) = 4"
    "v_attr (vertices order_example ! 0) = None" "v_attr (vertices order_example ! 1) = None"
    "v_attr (vertices order_example ! 2) = None" "v_attr (vertices order_example ! 3) = None"
    "e_attr (edges order_example ! 0) = None" "e_attr (edges order_example ! 1) = None"
    "e_attr (edges order_example ! 2) = None" "e_attr (edges order_example ! 3) = None"
    "parse_rule (v_rule (vertices order_example ! 0)) = Inr (PTuple ''v'' 1)"
    "parse_rule (v_rule (vertices order_example ! 1)) = Inr (PFloat (Fin 5))"
    "parse_rule (v_rule (vertices order_example ! 2)) = Inr (PTuple ''v'' 1)"
    "parse_rule (v_rule (vertices order_example ! 3)) = Inr (PTuple ''e'' 1)"
    "parse_rule (e_rule (edges order_example ! 0)) = Inr (PTuple ''e'' 1)"
    "parse_rule (e_rule (edges order_example ! 1)) = Inr (PFloat (Fin 10))"
    "parse_rule (e_rule (edges order_example ! 2)) = Inr (PTuple ''e'' 1)"
    "parse_rule (e_rule (edges order_example ! 3)) = Inr (PTuple ''v'' 1)"
    "vertex_map order_example 1 = Some 1"
    "list_index (length (edges order_example)) 1 = Inr 1"
    by (simp_all add: order_example_def parse_rule_5 parse_rule_10 parse_rule_v2 parse_rule_e2
        list_index_def)
  note t = evaluation_order [where g = order_example and g' = order_example_round1
      and c = True and i = 1 and x = "Fin 5" and k = 1 and s = 3 and k' = 1
      and q = 1 and y = "Fin 10" and m = 3 and n = 1 and n' = 1]
  from t [where j = 2 and r = 2] order_example_round h
  have later: "v_attr (vertices order_example_round1 ! 1) = Some (Fin 5) \<and>
    v_attr (vertices order_example_round1 ! 2) = Some (Fin 5) \<and>
    e_attr (edges order_example_round1 ! 3) = Some (Fin 5) \<and>
    e_attr (edges order_example_round1 ! 1) = Some (Fin 10) \<and>
    e_attr (edges order_example_round1 ! 2) = Some (Fin 10) \<and>
    v_attr (vertices order_example_round1 ! 3) = None"
    by simp
  from t [where j = 0 and r = 0] order_example_round h
  have earlier: "v_attr (vertices order_example_round1 ! 0) = None \<and>
    e_attr (edges order_example_round1 ! 0) = None"
    by simp
  from later earlier g order_example_round order_example_loaded show ?thesis by simp
qed

section \<open>What the reader builds\<close>

text \<open>Line \<open>k\<close> of the file, counted from 0; beyond the end it is the empty string.\<close>

definition line_at :: "string list \<Rightarrow> nat \<Rightarrow> string" where
  "line_at ls k = (if k < length ls then ls ! k else [])"

text \<open>The dictionary that maps each of the ids \<open>0 .. n-1\<close> to the position of the same number.\<close>

definition id_map :: "nat \<Rightarrow> int \<rightharpoonup> nat" where
  "id_map n k = (if 0 \<le> k \<and> k < int n then Some (nat k) else None)"

lemma fst_readline: "fst (readline ls) = line_at ls 0"
  by (cases ls) (simp_all add: readline_def line_at_def)

lemma snd_readline: "snd (readline ls) = drop 1 ls"
  by (cases ls) (simp_all add: readline_def)

lemma line_at_drop: "line_at (drop n ls) k = line_at ls (n + k)"
  by (auto simp: line_at_def)

lemma add_vertices_snoc:
  "add_vertices g (ks @ [k]) = add_vertex (add_vertices g ks) (Vertex (int k))"
  by (simp add: add_vertices_def)

lemma add_vertices_shape:
  "vertex_map (add_vertices AnnotatedGraph [0..<n]) = id_map n \<and>
   length (vertices (add_vertices AnnotatedGraph [0..<n])) = n \<and>
   edges (add_vertices AnnotatedGraph [0..<n]) = []"
proof (induction n)
  case 0
  show ?case by (auto simp: add_vertices_def AnnotatedGraph_def id_map_def fun_eq_iff)
next
  case (Suc n)
  then show ?case
    by (auto simp: add_vertices_snoc add_vertex_def Vertex_def id_map_def fun_eq_iff)
qed

lemma add_edge_shape:
  "vertex_map (add_edge g e) = vertex_map g \<and>
   length (vertices (add_edge g e)) = length (vertices g) \<and>
   edges (add_edge g e) = edges g @ [e]"
  by (simp add: add_edge_def add_out_edge_def add_in_edge_def Let_def split: option.splits)

lemma read_edges_shape:
  "read_edges is g ls = Inr (g', r) \<Longrightarrow>
   vertex_map g' = vertex_map g \<and> length (vertices g') = length (vertices g) \<and>
   length (edges g') = length (edges g) + length is \<and> r = drop (length is) ls"
proof (induction "is" arbitrary: g ls)
  case Nil
  then show ?case by simp
next
  case (Cons i rest)
  from Cons.prems obtain src tgt where
    r: "read_edges rest (add_edge g (Edge (int i) (src - 1) (tgt - 1))) (drop 1 ls) = Inr (g', r)"
    by (auto simp: snd_readline split: sum.splits)
  from Cons.IH [OF r] show ?case by (simp add: add_edge_shape)
qed

lemma set_vrule_shape:
  "vertex_map (set_vrule g i s) = vertex_map g \<and> edges (set_vrule g i s) = edges g \<and>
   length (vertices (set_vrule g i s)) = length (vertices g) \<and>
   (k \<noteq> i \<longrightarrow> vertices (set_vrule g i s) ! k = vertices g ! k) \<and>
   (i < length (vertices g) \<longrightarrow> v_rule (vertices (set_vrule g i s) ! i) = Some s)"
  by (simp add: set_vrule_def)

lemma set_erule_shape:
  "vertex_map (set_erule g j s) = vertex_map g \<and> vertices (set_erule g j s) = vertices g \<and>
   length (edges (set_erule g j s)) = length (edges g) \<and>
   (k \<noteq> j \<longrightarrow> edges (set_erule g j s) ! k = edges g ! k) \<and>
   (j < length (edges g) \<longrightarrow> e_rule (edges (set_erule g j s) ! j) = Some s)"
  by (simp add: set_erule_def)

lemma read_vertex_rules_shape:
  "read_vertex_rules is g ls = (g', r) \<Longrightarrow>
   vertex_map g' = vertex_map g \<and> edges g' = edges g \<and>
   length (vertices g') = length (vertices g) \<and> r = drop (length is) ls \<and>
   (\<forall>k. k \<notin> set is \<longrightarrow> vertices g' ! k = vertices g ! k)"
proof (induction "is" arbitrary: g ls)
  case Nil
  then show ?case by simp
next
  case (Cons i rest)
  from Cons.prems
  have "read_vertex_rules rest (set_vrule g i (strip (line_at ls 0))) (drop 1 ls) = (g', r)"
    by (simp add: fst_readline snd_readline)
  from Cons.IH [OF this] show ?case by (simp add: set_vrule_shape)
qed

lemma read_edge_rules_shape:
  "read_edge_rules js g ls = (g', r) \<Longrightarrow>
   vertex_map g' = vertex_map g \<and> vertices g' = vertices g \<and>
   length (edges g') = length (edges g) \<and> r = drop (length js) ls \<and>
   (\<forall>k. k \<notin> set js \<longrightarrow> edges g' ! k = edges g ! k)"
proof (induction js arbitrary: g ls)
  case Nil
  then show ?case by simp
next
  case (Cons j rest)
  from Cons.prems
  have "read_edge_rules rest (set_erule g j (strip (line_at ls 0))) (drop 1 ls) = (g', r)"
    by (simp add: fst_readline snd_readline)
  from Cons.IH [OF this] show ?case by (simp add: set_erule_shape)
qed

text \<open>Each rule is stored as the stripped text of its line.\<close>

lemma read_vertex_rules_rule:
  "read_vertex_rules is g ls = (g', r) \<Longrightarrow> distinct is \<Longrightarrow> p < length is \<Longrightarrow>
   is ! p < length (vertices g) \<Longrightarrow>
   v_rule (vertices g' ! (is ! p)) = Some (strip (line_at ls p))"
proof (induction "is" arbitrary: g ls p)
  case Nil
  then show ?case by simp
next
  case (Cons i rest)
  from Cons.prems(1)
  have r: "read_vertex_rules rest (set_vrule g i (strip (line_at ls 0))) (drop 1 ls) = (g', r)"
    by (simp add: fst_readline snd_readline)
  show ?case
  proof (cases p)
    case 0
    from Cons.prems(2) have "i \<notin> set rest" by simp
    with read_vertex_rules_shape [OF r]
    have "vertices g' ! i = vertices (set_vrule g i (strip (line_at ls 0))) ! i" by simp
    with 0 Cons.prems(4) show ?thesis by (simp add: set_vrule_shape)
  next
    case (Suc p')
    with Cons.prems have "distinct rest" "p' < length rest"
      "rest ! p' < length (vertices (set_vrule g i (strip (line_at ls 0))))"
      by (simp_all add: set_vrule_shape)
    from Cons.IH [OF r this] Suc show ?thesis by (simp add: line_at_drop)
  qed
qed

lemma read_edge_rules_rule:
  "read_edge_rules js g ls = (g', r) \<Longrightarrow> distinct js \<Longrightarrow> p < length js \<Longrightarrow>
   js ! p < length (edges g) \<Longrightarrow>
   e_rule (edges g' ! (js ! p)) = Some (strip (line_at ls p))"
proof (induction js arbitrary: g ls p)
  case Nil
  then show ?case by simp
next
  case (Cons j rest)
  from Cons.prems(1)
  have r: "read_edge_rules rest (set_erule g j (strip (line_at ls 0))) (drop 1 ls) = (g', r)"
    by (simp add: fst_readline snd_readline)
  show ?case
  proof (cases p)
    case 0
    from Cons.prems(2) have "j \<notin> set rest" by simp
    with read_edge_rules_shape [OF r]
    have "edges g' ! j = edges (set_erule g j (strip (line_at ls 0))) ! j" by simp
    with 0 Cons.prems(4) show ?thesis by (simp add: set_erule_shape)
  next
    case (Suc p')
    with Cons.prems have "distinct rest" "p' < length rest"
      "rest ! p' < length (edges (set_erule g j (strip (line_at ls 0))))"
      by (simp_all add: set_erule_shape)
    from Cons.IH [OF r this] Suc show ?thesis by (simp add: line_at_drop)
  qed
qed

text \<open>The graph that \<open>read_input_file\<close> returns.\<close>

lemma read_input_file_shape:
  assumes "read_input_file ls = Inr g"
  shows "vertex_map g = id_map (length (vertices g))"
    and "i < length (vertices g) \<Longrightarrow>
         v_rule (vertices g ! i) = Some (strip (line_at ls (3 + length (edges g) + i)))"
    and "j < length (edges g) \<Longrightarrow>
         e_rule (edges g ! j)
           = Some (strip (line_at ls (3 + length (edges g) + length (vertices g) + j)))"
proof -
  from assms obtain nv ne where h: "read_int_pair (fst (readline ls)) = Inr (nv, ne)"
    by (auto simp: read_input_file_def split: sum.splits)
  define g1 where "g1 = add_vertices AnnotatedGraph [0..<nat nv]"
  define r1 where "r1 = snd (readline (snd (readline ls)))"
  have r1: "r1 = drop 2 ls"
    by (simp add: r1_def snd_readline numeral_2_eq_2)
  from assms h obtain g2 r2 where
    e: "read_edges [0..<nat ne] g1 r1 = Inr (g2, r2)"
    by (auto simp: read_input_file_def g1_def r1_def split: sum.splits)
  obtain g3 r4 where v: "read_vertex_rules [0..<nat nv] g2 (snd (readline r2)) = (g3, r4)"
    by (cases "read_vertex_rules [0..<nat nv] g2 (snd (readline r2))")
  obtain g4 r5 where w: "read_edge_rules [0..<nat ne] g3 r4 = (g4, r5)"
    by (cases "read_edge_rules [0..<nat ne] g3 r4")
  from assms h e v w have g: "g = g4"
    by (simp add: read_input_file_def g1_def [symmetric] r1_def [symmetric])
  from add_vertices_shape [of "nat nv"]
  have s1: "vertex_map g1 = id_map (nat nv)" "length (vertices g1) = nat nv" "edges g1 = []"
    by (simp_all add: g1_def)
  from read_edges_shape [OF e] s1
  have s2: "vertex_map g2 = id_map (nat nv)" "length (vertices g2) = nat nv"
    "length (edges g2) = nat ne" "r2 = drop (nat ne) r1"
    by simp_all
  from read_vertex_rules_shape [OF v] s2
  have s3: "vertex_map g3 = id_map (nat nv)" "length (vertices g3) = nat nv"
    "length (edges g3) = nat ne" "r4 = drop (nat nv) (snd (readline r2))"
    by simp_all
  from read_edge_rules_shape [OF w] s3
  have s4: "vertex_map g4 = id_map (nat nv)" "vertices g4 = vertices g3"
    "length (edges g4) = nat ne"
    by simp_all
  have l2: "line_at (snd (readline r2)) k = line_at ls (3 + nat ne + k)" for k
  proof -
    have "line_at (snd (readline r2)) k = line_at ls (2 + (nat ne + (1 + k)))"
      by (simp only: snd_readline s2 r1 line_at_drop)
    also have "2 + (nat ne + (1 + k)) = 3 + nat ne + k" by simp
    finally show ?thesis .
  qed
  have l4: "line_at r4 k = line_at ls (3 + nat ne + nat nv + k)" for k
  proof -
    have "line_at r4 k = line_at (snd (readline r2)) (nat nv + k)"
      by (simp only: s3 line_at_drop)
    also have "\<dots> = line_at ls (3 + nat ne + (nat nv + k))" by (rule l2)
    also have "3 + nat ne + (nat nv + k) = 3 + nat ne + nat nv + k" by simp
    finally show ?thesis .
  qed
  from s4 s3 g show "vertex_map g = id_map (length (vertices g))" by simp
  show "v_rule (vertices g ! i) = Some (strip (line_at ls (3 + length (edges g) + i)))"
    if "i < length (vertices g)"
  proof -
    from that g s4 s3 have i: "i < nat nv" by simp
    from read_vertex_rules_rule [OF v, of i] i s2
    have "v_rule (vertices g3 ! i) = Some (strip (line_at (snd (readline r2)) i))" by simp
    with g s4 show ?thesis by (simp add: l2)
  qed
  show "e_rule (edges g ! j)
          = Some (strip (line_at ls (3 + length (edges g) + length (vertices g) + j)))"
    if "j < length (edges g)"
  proof -
    from that g s4 have j: "j < nat ne" by simp
    from read_edge_rules_rule [OF w, of j] j s3(3)
    have "e_rule (edges g4 ! j) = Some (strip (line_at r4 j))" by simp
    with g s4 s3(2) show ?thesis by (simp add: l4)
  qed
qed

text \<open>
  The reader raises only where it reads a pair of integers: at the header and at the
  lines of the edges. Every such failure is a \<open>ValueError\<close>.
\<close>

lemma read_int_pair_error: "read_int_pair l = Inl e \<Longrightarrow> e = ValueError"
  by (auto simp: read_int_pair_def split: list.splits option.splits)

lemma read_edges_fails_iff:
  "isl (read_edges is g ls) \<longleftrightarrow> (\<exists>k<length is. isl (read_int_pair (line_at ls k)))"
proof (induction "is" arbitrary: g ls)
  case Nil
  show ?case by simp
next
  case (Cons i rest)
  show ?case
  proof (cases "read_int_pair (line_at ls 0)")
    case (Inl e)
    then have "isl (read_edges (i # rest) g ls)" by (simp add: fst_readline)
    moreover from Inl have "\<exists>k<length (i # rest). isl (read_int_pair (line_at ls k))"
      by (intro exI [of _ 0]) simp
    ultimately show ?thesis by simp
  next
    case (Inr p)
    obtain src tgt where p: "p = (src, tgt)" by (cases p)
    from Inr p have "isl (read_edges (i # rest) g ls) \<longleftrightarrow>
        isl (read_edges rest (add_edge g (Edge (int i) (src - 1) (tgt - 1))) (drop 1 ls))"
      by (simp add: fst_readline snd_readline)
    also have "\<dots> \<longleftrightarrow> (\<exists>k<length rest. isl (read_int_pair (line_at ls (Suc k))))"
      by (simp only: Cons.IH line_at_drop plus_1_eq_Suc)
    also from Inr have "\<dots> \<longleftrightarrow> (\<exists>k<length (i # rest). isl (read_int_pair (line_at ls k)))"
      by (auto simp: less_Suc_eq_0_disj)
    finally show ?thesis .
  qed
qed

lemma read_edges_error: "read_edges is g ls = Inl e \<Longrightarrow> e = ValueError"
proof (induction "is" arbitrary: g ls)
  case Nil
  then show ?case by simp
next
  case (Cons i rest)
  then show ?case
    by (auto simp: read_int_pair_error split: sum.splits)
qed

lemma read_input_file_fails_iff:
  assumes "read_int_pair (line_at ls 0) = Inr (nv, ne)"
  shows "isl (read_input_file ls)
           \<longleftrightarrow> (\<exists>k<nat ne. isl (read_int_pair (line_at ls (2 + k))))"
proof -
  define g1 where "g1 = add_vertices AnnotatedGraph [0..<nat nv]"
  have r1: "snd (readline (snd (readline ls))) = drop 2 ls"
    by (simp add: snd_readline numeral_2_eq_2)
  from assms have "isl (read_input_file ls) \<longleftrightarrow> isl (read_edges [0..<nat ne] g1 (drop 2 ls))"
    by (auto simp: read_input_file_def fst_readline r1 g1_def Let_def
        split: sum.splits prod.splits)
  also have "\<dots> \<longleftrightarrow> (\<exists>k<nat ne. isl (read_int_pair (line_at ls (2 + k))))"
    by (simp add: read_edges_fails_iff line_at_drop)
  finally show ?thesis .
qed

lemma read_input_file_error: "read_input_file ls = Inl e \<Longrightarrow> e = ValueError"
  by (auto simp: read_input_file_def Let_def read_int_pair_error read_edges_error
      split: sum.splits prod.splits)

lemma read_input_file_header:
  "isl (read_int_pair (line_at ls 0)) \<Longrightarrow> read_input_file ls = Inl ValueError"
  by (cases "read_int_pair (line_at ls 0)")
    (auto simp: read_input_file_def fst_readline read_int_pair_error)

section \<open>Rules are read when their entity is evaluated\<close>

lemma parse_rule_two_tokens:
  "py_float s = None \<Longrightarrow> split s = t # n # rest \<Longrightarrow>
   parse_rule (Some s) =
     (case py_int n of None \<Rightarrow> Inl ValueError | Some k \<Rightarrow> Inr (PTuple t (k - 1)))"
  by (simp add: parse_rule_def split: option.splits)

lemma parse_rule_one_token:
  "py_float s = None \<Longrightarrow> split s = [w] \<Longrightarrow> parse_rule (Some s) = Inr (PStr w)"
  by (simp add: parse_rule_def)

lemma compute_vertex_attr_bad_int:
  assumes "v_rule (vertices h ! i) = Some s" and "py_float s = None"
    and "split s = t # n # rest" and "py_int n = None"
  shows "compute_vertex_attr h i = Inl ValueError"
  using parse_rule_two_tokens [OF assms(2,3)] assms(1,4)
  by (simp add: compute_vertex_attr_def)

lemma compute_edge_attr_bad_int:
  assumes "e_rule (edges h ! j) = Some s" and "py_float s = None"
    and "split s = t # n # rest" and "py_int n = None"
  shows "compute_edge_attr h j = Inl ValueError"
  using parse_rule_two_tokens [OF assms(2,3)] assms(1,4)
  by (simp add: compute_edge_attr_def)

lemma compute_vertex_attr_other_pair:
  assumes "v_rule (vertices h ! i) = Some s" and "py_float s = None"
    and "split s = t # n # rest" and "py_int n \<noteq> None" and "t \<noteq> ''v''" and "t \<noteq> ''e''"
  shows "compute_vertex_attr h i = Inr h"
  using parse_rule_two_tokens [OF assms(2,3)] assms(1,4,5,6)
  by (auto simp: compute_vertex_attr_def)

lemma compute_edge_attr_other_pair:
  assumes "e_rule (edges h ! j) = Some s" and "py_float s = None"
    and "split s = t # n # rest" and "py_int n \<noteq> None" and "t \<noteq> ''v''" and "t \<noteq> ''e''"
  shows "compute_edge_attr h j = Inr h"
  using parse_rule_two_tokens [OF assms(2,3)] assms(1,4,5,6)
  by (auto simp: compute_edge_attr_def)

lemma compute_vertex_attr_other_word:
  assumes "v_rule (vertices h ! i) = Some s" and "py_float s = None"
    and "split s = [w]" and "w \<noteq> ''min''"
  shows "compute_vertex_attr h i = Inr h"
  using parse_rule_one_token [OF assms(2,3)] assms(1,4)
  by (simp add: compute_vertex_attr_def)

lemma compute_edge_attr_other_word:
  assumes "e_rule (edges h ! j) = Some s" and "py_float s = None"
    and "split s = [w]" and "w \<noteq> ''*''"
  shows "compute_edge_attr h j = Inr h"
  using parse_rule_one_token [OF assms(2,3)] assms(1,4)
  by (simp add: compute_edge_attr_def)

text \<open>One vertex with the rule \<open>foo 3\<close>.\<close>

definition bad_rule :: graph where
  "bad_rule =
     \<lparr>vertices = [\<lparr>v_id = 0, v_attr = None, v_rule = Some ''foo 3'', in_edges = [], out_edges = []\<rparr>],
      edges = [], vertex_map = [0 \<mapsto> 0]\<rparr>"

lemma bad_rule_loaded: "read_input_file [''1 0'', '''', '''', ''foo 3''] = Inr bad_rule"
  by (simp add: load_defs str_defs bad_rule_def)

lemma parse_rule_foo3: "parse_rule (Some ''foo 3'') = Inr (PTuple ''foo'' 2)"
  by (simp add: parse_rule_def str_defs)

lemma bad_rule_round: "execute_round bad_rule = Inr (bad_rule, False)"
  by (simp add: bad_rule_def run_defs parse_rule_foo3)

text \<open>
  Three vertices with the rules \<open>foo 3\<close>, \<open>v x\<close> and \<open>*\<close>, three edges with the
  rules \<open>min\<close>, \<open>foo 3\<close> and \<open>e y\<close>.
\<close>

definition mixed_rules :: graph where
  "mixed_rules =
     \<lparr>vertices = [\<lparr>v_id = 0, v_attr = None, v_rule = Some ''foo 3'', in_edges = [2], out_edges = [0]\<rparr>,
                  \<lparr>v_id = 1, v_attr = None, v_rule = Some ''v x'', in_edges = [0], out_edges = [1]\<rparr>,
                  \<lparr>v_id = 2, v_attr = None, v_rule = Some ''*'', in_edges = [1], out_edges = [2]\<rparr>],
      edges = [\<lparr>e_id = 0, source = 0, target = 1, e_attr = None, e_rule = Some ''min''\<rparr>,
               \<lparr>e_id = 1, source = 1, target = 2, e_attr = None, e_rule = Some ''foo 3''\<rparr>,
               \<lparr>e_id = 2, source = 2, target = 0, e_attr = None, e_rule = Some ''e y''\<rparr>],
      vertex_map = [0 \<mapsto> 0, 1 \<mapsto> 1, 2 \<mapsto> 2]\<rparr>"

lemma mixed_rules_loaded:
  "read_input_file [''3 3'', '''', ''1 2'', ''2 3'', ''3 1'', '''',
                    ''foo 3'', ''v x'', ''*'', ''min'', ''foo 3'', ''e y'']
     = Inr mixed_rules"
  by (simp add: load_defs str_defs mixed_rules_def upt_rec numeral_2_eq_2 numeral_3_eq_3)

text \<open>
  C1 (malformed rules), as the code has it. The reader fails only where it reads a pair
  of integers: it raises \<open>ValueError\<close> when the header or the line of an edge is not
  two integers, and it returns a graph in every other case, whatever the lines of the
  rules hold. It stores every rule as the stripped text of its line and looks no
  further: no rule is parsed when the graph is loaded. A rule is parsed when its entity
  is evaluated. There, for a rule that is not a float literal: with two or more tokens,
  a second token that is not an integer raises \<open>ValueError\<close>, and a first token other
  than \<open>v\<close> and \<open>e\<close> before an integer raises nothing and leaves the graph as it
  is; with one token, any word but \<open>min\<close> on a vertex, and any word but \<open>*\<close> on an
  edge, raises nothing and leaves the graph as it is.
\<close>

theorem rules_parsed_at_evaluation:
  "(isl (read_int_pair (line_at ls 0)) \<longrightarrow> read_input_file ls = Inl ValueError) \<and>
   (read_int_pair (line_at ls 0) = Inr (nv, ne) \<and>
    (\<exists>k<nat ne. isl (read_int_pair (line_at ls (2 + k)))) \<longrightarrow>
      read_input_file ls = Inl ValueError) \<and>
   (read_int_pair (line_at ls 0) = Inr (nv, ne) \<and>
    (\<forall>k<nat ne. \<not> isl (read_int_pair (line_at ls (2 + k)))) \<longrightarrow>
      (\<exists>g0. read_input_file ls = Inr g0)) \<and>
   (read_input_file ls = Inr g \<and> i < length (vertices g) \<longrightarrow>
      v_rule (vertices g ! i) = Some (strip (line_at ls (3 + length (edges g) + i)))) \<and>
   (read_input_file ls = Inr g \<and> j < length (edges g) \<longrightarrow>
      e_rule (edges g ! j)
        = Some (strip (line_at ls (3 + length (edges g) + length (vertices g) + j)))) \<and>
   (py_float s = None \<and> split s = t # n # rest \<longrightarrow>
      (py_int n = None \<longrightarrow>
         (v_rule (vertices h ! i) = Some s \<longrightarrow> compute_vertex_attr h i = Inl ValueError) \<and>
         (e_rule (edges h ! j) = Some s \<longrightarrow> compute_edge_attr h j = Inl ValueError)) \<and>
      (py_int n \<noteq> None \<and> t \<noteq> ''v'' \<and> t \<noteq> ''e'' \<longrightarrow>
         (v_rule (vertices h ! i) = Some s \<longrightarrow> compute_vertex_attr h i = Inr h) \<and>
         (e_rule (edges h ! j) = Some s \<longrightarrow> compute_edge_attr h j = Inr h))) \<and>
   (py_float s = None \<and> split s = [w] \<longrightarrow>
      (w \<noteq> ''min'' \<and> v_rule (vertices h ! i) = Some s \<longrightarrow> compute_vertex_attr h i = Inr h) \<and>
      (w \<noteq> ''*'' \<and> e_rule (edges h ! j) = Some s \<longrightarrow> compute_edge_attr h j = Inr h))"
proof -
  have l1: "isl (read_int_pair (line_at ls 0)) \<longrightarrow> read_input_file ls = Inl ValueError"
    using read_input_file_header [of ls] by blast
  have l2: "read_int_pair (line_at ls 0) = Inr (nv, ne) \<and>
    (\<exists>k<nat ne. isl (read_int_pair (line_at ls (2 + k)))) \<longrightarrow>
      read_input_file ls = Inl ValueError"
  proof (intro impI; elim conjE)
    assume "read_int_pair (line_at ls 0) = Inr (nv, ne)"
      "\<exists>k<nat ne. isl (read_int_pair (line_at ls (2 + k)))"
    then have "isl (read_input_file ls)" by (simp only: read_input_file_fails_iff)
    then obtain x where x: "read_input_file ls = Inl x" by (cases "read_input_file ls") auto
    from read_input_file_error [OF x] x show "read_input_file ls = Inl ValueError" by simp
  qed
  have l3: "read_int_pair (line_at ls 0) = Inr (nv, ne) \<and>
    (\<forall>k<nat ne. \<not> isl (read_int_pair (line_at ls (2 + k)))) \<longrightarrow>
      (\<exists>g0. read_input_file ls = Inr g0)"
  proof (intro impI; elim conjE)
    assume p: "read_int_pair (line_at ls 0) = Inr (nv, ne)"
      "\<forall>k<nat ne. \<not> isl (read_int_pair (line_at ls (2 + k)))"
    from p(2) have "\<not> (\<exists>k<nat ne. isl (read_int_pair (line_at ls (2 + k))))" by blast
    with read_input_file_fails_iff [OF p(1)] have "\<not> isl (read_input_file ls)" by simp
    then show "\<exists>g0. read_input_file ls = Inr g0" by (cases "read_input_file ls") auto
  qed
  have a: "read_input_file ls = Inr g \<and> i < length (vertices g) \<longrightarrow>
      v_rule (vertices g ! i) = Some (strip (line_at ls (3 + length (edges g) + i)))"
    using read_input_file_shape(2) [of ls g i] by blast
  have b: "read_input_file ls = Inr g \<and> j < length (edges g) \<longrightarrow>
      e_rule (edges g ! j)
        = Some (strip (line_at ls (3 + length (edges g) + length (vertices g) + j)))"
    using read_input_file_shape(3) [of ls g j] by blast
  have c: "py_float s = None \<and> split s = t # n # rest \<longrightarrow>
      (py_int n = None \<longrightarrow>
         (v_rule (vertices h ! i) = Some s \<longrightarrow> compute_vertex_attr h i = Inl ValueError) \<and>
         (e_rule (edges h ! j) = Some s \<longrightarrow> compute_edge_attr h j = Inl ValueError)) \<and>
      (py_int n \<noteq> None \<and> t \<noteq> ''v'' \<and> t \<noteq> ''e'' \<longrightarrow>
         (v_rule (vertices h ! i) = Some s \<longrightarrow> compute_vertex_attr h i = Inr h) \<and>
         (e_rule (edges h ! j) = Some s \<longrightarrow> compute_edge_attr h j = Inr h))"
  proof (intro impI conjI; elim conjE)
    assume p: "py_float s = None" "split s = t # n # rest"
    {
      assume q: "py_int n = None"
      show "compute_vertex_attr h i = Inl ValueError" if "v_rule (vertices h ! i) = Some s"
        using that p q by (rule compute_vertex_attr_bad_int)
      show "compute_edge_attr h j = Inl ValueError" if "e_rule (edges h ! j) = Some s"
        using that p q by (rule compute_edge_attr_bad_int)
    }
    {
      assume q: "py_int n \<noteq> None" "t \<noteq> ''v''" "t \<noteq> ''e''"
      show "compute_vertex_attr h i = Inr h" if "v_rule (vertices h ! i) = Some s"
        using that p q by (rule compute_vertex_attr_other_pair)
      show "compute_edge_attr h j = Inr h" if "e_rule (edges h ! j) = Some s"
        using that p q by (rule compute_edge_attr_other_pair)
    }
  qed
  have d: "py_float s = None \<and> split s = [w] \<longrightarrow>
      (w \<noteq> ''min'' \<and> v_rule (vertices h ! i) = Some s \<longrightarrow> compute_vertex_attr h i = Inr h) \<and>
      (w \<noteq> ''*'' \<and> e_rule (edges h ! j) = Some s \<longrightarrow> compute_edge_attr h j = Inr h)"
    using compute_vertex_attr_other_word [of h i s w] compute_edge_attr_other_word [of h j s w]
    by blast
  show ?thesis by (intro conjI l1 l2 l3 a b c d)
qed

theorem rules_parsed_at_evaluation_witness:
  "read_input_file [''3''] = Inl ValueError \<and>
   read_input_file [''1 1'', '''', ''1 x'', '''', ''5'', ''5''] = Inl ValueError \<and>
   (\<exists>g0. read_input_file [''3 3'', '''', ''1 2'', ''2 3'', ''3 1'', '''',
                          ''foo 3'', ''v x'', ''*'', ''min'', ''foo 3'', ''e y'']
           = Inr g0) \<and>
   read_input_file [''3 3'', '''', ''1 2'', ''2 3'', ''3 1'', '''',
                    ''foo 3'', ''v x'', ''*'', ''min'', ''foo 3'', ''e y'']
     = Inr mixed_rules \<and>
   v_rule (vertices mixed_rules ! 0) = Some ''foo 3'' \<and>
   e_rule (edges mixed_rules ! 2) = Some ''e y'' \<and>
   compute_vertex_attr mixed_rules 0 = Inr mixed_rules \<and>
   compute_vertex_attr mixed_rules 1 = Inl ValueError \<and>
   compute_vertex_attr mixed_rules 2 = Inr mixed_rules \<and>
   compute_edge_attr mixed_rules 0 = Inr mixed_rules \<and>
   compute_edge_attr mixed_rules 1 = Inr mixed_rules \<and>
   compute_edge_attr mixed_rules 2 = Inl ValueError"
proof -
  let ?ls = "[''3 3'', '''', ''1 2'', ''2 3'', ''3 1'', '''',
              ''foo 3'', ''v x'', ''*'', ''min'', ''foo 3'', ''e y'']"
  let ?bad = "[''1 1'', '''', ''1 x'', '''', ''5'', ''5'']"
  have "isl (read_int_pair (line_at [''3''] 0))"
    by (simp add: line_at_def read_int_pair_def str_defs)
  with rules_parsed_at_evaluation [where ls = "[''3'']", THEN conjunct1]
  have f1: "read_input_file [''3''] = Inl ValueError" by simp
  have "read_int_pair (line_at ?bad 0) = Inr (1, 1)"
    "isl (read_int_pair (line_at ?bad (2 + 0)))"
    by (simp_all add: line_at_def read_int_pair_def str_defs)
  then have "read_int_pair (line_at ?bad 0) = Inr (1, 1) \<and>
    (\<exists>k<nat 1. isl (read_int_pair (line_at ?bad (2 + k))))"
    by (intro conjI exI [of _ 0]) simp_all
  with rules_parsed_at_evaluation [where ls = ?bad and nv = 1 and ne = 1,
      THEN conjunct2, THEN conjunct1]
  have f2: "read_input_file ?bad = Inl ValueError" by (rule mp)
  have hd: "read_int_pair (line_at ?ls 0) = Inr (3, 3)"
    by (simp add: line_at_def read_int_pair_def str_defs)
  have "\<not> isl (read_int_pair (line_at ?ls (2 + k)))" if "k < nat 3" for k
  proof -
    from that have "k = 0 \<or> k = 1 \<or> k = 2" by auto
    then show ?thesis
      by (elim disjE) (simp_all add: line_at_def read_int_pair_def str_defs)
  qed
  with hd have "read_int_pair (line_at ?ls 0) = Inr (3, 3) \<and>
    (\<forall>k<nat 3. \<not> isl (read_int_pair (line_at ?ls (2 + k))))"
    by blast
  with rules_parsed_at_evaluation [where ls = ?ls and nv = 3 and ne = 3,
      THEN conjunct2, THEN conjunct2, THEN conjunct1]
  have f3: "\<exists>g0. read_input_file ?ls = Inr g0" by (rule mp)
  note t = rules_parsed_at_evaluation [where ls = ?ls and g = mixed_rules and h = mixed_rules
      and rest = "[]" and nv = 3 and ne = 3]
  have len: "length (vertices mixed_rules) = 3" "length (edges mixed_rules) = 3"
    by (simp_all add: mixed_rules_def)
  have foo: "py_float ''foo 3'' = None" "split ''foo 3'' = ''foo'' # ''3'' # []"
    "py_int ''3'' \<noteq> None" "''foo'' \<noteq> ''v''" "''foo'' \<noteq> ''e''"
    by (simp_all add: str_defs)
  have vx: "py_float ''v x'' = None" "split ''v x'' = ''v'' # ''x'' # []" "py_int ''x'' = None"
    by (simp_all add: str_defs)
  have ey: "py_float ''e y'' = None" "split ''e y'' = ''e'' # ''y'' # []" "py_int ''y'' = None"
    by (simp_all add: str_defs)
  have star: "py_float ''*'' = None" "split ''*'' = [''*'']" "''*'' \<noteq> ''min''"
    by (simp_all add: str_defs)
  have mn: "py_float ''min'' = None" "split ''min'' = [''min'']" "''min'' \<noteq> ''*''"
    by (simp_all add: str_defs)
  have stored: "strip (line_at ?ls 6) = ''foo 3''" "strip (line_at ?ls 11) = ''e y''"
    by (simp_all add: line_at_def strip_def is_space_def)
  from t [where i = 0 and j = 2 and s = "''foo 3''" and t = "''foo''" and n = "''3''"
      and w = "''*''"]
    mixed_rules_loaded len stored foo
  have r0: "v_rule (vertices mixed_rules ! 0) = Some ''foo 3''"
    and e2: "e_rule (edges mixed_rules ! 2) = Some ''e y''"
    and v0: "compute_vertex_attr mixed_rules 0 = Inr mixed_rules"
    by simp_all
  have rules: "v_rule (vertices mixed_rules ! 1) = Some ''v x''"
    "v_rule (vertices mixed_rules ! 2) = Some ''*''"
    "e_rule (edges mixed_rules ! 0) = Some ''min''"
    "e_rule (edges mixed_rules ! 1) = Some ''foo 3''"
    by (simp_all add: mixed_rules_def)
  from t [where i = 1 and j = 1 and s = "''v x''" and t = "''v''" and n = "''x''"
      and w = "''*''"] vx rules
  have v1: "compute_vertex_attr mixed_rules 1 = Inl ValueError" by simp
  from t [where i = 2 and j = 1 and s = "''*''" and t = "''v''" and n = "''x''"
      and w = "''*''"] star rules
  have v2: "compute_vertex_attr mixed_rules 2 = Inr mixed_rules" by simp
  from t [where i = 2 and j = 0 and s = "''min''" and t = "''v''" and n = "''x''"
      and w = "''min''"] mn rules
  have e0: "compute_edge_attr mixed_rules 0 = Inr mixed_rules" by simp
  from t [where i = 2 and j = 1 and s = "''foo 3''" and t = "''foo''" and n = "''3''"
      and w = "''min''"] foo rules
  have e1: "compute_edge_attr mixed_rules 1 = Inr mixed_rules" by simp
  from t [where i = 2 and j = 2 and s = "''e y''" and t = "''e''" and n = "''y''"
      and w = "''min''"] ey e2
  have e2': "compute_edge_attr mixed_rules 2 = Inl ValueError" by simp
  from f1 f2 f3 mixed_rules_loaded r0 e2 v0 v1 v2 e0 e1 e2' show ?thesis by simp
qed

theorem malformed_rule_counterexample:
  "read_input_file [''1 0'', '''', '''', ''foo 3''] = Inr bad_rule \<and>
   execute bad_rule = Inr bad_rule \<and>
   main [''1 0'', '''', '''', ''foo 3''] = Inr [None]"
proof -
  have e: "execute bad_rule = Inr bad_rule"
    by (simp add: execute_at_fixpoint bad_rule_round)
  have "write_output_file bad_rule = [None]"
    by (simp add: write_output_file_def bad_rule_def)
  with e show ?thesis by (simp add: main_def bad_rule_loaded)
qed

section \<open>References are looked up when their entity is evaluated\<close>

lemma compute_vertex_attr_missing_vertex:
  "parse_rule (v_rule (vertices g ! i)) = Inr (PTuple ''v'' k) \<Longrightarrow> vertex_map g k = None \<Longrightarrow>
   compute_vertex_attr g i = Inl KeyError"
  by (simp add: compute_vertex_attr_def get_vertex_def)

lemma compute_edge_attr_missing_vertex:
  "parse_rule (e_rule (edges g ! j)) = Inr (PTuple ''v'' k) \<Longrightarrow> vertex_map g k = None \<Longrightarrow>
   compute_edge_attr g j = Inl KeyError"
  by (simp add: compute_edge_attr_def get_vertex_def)

lemma list_index_out_of_range:
  "k < - int n \<or> int n \<le> k \<Longrightarrow> list_index n k = Inl IndexError"
  by (auto simp: list_index_def Let_def)

lemma list_index_in_range:
  "- int n \<le> k \<Longrightarrow> k < int n \<Longrightarrow>
   list_index n k = Inr (nat (if k < 0 then int n + k else k))"
  by (auto simp: list_index_def Let_def)

lemma compute_vertex_attr_missing_edge:
  "parse_rule (v_rule (vertices g ! i)) = Inr (PTuple ''e'' k) \<Longrightarrow>
   k < - int (length (edges g)) \<or> int (length (edges g)) \<le> k \<Longrightarrow>
   compute_vertex_attr g i = Inl IndexError"
  by (simp add: compute_vertex_attr_def list_index_out_of_range)

lemma compute_edge_attr_missing_edge:
  "parse_rule (e_rule (edges g ! j)) = Inr (PTuple ''e'' k) \<Longrightarrow>
   k < - int (length (edges g)) \<or> int (length (edges g)) \<le> k \<Longrightarrow>
   compute_edge_attr g j = Inl IndexError"
  by (simp add: compute_edge_attr_def list_index_out_of_range)

text \<open>A round raises when the step at an unset vertex or edge raises.\<close>

lemma round_raises_at_vertex:
  assumes "i < length (vertices g)" and "v_attr (vertices g ! i) = None"
    and "\<And>h. vertices h ! i = vertices g ! i \<Longrightarrow> vertex_map h = vertex_map g \<Longrightarrow>
              edges h = edges g \<Longrightarrow> isl (compute_vertex_attr h i)"
  shows "isl (execute_round g)"
proof (rule ccontr)
  assume "\<not> isl (execute_round g)"
  then obtain g' c where "execute_round g = Inr (g', c)"
    by (cases "execute_round g") auto
  then obtain g1 c1 where
    v: "vertices_pass [0..<length (vertices g)] g False = Inr (g1, c1)"
    by (rule execute_round_parts)
  from v assms(1) obtain ga ca where
    pa: "vertices_pass [0..<i] g False = Inr (ga, ca)" and
    pb: "vertices_pass (i # [Suc i..<length (vertices g)]) ga ca = Inr (g1, c1)"
    by (rule vertices_pass_split)
  from vertices_pass_frame [OF pa]
  have fr: "vertices ga ! i = vertices g ! i" "vertex_map ga = vertex_map g"
    "edges ga = edges g"
    by simp_all
  from assms(3) [OF fr] obtain e where "compute_vertex_attr ga i = Inl e"
    by (cases "compute_vertex_attr ga i") auto
  with pb fr(1) assms(2) show False by simp
qed

lemma round_raises_at_edge:
  assumes "j < length (edges g)" and "e_attr (edges g ! j) = None"
    and "\<And>h. edges h ! j = edges g ! j \<Longrightarrow> vertex_map h = vertex_map g \<Longrightarrow>
              length (edges h) = length (edges g) \<Longrightarrow> isl (compute_edge_attr h j)"
  shows "isl (execute_round g)"
proof (rule ccontr)
  assume "\<not> isl (execute_round g)"
  then obtain g' c where "execute_round g = Inr (g', c)"
    by (cases "execute_round g") auto
  then obtain g1 c1 where
    e: "edges_pass [0..<length (edges g)] g1 c1 = Inr (g', c)" and
    s: "edges g1 = edges g" "vertex_map g1 = vertex_map g"
    by (rule execute_round_parts)
  from e assms(1) obtain ga ca where
    pa: "edges_pass [0..<j] g1 c1 = Inr (ga, ca)" and
    pb: "edges_pass (j # [Suc j..<length (edges g)]) ga ca = Inr (g', c)"
    by (rule edges_pass_split)
  from edges_pass_frame [OF pa] s
  have fr: "edges ga ! j = edges g ! j" "vertex_map ga = vertex_map g"
    "length (edges ga) = length (edges g)"
    by simp_all
  from assms(3) [OF fr] obtain x where "compute_edge_attr ga j = Inl x"
    by (cases "compute_edge_attr ga j") auto
  with pb fr(1) assms(2) show False by simp
qed

lemma execute_raises: "isl (execute_round g) \<Longrightarrow> isl (execute g)"
  by (cases "execute_round g") (simp_all add: execute.simps [of g])

lemma main_raises: "read_input_file ls = Inr g \<Longrightarrow> isl (execute g) \<Longrightarrow> isl (main ls)"
  by (cases "execute g") (auto simp: main_def)

text \<open>One vertex with the rule \<open>v 5\<close>.\<close>

definition bad_vertex_ref :: graph where
  "bad_vertex_ref =
     \<lparr>vertices = [\<lparr>v_id = 0, v_attr = None, v_rule = Some ''v 5'', in_edges = [], out_edges = []\<rparr>],
      edges = [], vertex_map = [0 \<mapsto> 0]\<rparr>"

lemma bad_vertex_ref_loaded:
  "read_input_file [''1 0'', '''', '''', ''v 5''] = Inr bad_vertex_ref"
  by (simp add: load_defs str_defs bad_vertex_ref_def)

lemma parse_rule_v5: "parse_rule (Some ''v 5'') = Inr (PTuple ''v'' 4)"
  by (simp add: parse_rule_def str_defs)

lemma parse_rule_e5: "parse_rule (Some ''e 5'') = Inr (PTuple ''e'' 4)"
  by (simp add: parse_rule_def str_defs)

lemma bad_vertex_ref_round: "execute_round bad_vertex_ref = Inl (KeyError, bad_vertex_ref)"
  by (simp add: bad_vertex_ref_def run_defs parse_rule_v5)

text \<open>One vertex with the rule \<open>5\<close> and one edge, a loop, with the rule \<open>e 5\<close>.\<close>

definition bad_edge_ref :: graph where
  "bad_edge_ref =
     \<lparr>vertices = [\<lparr>v_id = 0, v_attr = None, v_rule = Some ''5'', in_edges = [0], out_edges = [0]\<rparr>],
      edges = [\<lparr>e_id = 0, source = 0, target = 0, e_attr = None, e_rule = Some ''e 5''\<rparr>],
      vertex_map = [0 \<mapsto> 0]\<rparr>"

lemma bad_edge_ref_loaded:
  "read_input_file [''1 1'', '''', ''1 1'', '''', ''5'', ''e 5''] = Inr bad_edge_ref"
  by (simp add: load_defs str_defs bad_edge_ref_def)

lemma round_raises_at_bad_vertex_rule:
  assumes "i < length (vertices g)" and "v_attr (vertices g ! i) = None"
    and "parse_rule (v_rule (vertices g ! i)) = Inr (PTuple t k)"
    and "t = ''v'' \<and> vertex_map g k = None \<or>
         t = ''e'' \<and> (k < - int (length (edges g)) \<or> int (length (edges g)) \<le> k)"
  shows "compute_vertex_attr g i = Inl (if t = ''v'' then KeyError else IndexError)"
    and "isl (execute_round g)"
proof -
  have c: "compute_vertex_attr h i = Inl (if t = ''v'' then KeyError else IndexError)"
    if "vertices h ! i = vertices g ! i" "vertex_map h = vertex_map g" "edges h = edges g" for h
    using that assms(3,4)
    by (auto simp: compute_vertex_attr_missing_vertex compute_vertex_attr_missing_edge)
  from c [of g] show "compute_vertex_attr g i = Inl (if t = ''v'' then KeyError else IndexError)"
    by simp
  from c show "isl (execute_round g)"
    by (intro round_raises_at_vertex [OF assms(1,2)]) simp
qed

lemma round_raises_at_bad_edge_rule:
  assumes "j < length (edges g)" and "e_attr (edges g ! j) = None"
    and "parse_rule (e_rule (edges g ! j)) = Inr (PTuple t k)"
    and "t = ''v'' \<and> vertex_map g k = None \<or>
         t = ''e'' \<and> (k < - int (length (edges g)) \<or> int (length (edges g)) \<le> k)"
  shows "compute_edge_attr g j = Inl (if t = ''v'' then KeyError else IndexError)"
    and "isl (execute_round g)"
proof -
  have c: "compute_edge_attr h j = Inl (if t = ''v'' then KeyError else IndexError)"
    if "edges h ! j = edges g ! j" "vertex_map h = vertex_map g"
      "length (edges h) = length (edges g)" for h
    using that assms(3,4)
    by (auto simp: compute_edge_attr_missing_vertex compute_edge_attr_missing_edge)
  from c [of g] show "compute_edge_attr g j = Inl (if t = ''v'' then KeyError else IndexError)"
    by simp
  from c show "isl (execute_round g)"
    by (intro round_raises_at_edge [OF assms(1,2)]) simp
qed

text \<open>
  C4 (rule references), as the code has it. No reference is checked when the graph is
  loaded: the reader raises nothing but the \<open>ValueError\<close> of a header or an edge line
  that is not two integers, and when these lines are pairs of integers it returns a
  graph, whatever the lines of the rules hold. Each reference is looked up when its
  entity is evaluated. For an unset vertex or edge whose rule is \<open>v k\<close> with \<open>k - 1\<close>
  not a key of \<open>vertex_map\<close>, the evaluation of the entity raises \<open>KeyError\<close>; when
  it is \<open>e k\<close> with \<open>k - 1\<close> outside \<open>-NE .. NE - 1\<close>, it raises \<open>IndexError\<close>.
  The round that meets the entity raises (this exception, unless an entity before it
  raises first), and so do \<open>execute\<close> and \<open>main\<close>.
\<close>

theorem references_resolved_at_evaluation:
  "(read_input_file ls = Inl e \<longrightarrow> e = ValueError) \<and>
   (read_int_pair (line_at ls 0) = Inr (nv, ne) \<and>
    (\<forall>m<nat ne. \<not> isl (read_int_pair (line_at ls (2 + m)))) \<longrightarrow>
      (\<exists>g0. read_input_file ls = Inr g0)) \<and>
   (i < length (vertices g) \<and> v_attr (vertices g ! i) = None \<and>
    parse_rule (v_rule (vertices g ! i)) = Inr (PTuple t k) \<and>
    (t = ''v'' \<and> vertex_map g k = None \<or>
     t = ''e'' \<and> (k < - int (length (edges g)) \<or> int (length (edges g)) \<le> k))
    \<longrightarrow> compute_vertex_attr g i = Inl (if t = ''v'' then KeyError else IndexError) \<and>
        isl (execute_round g) \<and> isl (execute g)) \<and>
   (j < length (edges g) \<and> e_attr (edges g ! j) = None \<and>
    parse_rule (e_rule (edges g ! j)) = Inr (PTuple t k) \<and>
    (t = ''v'' \<and> vertex_map g k = None \<or>
     t = ''e'' \<and> (k < - int (length (edges g)) \<or> int (length (edges g)) \<le> k))
    \<longrightarrow> compute_edge_attr g j = Inl (if t = ''v'' then KeyError else IndexError) \<and>
        isl (execute_round g) \<and> isl (execute g)) \<and>
   (read_input_file ls = Inr g \<and> isl (execute g) \<longrightarrow> isl (main ls))"
proof -
  have l1: "read_input_file ls = Inl e \<longrightarrow> e = ValueError"
    using read_input_file_error [of ls e] by blast
  have l2: "read_int_pair (line_at ls 0) = Inr (nv, ne) \<and>
    (\<forall>m<nat ne. \<not> isl (read_int_pair (line_at ls (2 + m)))) \<longrightarrow>
      (\<exists>g0. read_input_file ls = Inr g0)"
  proof (intro impI; elim conjE)
    assume p: "read_int_pair (line_at ls 0) = Inr (nv, ne)"
      "\<forall>m<nat ne. \<not> isl (read_int_pair (line_at ls (2 + m)))"
    from p(2) have "\<not> (\<exists>m<nat ne. isl (read_int_pair (line_at ls (2 + m))))" by blast
    with read_input_file_fails_iff [OF p(1)] have "\<not> isl (read_input_file ls)" by simp
    then show "\<exists>g0. read_input_file ls = Inr g0" by (cases "read_input_file ls") auto
  qed
  have a: "i < length (vertices g) \<and> v_attr (vertices g ! i) = None \<and>
    parse_rule (v_rule (vertices g ! i)) = Inr (PTuple t k) \<and>
    (t = ''v'' \<and> vertex_map g k = None \<or>
     t = ''e'' \<and> (k < - int (length (edges g)) \<or> int (length (edges g)) \<le> k))
    \<longrightarrow> compute_vertex_attr g i = Inl (if t = ''v'' then KeyError else IndexError) \<and>
        isl (execute_round g) \<and> isl (execute g)"
  proof (intro impI; elim conjE)
    assume a: "i < length (vertices g)" "v_attr (vertices g ! i) = None"
      "parse_rule (v_rule (vertices g ! i)) = Inr (PTuple t k)"
      "t = ''v'' \<and> vertex_map g k = None \<or>
       t = ''e'' \<and> (k < - int (length (edges g)) \<or> int (length (edges g)) \<le> k)"
    from round_raises_at_bad_vertex_rule [OF a]
    show "compute_vertex_attr g i = Inl (if t = ''v'' then KeyError else IndexError) \<and>
        isl (execute_round g) \<and> isl (execute g)"
      by (simp add: execute_raises)
  qed
  have b: "j < length (edges g) \<and> e_attr (edges g ! j) = None \<and>
    parse_rule (e_rule (edges g ! j)) = Inr (PTuple t k) \<and>
    (t = ''v'' \<and> vertex_map g k = None \<or>
     t = ''e'' \<and> (k < - int (length (edges g)) \<or> int (length (edges g)) \<le> k))
    \<longrightarrow> compute_edge_attr g j = Inl (if t = ''v'' then KeyError else IndexError) \<and>
        isl (execute_round g) \<and> isl (execute g)"
  proof (intro impI; elim conjE)
    assume a: "j < length (edges g)" "e_attr (edges g ! j) = None"
      "parse_rule (e_rule (edges g ! j)) = Inr (PTuple t k)"
      "t = ''v'' \<and> vertex_map g k = None \<or>
       t = ''e'' \<and> (k < - int (length (edges g)) \<or> int (length (edges g)) \<le> k)"
    from round_raises_at_bad_edge_rule [OF a]
    show "compute_edge_attr g j = Inl (if t = ''v'' then KeyError else IndexError) \<and>
        isl (execute_round g) \<and> isl (execute g)"
      by (simp add: execute_raises)
  qed
  have c: "read_input_file ls = Inr g \<and> isl (execute g) \<longrightarrow> isl (main ls)"
    using main_raises [of ls g] by blast
  show ?thesis by (intro conjI l1 l2 a b c)
qed

theorem references_resolved_at_evaluation_witness:
  "read_input_file [''1 1'', '''', ''1 x'', '''', ''5'', ''e 5''] = Inl ValueError \<and>
   (\<exists>g0. read_input_file [''1 1'', '''', ''1 1'', '''', ''5'', ''e 5''] = Inr g0) \<and>
   read_input_file [''1 0'', '''', '''', ''v 5''] = Inr bad_vertex_ref \<and>
   vertex_map bad_vertex_ref 4 = None \<and>
   compute_vertex_attr bad_vertex_ref 0 = Inl KeyError \<and>
   isl (execute bad_vertex_ref) \<and>
   isl (main [''1 0'', '''', '''', ''v 5'']) \<and>
   read_input_file [''1 1'', '''', ''1 1'', '''', ''5'', ''e 5''] = Inr bad_edge_ref \<and>
   int (length (edges bad_edge_ref)) \<le> 4 \<and>
   compute_edge_attr bad_edge_ref 0 = Inl IndexError \<and>
   isl (execute bad_edge_ref) \<and>
   isl (main [''1 1'', '''', ''1 1'', '''', ''5'', ''e 5''])"
proof -
  let ?lv = "[''1 0'', '''', '''', ''v 5'']"
  let ?le = "[''1 1'', '''', ''1 1'', '''', ''5'', ''e 5'']"
  let ?bad = "[''1 1'', '''', ''1 x'', '''', ''5'', ''e 5'']"
  have "isl (read_input_file ?bad)"
    by (simp add: load_defs str_defs)
  then obtain x where x: "read_input_file ?bad = Inl x"
    by (cases "read_input_file ?bad") auto
  from references_resolved_at_evaluation [where ls = ?bad and e = x, THEN conjunct1] x
  have f1: "read_input_file ?bad = Inl ValueError" by simp
  have "read_int_pair (line_at ?le 0) = Inr (1, 1)"
    "\<not> isl (read_int_pair (line_at ?le (2 + 0)))"
    by (simp_all add: line_at_def read_int_pair_def str_defs)
  then have "read_int_pair (line_at ?le 0) = Inr (1, 1) \<and>
    (\<forall>m<nat 1. \<not> isl (read_int_pair (line_at ?le (2 + m))))"
    by simp
  with references_resolved_at_evaluation [where ls = ?le and nv = 1 and ne = 1,
      THEN conjunct2, THEN conjunct1]
  have f2: "\<exists>g0. read_input_file ?le = Inr g0" by (rule mp)
  have v: "0 < length (vertices bad_vertex_ref)" "v_attr (vertices bad_vertex_ref ! 0) = None"
    "parse_rule (v_rule (vertices bad_vertex_ref ! 0)) = Inr (PTuple ''v'' 4)"
    "vertex_map bad_vertex_ref 4 = None"
    by (simp_all add: bad_vertex_ref_def parse_rule_v5)
  from references_resolved_at_evaluation [where g = bad_vertex_ref and i = 0 and j = 0
      and t = "''v''" and k = 4 and ls = ?lv and nv = 1 and ne = 0 and e = ValueError,
      THEN conjunct2, THEN conjunct2]
    v bad_vertex_ref_loaded
  have a: "compute_vertex_attr bad_vertex_ref 0 = Inl KeyError \<and> isl (execute bad_vertex_ref) \<and>
           isl (main ?lv)"
    by simp
  have e: "0 < length (edges bad_edge_ref)" "e_attr (edges bad_edge_ref ! 0) = None"
    "parse_rule (e_rule (edges bad_edge_ref ! 0)) = Inr (PTuple ''e'' 4)"
    "int (length (edges bad_edge_ref)) \<le> 4"
    by (simp_all add: bad_edge_ref_def parse_rule_e5)
  from references_resolved_at_evaluation [where g = bad_edge_ref and i = 0 and j = 0
      and t = "''e''" and k = 4 and ls = ?le and nv = 1 and ne = 1 and e = ValueError,
      THEN conjunct2, THEN conjunct2]
    e bad_edge_ref_loaded
  have b: "compute_edge_attr bad_edge_ref 0 = Inl IndexError \<and> isl (execute bad_edge_ref) \<and>
           isl (main ?le)"
    by simp
  from f1 f2 a b v(4) e(4) bad_vertex_ref_loaded bad_edge_ref_loaded show ?thesis by simp
qed

theorem invalid_reference_counterexample:
  "read_input_file [''1 0'', '''', '''', ''v 5''] = Inr bad_vertex_ref \<and>
   execute bad_vertex_ref = Inl (KeyError, bad_vertex_ref) \<and>
   main [''1 0'', '''', '''', ''v 5''] = Inl KeyError"
proof -
  have "execute bad_vertex_ref = Inl (KeyError, bad_vertex_ref)"
    by (simp add: execute.simps [of bad_vertex_ref] bad_vertex_ref_round)
  then show ?thesis by (simp add: main_def bad_vertex_ref_loaded)
qed

section \<open>The index 0 in a copy rule\<close>

lemma list_index_minus_one: "0 < n \<Longrightarrow> list_index n (- 1) = Inr (n - 1)"
  by (auto simp: list_index_def Let_def)

lemma loaded_vertex_map:
  assumes "read_input_file ls = Inr g" and "attrs_kept g h"
  shows "vertex_map h k = (if 0 \<le> k \<and> k < int (length (vertices h)) then Some (nat k) else None)"
  using read_input_file_shape(1) [OF assms(1)] attrs_kept_length [OF assms(2)]
  by (simp add: id_map_def)

lemma parse_rule_e0: "parse_rule (Some ''e 0'') = Inr (PTuple ''e'' (- 1))"
  by (simp add: parse_rule_def str_defs)

lemma parse_rule_v0: "parse_rule (Some ''v 0'') = Inr (PTuple ''v'' (- 1))"
  by (simp add: parse_rule_def str_defs)

lemma parse_rule_3: "parse_rule (Some ''3'') = Inr (PFloat (Fin 3))"
  by (simp add: parse_rule_def str_defs float_defs)

lemma parse_rule_7: "parse_rule (Some ''7'') = Inr (PFloat (Fin 7))"
  by (simp add: parse_rule_def str_defs float_defs)

text \<open>
  One vertex and three loops on it. The vertex and the first edge have the rule
  \<open>e 0\<close>, the other edges are the constants 3 and 7.
\<close>

definition alias_example :: graph where
  "alias_example =
     \<lparr>vertices = [\<lparr>v_id = 0, v_attr = None, v_rule = Some ''e 0'',
                   in_edges = [0, 1, 2], out_edges = [0, 1, 2]\<rparr>],
      edges = [\<lparr>e_id = 0, source = 0, target = 0, e_attr = None, e_rule = Some ''e 0''\<rparr>,
               \<lparr>e_id = 1, source = 0, target = 0, e_attr = None, e_rule = Some ''3''\<rparr>,
               \<lparr>e_id = 2, source = 0, target = 0, e_attr = None, e_rule = Some ''7''\<rparr>],
      vertex_map = [0 \<mapsto> 0]\<rparr>"

definition alias_example_round1 :: graph where
  "alias_example_round1 =
     \<lparr>vertices = [\<lparr>v_id = 0, v_attr = None, v_rule = Some ''e 0'',
                   in_edges = [0, 1, 2], out_edges = [0, 1, 2]\<rparr>],
      edges = [\<lparr>e_id = 0, source = 0, target = 0, e_attr = None, e_rule = Some ''e 0''\<rparr>,
               \<lparr>e_id = 1, source = 0, target = 0, e_attr = Some (Fin 3), e_rule = Some ''3''\<rparr>,
               \<lparr>e_id = 2, source = 0, target = 0, e_attr = Some (Fin 7), e_rule = Some ''7''\<rparr>],
      vertex_map = [0 \<mapsto> 0]\<rparr>"

lemma alias_example_loaded:
  "read_input_file [''1 3'', '''', ''1 1'', ''1 1'', ''1 1'', '''', ''e 0'', ''e 0'', ''3'', ''7'']
     = Inr alias_example"
  by (simp add: load_defs str_defs alias_example_def upt_rec numeral_2_eq_2)

lemma alias_example_round:
  "execute_round alias_example = Inr (alias_example_round1, True)"
  by (simp add: alias_example_def alias_example_round1_def run_defs parse_rule_e0 parse_rule_3
      parse_rule_7 upt_rec)

text \<open>One vertex and one loop on it, both with the rule \<open>v 0\<close>.\<close>

definition zero_vertex_ref :: graph where
  "zero_vertex_ref =
     \<lparr>vertices = [\<lparr>v_id = 0, v_attr = None, v_rule = Some ''v 0'', in_edges = [0], out_edges = [0]\<rparr>],
      edges = [\<lparr>e_id = 0, source = 0, target = 0, e_attr = None, e_rule = Some ''v 0''\<rparr>],
      vertex_map = [0 \<mapsto> 0]\<rparr>"

lemma zero_vertex_ref_loaded:
  "read_input_file [''1 1'', '''', ''1 1'', '''', ''v 0'', ''v 0''] = Inr zero_vertex_ref"
  by (simp add: load_defs str_defs zero_vertex_ref_def)

text \<open>
  C10 (index token 0). Let \<open>g\<close> be a graph loaded from input with at least one edge and
  \<open>h\<close> a graph that evaluation has made of it. A copy rule whose second token is the
  integer 0 is parsed to the index \<open>-1\<close>. Evaluating a vertex or an edge with the rule
  \<open>e 0\<close> reads the attribute of the last edge and raises nothing; evaluating one with
  the rule \<open>v 0\<close> raises \<open>KeyError\<close>.
\<close>

theorem index_zero_aliases_last_edge:
  assumes "read_input_file ls = Inr g" and "attrs_kept g h" and "edges g \<noteq> []"
  shows "py_int ''0'' = Some 0 \<and>
    (py_float s = None \<and> split s = t # n # rest \<and> py_int n = Some 0
       \<longrightarrow> parse_rule (Some s) = Inr (PTuple t (- 1))) \<and>
    (parse_rule (v_rule (vertices h ! i)) = Inr (PTuple ''e'' (- 1))
       \<longrightarrow> compute_vertex_attr h i =
             Inr (case e_attr (last (edges h)) of None \<Rightarrow> h | Some x \<Rightarrow> set_vattr h i x)) \<and>
    (parse_rule (e_rule (edges h ! j)) = Inr (PTuple ''e'' (- 1))
       \<longrightarrow> compute_edge_attr h j =
             Inr (case e_attr (last (edges h)) of None \<Rightarrow> h | Some x \<Rightarrow> set_eattr h j x)) \<and>
    (parse_rule (v_rule (vertices h ! i)) = Inr (PTuple ''v'' (- 1))
       \<longrightarrow> compute_vertex_attr h i = Inl KeyError) \<and>
    (parse_rule (e_rule (edges h ! j)) = Inr (PTuple ''v'' (- 1))
       \<longrightarrow> compute_edge_attr h j = Inl KeyError)"
proof -
  from assms(3) attrs_kept_length(2) [OF assms(2)] have ne: "edges h \<noteq> []" by auto
  then have li: "list_index (length (edges h)) (- 1) = Inr (length (edges h) - 1)"
    by (simp add: list_index_minus_one)
  from ne have la: "edges h ! (length (edges h) - 1) = last (edges h)"
    by (simp add: last_conv_nth)
  from loaded_vertex_map [OF assms(1,2), of "- 1"] have vm: "vertex_map h (- 1) = None"
    by simp
  have a: "py_int ''0'' = Some 0" by (simp add: str_defs)
  have b: "py_float s = None \<and> split s = t # n # rest \<and> py_int n = Some 0
       \<longrightarrow> parse_rule (Some s) = Inr (PTuple t (- 1))"
    using parse_rule_two_tokens [of s t n rest] by auto
  have c: "parse_rule (v_rule (vertices h ! i)) = Inr (PTuple ''e'' (- 1))
       \<longrightarrow> compute_vertex_attr h i =
             Inr (case e_attr (last (edges h)) of None \<Rightarrow> h | Some x \<Rightarrow> set_vattr h i x)"
    using compute_vertex_attr_copy_edge [of h i "- 1", OF _ li] la by simp
  have d: "parse_rule (e_rule (edges h ! j)) = Inr (PTuple ''e'' (- 1))
       \<longrightarrow> compute_edge_attr h j =
             Inr (case e_attr (last (edges h)) of None \<Rightarrow> h | Some x \<Rightarrow> set_eattr h j x)"
    using compute_edge_attr_copy_edge [of h j "- 1", OF _ li] la by simp
  have e: "parse_rule (v_rule (vertices h ! i)) = Inr (PTuple ''v'' (- 1))
       \<longrightarrow> compute_vertex_attr h i = Inl KeyError"
    using compute_vertex_attr_missing_vertex [of h i "- 1"] vm by simp
  have f: "parse_rule (e_rule (edges h ! j)) = Inr (PTuple ''v'' (- 1))
       \<longrightarrow> compute_edge_attr h j = Inl KeyError"
    using compute_edge_attr_missing_vertex [of h j "- 1"] vm by simp
  show ?thesis by (intro conjI a b c d e f)
qed

theorem index_zero_aliases_last_edge_witness:
  "read_input_file [''1 3'', '''', ''1 1'', ''1 1'', ''1 1'', '''', ''e 0'', ''e 0'', ''3'', ''7'']
     = Inr alias_example \<and>
   execute_round alias_example = Inr (alias_example_round1, True) \<and>
   parse_rule (Some ''e 0'') = Inr (PTuple ''e'' (- 1)) \<and>
   e_attr (last (edges alias_example_round1)) = Some (Fin 7) \<and>
   compute_vertex_attr alias_example_round1 0
     = Inr (set_vattr alias_example_round1 0 (Fin 7)) \<and>
   compute_edge_attr alias_example_round1 0
     = Inr (set_eattr alias_example_round1 0 (Fin 7)) \<and>
   read_input_file [''1 1'', '''', ''1 1'', '''', ''v 0'', ''v 0''] = Inr zero_vertex_ref \<and>
   parse_rule (Some ''v 0'') = Inr (PTuple ''v'' (- 1)) \<and>
   compute_vertex_attr zero_vertex_ref 0 = Inl KeyError \<and>
   compute_edge_attr zero_vertex_ref 0 = Inl KeyError"
proof -
  from execute_round_kept [of alias_example] alias_example_round
  have k: "attrs_kept alias_example alias_example_round1"
    by (simp add: state_after_def)
  have n: "edges alias_example \<noteq> []" by (simp add: alias_example_def)
  have s: "py_float ''e 0'' = None" "split ''e 0'' = ''e'' # ''0'' # []"
    "py_float ''v 0'' = None" "split ''v 0'' = ''v'' # ''0'' # []"
    by (simp_all add: str_defs)
  have r: "v_rule (vertices alias_example_round1 ! 0) = Some ''e 0''"
    "e_rule (edges alias_example_round1 ! 0) = Some ''e 0''"
    "e_attr (last (edges alias_example_round1)) = Some (Fin 7)"
    by (simp_all add: alias_example_round1_def)
  from index_zero_aliases_last_edge [OF alias_example_loaded k n,
      where s = "''e 0''" and t = "''e''" and n = "''0''" and rest = "[]" and i = 0 and j = 0]
    s r
  have a: "parse_rule (Some ''e 0'') = Inr (PTuple ''e'' (- 1)) \<and>
    compute_vertex_attr alias_example_round1 0 = Inr (set_vattr alias_example_round1 0 (Fin 7)) \<and>
    compute_edge_attr alias_example_round1 0 = Inr (set_eattr alias_example_round1 0 (Fin 7))"
    by simp
  have n': "edges zero_vertex_ref \<noteq> []" by (simp add: zero_vertex_ref_def)
  have r': "v_rule (vertices zero_vertex_ref ! 0) = Some ''v 0''"
    "e_rule (edges zero_vertex_ref ! 0) = Some ''v 0''"
    by (simp_all add: zero_vertex_ref_def)
  from index_zero_aliases_last_edge [OF zero_vertex_ref_loaded attrs_kept_refl n',
      where s = "''v 0''" and t = "''v''" and n = "''0''" and rest = "[]" and i = 0 and j = 0]
    s r'
  have b: "parse_rule (Some ''v 0'') = Inr (PTuple ''v'' (- 1)) \<and>
    compute_vertex_attr zero_vertex_ref 0 = Inl KeyError \<and>
    compute_edge_attr zero_vertex_ref 0 = Inl KeyError"
    by simp
  from a b r(3) alias_example_loaded alias_example_round zero_vertex_ref_loaded
  show ?thesis by simp
qed

section \<open>The product rule\<close>

text \<open>
  The positions of the edges whose target is the vertex at position \<open>p\<close>, in ascending
  order, and the graphs in which \<open>vertex_map\<close> is the identity on \<open>0 .. NV - 1\<close> and
  every \<open>in_edges\<close> list is made of exactly these edges.
\<close>

definition incoming :: "graph \<Rightarrow> nat \<Rightarrow> nat list" where
  "incoming g p = filter (\<lambda>q. target (edges g ! q) = int p) [0..<length (edges g)]"

definition wired :: "graph \<Rightarrow> bool" where
  "wired g =
     (vertex_map g = id_map (length (vertices g)) \<and>
      (\<forall>p<length (vertices g). in_edges (vertices g ! p) = incoming g p))"

lemma add_vertices_no_in_edges:
  "p < n \<Longrightarrow> in_edges (vertices (add_vertices AnnotatedGraph [0..<n]) ! p) = []"
proof (induction n)
  case 0
  then show ?case by simp
next
  case (Suc n)
  from add_vertices_shape [of n]
  have l: "length (vertices (add_vertices AnnotatedGraph [0..<n])) = n" by simp
  show ?case
  proof (cases "p < n")
    case True
    with Suc.IH l show ?thesis
      by (simp add: add_vertices_snoc add_vertex_def nth_append)
  next
    case False
    with Suc.prems have "p = n" by simp
    with l show ?thesis
      by (simp add: add_vertices_snoc add_vertex_def nth_append Vertex_def)
  qed
qed

lemma add_vertices_wired: "wired (add_vertices AnnotatedGraph [0..<n])"
  using add_vertices_shape [of n]
  by (simp add: wired_def incoming_def add_vertices_no_in_edges)

lemma in_edges_update_other:
  "in_edges y = in_edges (xs ! i) \<Longrightarrow> in_edges (xs[i := y] ! p) = in_edges (xs ! p)"
  by (cases "i < length xs"; cases "p = i") (simp_all add: list_update_beyond)

lemma target_update_other:
  "target y = target (xs ! j) \<Longrightarrow> target (xs[j := y] ! q) = target (xs ! q)"
  by (cases "j < length xs"; cases "q = j") (simp_all add: list_update_beyond)

lemma in_edges_add_edge:
  "p < length (vertices g) \<Longrightarrow>
   in_edges (vertices (add_edge g e) ! p) =
     in_edges (vertices g ! p) @ (if vertex_map g (target e) = Some p then [length (edges g)] else [])"
  by (auto simp: add_edge_def add_out_edge_def add_in_edge_def Let_def nth_list_update
      in_edges_update_other split: option.splits)

lemma incoming_add_edge:
  "incoming (add_edge g e) p =
     incoming g p @ (if target e = int p then [length (edges g)] else [])"
proof -
  have "filter (\<lambda>q. target ((edges g @ [e]) ! q) = int p) [0..<length (edges g)]
        = filter (\<lambda>q. target (edges g ! q) = int p) [0..<length (edges g)]"
    by (rule filter_cong) (simp_all add: nth_append)
  then show ?thesis
    by (simp add: incoming_def add_edge_shape nth_append)
qed

lemma add_edge_wired:
  assumes "wired g"
  shows "wired (add_edge g e)"
proof -
  from assms have m: "vertex_map g = id_map (length (vertices g))"
    and i: "\<And>p. p < length (vertices g) \<Longrightarrow> in_edges (vertices g ! p) = incoming g p"
    by (simp_all add: wired_def)
  have "in_edges (vertices (add_edge g e) ! p) = incoming (add_edge g e) p"
    if "p < length (vertices g)" for p
  proof -
    from that m have "vertex_map g (target e) = Some p \<longleftrightarrow> target e = int p"
      by (auto simp: id_map_def)
    with that i [OF that] show ?thesis
      by (simp add: in_edges_add_edge incoming_add_edge)
  qed
  with m show ?thesis by (simp add: wired_def add_edge_shape)
qed

lemma read_edges_wired:
  "read_edges is g ls = Inr (g', r) \<Longrightarrow> wired g \<Longrightarrow> wired g'"
proof (induction "is" arbitrary: g ls)
  case Nil
  then show ?case by simp
next
  case (Cons i rest)
  from Cons.prems(1) obtain src tgt where
    r: "read_edges rest (add_edge g (Edge (int i) (src - 1) (tgt - 1))) (drop 1 ls) = Inr (g', r)"
    by (auto simp: snd_readline split: sum.splits)
  from Cons.IH [OF r add_edge_wired [OF Cons.prems(2)]] show ?case .
qed

text \<open>Writing a rule or an attribute changes neither the wiring nor the endpoints.\<close>

lemma wired_cong:
  assumes "wired g" and "vertex_map h = vertex_map g"
    and "length (vertices h) = length (vertices g)" and "length (edges h) = length (edges g)"
    and "\<And>p. p < length (vertices g) \<Longrightarrow> in_edges (vertices h ! p) = in_edges (vertices g ! p)"
    and "\<And>q. q < length (edges g) \<Longrightarrow> target (edges h ! q) = target (edges g ! q)"
  shows "wired h"
proof -
  have "incoming h p = incoming g p" for p
    unfolding incoming_def assms(4)
    by (rule filter_cong) (simp_all add: assms(6))
  with assms show ?thesis by (simp add: wired_def)
qed

lemma set_vrule_wired: "wired g \<Longrightarrow> wired (set_vrule g i s)"
  by (erule wired_cong) (auto simp: set_vrule_def in_edges_update_other)

lemma set_erule_wired: "wired g \<Longrightarrow> wired (set_erule g j s)"
  by (erule wired_cong) (auto simp: set_erule_def target_update_other)

lemma read_vertex_rules_wired:
  "read_vertex_rules is g ls = (g', r) \<Longrightarrow> wired g \<Longrightarrow> wired g'"
  by (induction "is" arbitrary: g ls) (auto simp: set_vrule_wired)

lemma read_edge_rules_wired:
  "read_edge_rules js g ls = (g', r) \<Longrightarrow> wired g \<Longrightarrow> wired g'"
  by (induction js arbitrary: g ls) (auto simp: set_erule_wired)

lemma read_input_file_wired:
  assumes "read_input_file ls = Inr g"
  shows "wired g"
proof -
  from assms obtain nv ne where h: "read_int_pair (fst (readline ls)) = Inr (nv, ne)"
    by (auto simp: read_input_file_def split: sum.splits)
  define g1 where "g1 = add_vertices AnnotatedGraph [0..<nat nv]"
  define r1 where "r1 = snd (readline (snd (readline ls)))"
  from assms h obtain g2 r2 where
    e: "read_edges [0..<nat ne] g1 r1 = Inr (g2, r2)"
    by (auto simp: read_input_file_def g1_def r1_def split: sum.splits)
  obtain g3 r4 where v: "read_vertex_rules [0..<nat nv] g2 (snd (readline r2)) = (g3, r4)"
    by (cases "read_vertex_rules [0..<nat nv] g2 (snd (readline r2))")
  obtain g4 r5 where w: "read_edge_rules [0..<nat ne] g3 r4 = (g4, r5)"
    by (cases "read_edge_rules [0..<nat ne] g3 r4")
  from assms h e v w have g: "g = g4"
    by (simp add: read_input_file_def g1_def [symmetric] r1_def [symmetric])
  have "wired g1" by (simp add: g1_def add_vertices_wired)
  from read_edges_wired [OF e this] have "wired g2" .
  from read_vertex_rules_wired [OF v this] have "wired g3" .
  from read_edge_rules_wired [OF w this] g show ?thesis by simp
qed

lemma attrs_kept_wired:
  assumes "attrs_kept g h" and "wired g"
  shows "wired h"
proof (rule wired_cong [OF assms(2)])
  from attrs_kept_length [OF assms(1)]
  show "vertex_map h = vertex_map g" "length (vertices h) = length (vertices g)"
    "length (edges h) = length (edges g)"
    by simp_all
  show "in_edges (vertices h ! p) = in_edges (vertices g ! p)" if "p < length (vertices g)" for p
    using attrs_kept_vertex(1) [OF assms(1) that] by (metis vertex.select_convs(4) vertex.surjective vertex.update_convs(2))
  show "target (edges h ! q) = target (edges g ! q)" if "q < length (edges g)" for q
    using attrs_kept_edge(1) [OF assms(1) that] by (metis edge.select_convs(3) edge.surjective edge.update_convs(4))
qed

lemma parse_rule_star: "parse_rule (Some ''*'') = Inr (PStr ''*'')"
  by (simp add: parse_rule_def str_defs)

lemma parse_rule_1: "parse_rule (Some ''1'') = Inr (PFloat (Fin 1))"
  by (simp add: parse_rule_def str_defs float_defs)

lemma parse_rule_2: "parse_rule (Some ''2'') = Inr (PFloat (Fin 2))"
  by (simp add: parse_rule_def str_defs float_defs)

lemma parse_rule_4: "parse_rule (Some ''4'') = Inr (PFloat (Fin 4))"
  by (simp add: parse_rule_def str_defs float_defs)

lemma fmul_1_4: "fmul (Fin 1) (Fin 4) = Fin 4"
  by (simp add: float_defs)

lemma fmul_2_4: "fmul (Fin 2) (Fin 4) = Fin 8"
  by (simp add: float_defs)

lemma fmul_3_1: "fmul (Fin 3) (Fin 1) = Fin 3"
  by (simp add: float_defs)

lemma compute_edge_attr_product:
  assumes "parse_rule (e_rule (edges g ! j)) = Inr (PStr ''*'')"
    and "vertex_map g (source (edges g ! j)) = Some p"
  shows "compute_edge_attr g j =
     (case v_attr (vertices g ! p) of
        None \<Rightarrow> Inr g
      | Some a \<Rightarrow>
          if all_set g (in_edges (vertices g ! p))
          then Inr (set_eattr g j
                 (fmul a (foldl fmul (Fin 1) (attrs_of g (in_edges (vertices g ! p))))))
          else Inr g)"
  using assms by (simp add: compute_edge_attr_def get_vertex_def Let_def split: option.splits)

lemma compute_edge_attr_product_none:
  assumes "parse_rule (e_rule (edges g ! j)) = Inr (PStr ''*'')"
    and "vertex_map g (source (edges g ! j)) = Some p"
    and "v_attr (vertices g ! p) = Some a" and "in_edges (vertices g ! p) = []"
  shows "compute_edge_attr g j = Inr (set_eattr g j (fmul a (Fin 1)))"
  using compute_edge_attr_product [OF assms(1,2)] assms(3,4)
  by (simp add: all_set_def attrs_of_def)

lemma attrs_of_map_Some:
  "map (\<lambda>q. e_attr (edges g ! q)) es = map Some bs \<Longrightarrow> all_set g es \<and> attrs_of g es = bs"
  by (induction es arbitrary: bs) (auto simp: all_set_def attrs_of_def)

lemma compute_edge_attr_product_list:
  assumes "parse_rule (e_rule (edges g ! j)) = Inr (PStr ''*'')"
    and "vertex_map g (source (edges g ! j)) = Some p"
    and "v_attr (vertices g ! p) = Some a"
    and "map (\<lambda>q. e_attr (edges g ! q)) (in_edges (vertices g ! p)) = map Some bs"
  shows "compute_edge_attr g j = Inr (set_eattr g j (fmul a (foldl fmul (Fin 1) bs)))"
  using compute_edge_attr_product [OF assms(1,2)] assms(3) attrs_of_map_Some [OF assms(4)]
  by simp

lemma loaded_source_and_in_edges:
  assumes "read_input_file ls = Inr g0" and "attrs_kept g0 g"
    and "vertex_map g (source (edges g ! j)) = Some p"
  shows "source (edges g ! j) = int p" and "in_edges (vertices g ! p) = incoming g p"
proof -
  from attrs_kept_wired [OF assms(2) read_input_file_wired [OF assms(1)]]
  have w: "wired g" .
  with assms(3) show s: "source (edges g ! j) = int p"
    by (auto simp: wired_def id_map_def split: if_splits)
  from w assms(3) have "p < length (vertices g)"
    by (auto simp: wired_def id_map_def split: if_splits)
  with w show "in_edges (vertices g ! p) = incoming g p" by (simp add: wired_def)
qed

text \<open>
  Scenario C, with a second product edge whose source has no incoming edge. Three
  vertices with the constants 2, 1 and 3; the edges \<open>2 \<rightarrow> 1\<close> with the constant 4,
  \<open>1 \<rightarrow> 2\<close> and \<open>3 \<rightarrow> 2\<close> with the rule \<open>*\<close>. The second graph is the state in which
  the edge pass comes to the product edges.
\<close>

definition scenario_C :: graph where
  "scenario_C =
     \<lparr>vertices = [\<lparr>v_id = 0, v_attr = None, v_rule = Some ''2'', in_edges = [0], out_edges = [1]\<rparr>,
                  \<lparr>v_id = 1, v_attr = None, v_rule = Some ''1'', in_edges = [1, 2], out_edges = [0]\<rparr>,
                  \<lparr>v_id = 2, v_attr = None, v_rule = Some ''3'', in_edges = [], out_edges = [2]\<rparr>],
      edges = [\<lparr>e_id = 0, source = 1, target = 0, e_attr = None, e_rule = Some ''4''\<rparr>,
               \<lparr>e_id = 1, source = 0, target = 1, e_attr = None, e_rule = Some ''*''\<rparr>,
               \<lparr>e_id = 2, source = 2, target = 1, e_attr = None, e_rule = Some ''*''\<rparr>],
      vertex_map = [0 \<mapsto> 0, 1 \<mapsto> 1, 2 \<mapsto> 2]\<rparr>"

definition scenario_C_mid :: graph where
  "scenario_C_mid =
     \<lparr>vertices = [\<lparr>v_id = 0, v_attr = Some (Fin 2), v_rule = Some ''2'', in_edges = [0], out_edges = [1]\<rparr>,
                  \<lparr>v_id = 1, v_attr = Some (Fin 1), v_rule = Some ''1'', in_edges = [1, 2], out_edges = [0]\<rparr>,
                  \<lparr>v_id = 2, v_attr = Some (Fin 3), v_rule = Some ''3'', in_edges = [], out_edges = [2]\<rparr>],
      edges = [\<lparr>e_id = 0, source = 1, target = 0, e_attr = Some (Fin 4), e_rule = Some ''4''\<rparr>,
               \<lparr>e_id = 1, source = 0, target = 1, e_attr = None, e_rule = Some ''*''\<rparr>,
               \<lparr>e_id = 2, source = 2, target = 1, e_attr = None, e_rule = Some ''*''\<rparr>],
      vertex_map = [0 \<mapsto> 0, 1 \<mapsto> 1, 2 \<mapsto> 2]\<rparr>"

definition scenario_C_final :: graph where
  "scenario_C_final =
     \<lparr>vertices = [\<lparr>v_id = 0, v_attr = Some (Fin 2), v_rule = Some ''2'', in_edges = [0], out_edges = [1]\<rparr>,
                  \<lparr>v_id = 1, v_attr = Some (Fin 1), v_rule = Some ''1'', in_edges = [1, 2], out_edges = [0]\<rparr>,
                  \<lparr>v_id = 2, v_attr = Some (Fin 3), v_rule = Some ''3'', in_edges = [], out_edges = [2]\<rparr>],
      edges = [\<lparr>e_id = 0, source = 1, target = 0, e_attr = Some (Fin 4), e_rule = Some ''4''\<rparr>,
               \<lparr>e_id = 1, source = 0, target = 1, e_attr = Some (Fin 8), e_rule = Some ''*''\<rparr>,
               \<lparr>e_id = 2, source = 2, target = 1, e_attr = Some (Fin 3), e_rule = Some ''*''\<rparr>],
      vertex_map = [0 \<mapsto> 0, 1 \<mapsto> 1, 2 \<mapsto> 2]\<rparr>"

lemma scenario_C_loaded:
  "read_input_file [''3 3'', '''', ''2 1'', ''1 2'', ''3 2'', '''',
                    ''2'', ''1'', ''3'', ''4'', ''*'', ''*'']
     = Inr scenario_C"
  by (simp add: load_defs str_defs scenario_C_def upt_rec numeral_2_eq_2)

lemma scenario_C_reaches_mid:
  "state_after (edges_pass [0]
     (state_after (vertices_pass [0..<length (vertices scenario_C)] scenario_C False)) True)
   = scenario_C_mid"
  by (simp add: scenario_C_def scenario_C_mid_def state_after_def compute_vertex_attr_def
      compute_edge_attr_def set_vattr_def set_eattr_def parse_rule_1 parse_rule_2 parse_rule_3
      parse_rule_4 upt_rec)

lemma scenario_C_round1: "execute_round scenario_C = Inr (scenario_C_final, True)"
  by (simp add: scenario_C_def scenario_C_final_def run_defs parse_rule_1 parse_rule_2
      parse_rule_3 parse_rule_4 parse_rule_star fmul_1_4 fmul_2_4 fmul_3_1 upt_rec)

lemma scenario_C_round2: "execute_round scenario_C_final = Inr (scenario_C_final, False)"
  by (simp add: scenario_C_final_def run_defs upt_rec)

lemma scenario_C_main:
  "main [''3 3'', '''', ''2 1'', ''1 2'', ''3 2'', '''', ''2'', ''1'', ''3'', ''4'', ''*'', ''*'']
     = Inr [Some (Fin 2), Some (Fin 1), Some (Fin 3), Some (Fin 4), Some (Fin 8), Some (Fin 3)]"
proof -
  have "execute scenario_C = Inr scenario_C_final"
    by (simp add: execute.simps [of scenario_C] execute.simps [of scenario_C_final]
        scenario_C_round1 scenario_C_round2)
  then show ?thesis
    by (simp add: main_def scenario_C_loaded write_output_file_def scenario_C_final_def)
qed

lemma scenario_C_mid_kept: "attrs_kept scenario_C scenario_C_mid"
proof -
  let ?g1 = "state_after (vertices_pass [0..<length (vertices scenario_C)] scenario_C False)"
  have "attrs_kept scenario_C ?g1" by (rule vertices_pass_kept)
  moreover have "attrs_kept ?g1 (state_after (edges_pass [0] ?g1 True))"
    by (rule edges_pass_kept)
  ultimately show ?thesis
    using scenario_C_reaches_mid attrs_kept_trans by metis
qed

text \<open>
  C6 (product rule). For an edge with the rule \<open>*\<close> whose source is the vertex \<open>S\<close>
  at position \<open>p\<close>: the edge is assigned only when the attribute of \<open>S\<close> and the
  attributes of all edges in \<open>S.in_edges\<close> are set, otherwise the graph is left as it
  is. The value is the attribute of \<open>S\<close> times the product of those attributes, which
  is taken from 1.0 on and from left to right, every multiplication being that of
  doubles; it is the attribute of \<open>S\<close> times 1.0 when \<open>S\<close> has no incoming edge, and
  2.0 times 1.0 times 4.0 is 8.0. In a graph that evaluation has made of a loaded graph,
  \<open>p\<close> is the source id of the edge and \<open>S.in_edges\<close> is the list of the edges whose
  target is \<open>S\<close>. On scenario C the program writes 8.0 for the product edge.
\<close>

theorem product_rule:
  assumes "parse_rule (e_rule (edges g ! j)) = Inr (PStr ''*'')"
    and "vertex_map g (source (edges g ! j)) = Some p"
  shows "compute_edge_attr g j =
     (case v_attr (vertices g ! p) of
        None \<Rightarrow> Inr g
      | Some a \<Rightarrow>
          if all_set g (in_edges (vertices g ! p))
          then Inr (set_eattr g j
                 (fmul a (foldl fmul (Fin 1) (attrs_of g (in_edges (vertices g ! p))))))
          else Inr g) \<and>
   (v_attr (vertices g ! p) = Some a \<and>
    map (\<lambda>q. e_attr (edges g ! q)) (in_edges (vertices g ! p)) = map Some bs
    \<longrightarrow> compute_edge_attr g j = Inr (set_eattr g j (fmul a (foldl fmul (Fin 1) bs)))) \<and>
   (v_attr (vertices g ! p) = Some a \<and> in_edges (vertices g ! p) = []
    \<longrightarrow> compute_edge_attr g j = Inr (set_eattr g j (fmul a (Fin 1)))) \<and>
   (read_input_file ls = Inr g0 \<and> attrs_kept g0 g
    \<longrightarrow> source (edges g ! j) = int p \<and> in_edges (vertices g ! p) = incoming g p) \<and>
   fmul (Fin 2) (foldl fmul (Fin 1) [Fin 4]) = Fin 8 \<and>
   main [''3 3'', '''', ''2 1'', ''1 2'', ''3 2'', '''', ''2'', ''1'', ''3'', ''4'', ''*'', ''*'']
     = Inr [Some (Fin 2), Some (Fin 1), Some (Fin 3), Some (Fin 4), Some (Fin 8), Some (Fin 3)]"
proof (intro conjI impI; (elim conjE)?)
  show "compute_edge_attr g j =
     (case v_attr (vertices g ! p) of
        None \<Rightarrow> Inr g
      | Some a \<Rightarrow>
          if all_set g (in_edges (vertices g ! p))
          then Inr (set_eattr g j
                 (fmul a (foldl fmul (Fin 1) (attrs_of g (in_edges (vertices g ! p))))))
          else Inr g)"
    using assms by (rule compute_edge_attr_product)
next
  assume "v_attr (vertices g ! p) = Some a"
    "map (\<lambda>q. e_attr (edges g ! q)) (in_edges (vertices g ! p)) = map Some bs"
  with assms show "compute_edge_attr g j = Inr (set_eattr g j (fmul a (foldl fmul (Fin 1) bs)))"
    by (rule compute_edge_attr_product_list)
next
  assume "v_attr (vertices g ! p) = Some a" "in_edges (vertices g ! p) = []"
  with assms show "compute_edge_attr g j = Inr (set_eattr g j (fmul a (Fin 1)))"
    by (rule compute_edge_attr_product_none)
next
  assume l: "read_input_file ls = Inr g0" "attrs_kept g0 g"
  from loaded_source_and_in_edges [OF l assms(2)]
  show "source (edges g ! j) = int p" "in_edges (vertices g ! p) = incoming g p"
    by simp_all
next
  show "fmul (Fin 2) (foldl fmul (Fin 1) [Fin 4]) = Fin 8"
    by (simp add: fmul_1_4 fmul_2_4)
next
  show "main [''3 3'', '''', ''2 1'', ''1 2'', ''3 2'', '''', ''2'', ''1'', ''3'', ''4'', ''*'', ''*'']
     = Inr [Some (Fin 2), Some (Fin 1), Some (Fin 3), Some (Fin 4), Some (Fin 8), Some (Fin 3)]"
    by (rule scenario_C_main)
qed

theorem product_rule_witness:
  "read_input_file [''3 3'', '''', ''2 1'', ''1 2'', ''3 2'', '''',
                    ''2'', ''1'', ''3'', ''4'', ''*'', ''*'']
     = Inr scenario_C \<and>
   attrs_kept scenario_C scenario_C_mid \<and>
   v_attr (vertices scenario_C_mid ! 0) = Some (Fin 2) \<and>
   in_edges (vertices scenario_C_mid ! 0) = [0] \<and>
   e_attr (edges scenario_C_mid ! 0) = Some (Fin 4) \<and>
   compute_edge_attr scenario_C_mid 1 = Inr (set_eattr scenario_C_mid 1 (Fin 8)) \<and>
   v_attr (vertices scenario_C_mid ! 2) = Some (Fin 3) \<and>
   in_edges (vertices scenario_C_mid ! 2) = [] \<and>
   compute_edge_attr scenario_C_mid 2 = Inr (set_eattr scenario_C_mid 2 (Fin 3)) \<and>
   incoming scenario_C_mid 0 = [0] \<and> incoming scenario_C_mid 2 = []"
proof -
  let ?ls = "[''3 3'', '''', ''2 1'', ''1 2'', ''3 2'', '''',
              ''2'', ''1'', ''3'', ''4'', ''*'', ''*'']"
  have f: "parse_rule (e_rule (edges scenario_C_mid ! 1)) = Inr (PStr ''*'')"
    "vertex_map scenario_C_mid (source (edges scenario_C_mid ! 1)) = Some 0"
    "parse_rule (e_rule (edges scenario_C_mid ! 2)) = Inr (PStr ''*'')"
    "vertex_map scenario_C_mid (source (edges scenario_C_mid ! 2)) = Some 2"
    "v_attr (vertices scenario_C_mid ! 0) = Some (Fin 2)"
    "in_edges (vertices scenario_C_mid ! 0) = [0]"
    "e_attr (edges scenario_C_mid ! 0) = Some (Fin 4)"
    "v_attr (vertices scenario_C_mid ! 2) = Some (Fin 3)"
    "in_edges (vertices scenario_C_mid ! 2) = []"
    by (simp_all add: scenario_C_mid_def parse_rule_star)
  note t1 = product_rule [OF f(1,2), where a = "Fin 2" and bs = "[Fin 4]" and ls = ?ls
      and ?g0.0 = scenario_C]
  from t1 [THEN conjunct2, THEN conjunct1] f(5,6,7)
  have a1: "compute_edge_attr scenario_C_mid 1 = Inr (set_eattr scenario_C_mid 1 (Fin 8))"
    by (simp add: fmul_1_4 fmul_2_4)
  from t1 [THEN conjunct2, THEN conjunct2, THEN conjunct2, THEN conjunct1]
    scenario_C_loaded scenario_C_mid_kept f(6)
  have a2: "incoming scenario_C_mid 0 = [0]" by simp
  note t2 = product_rule [OF f(3,4), where a = "Fin 3" and bs = "[]" and ls = ?ls
      and ?g0.0 = scenario_C]
  from t2 [THEN conjunct2, THEN conjunct2, THEN conjunct1] f(8,9)
  have b1: "compute_edge_attr scenario_C_mid 2 = Inr (set_eattr scenario_C_mid 2 (Fin 3))"
    by (simp add: fmul_3_1)
  from t2 [THEN conjunct2, THEN conjunct2, THEN conjunct2, THEN conjunct1]
    scenario_C_loaded scenario_C_mid_kept f(9)
  have b2: "incoming scenario_C_mid 2 = []" by simp
  from a1 a2 b1 b2 f(5-9) scenario_C_loaded scenario_C_mid_kept show ?thesis by simp
qed

end
